theory Spec2Isabelle
  imports Complex_Main "HOL-Library.AList"
begin

section \<open>JavaScript strings\<close>

text \<open>
  Source texts, file names, URL paths and file contents are JavaScript strings or byte
  buffers; both are modelled as \<open>string\<close> (a list of 8-bit characters), one \<open>char\<close>
  per code unit or byte.  The operations below are the string methods the code calls.
\<close>

text \<open>\<^verbatim>\<open>s.startsWith(t)\<close>\<close>

definition startsWith :: "string \<Rightarrow> string \<Rightarrow> bool" where
  "startsWith s t = (take (length t) s = t)"

text \<open>\<^verbatim>\<open>s.endsWith(t)\<close>\<close>

definition endsWith :: "string \<Rightarrow> string \<Rightarrow> bool" where
  "endsWith s t = (length t \<le> length s \<and> drop (length s - length t) s = t)"

text \<open>\<^verbatim>\<open>s.includes(t)\<close>: \<open>t\<close> occurs in \<open>s\<close> as a contiguous substring.\<close>

fun includes_str :: "string \<Rightarrow> string \<Rightarrow> bool" where
  "includes_str [] t = (t = [])"
| "includes_str (c # s) t = (startsWith (c # s) t \<or> includes_str s t)"

text \<open>\<^verbatim>\<open>s.slice(i, j)\<close> for indices \<open>0 \<le> i\<close>, \<open>0 \<le> j\<close> (clamped to the length).\<close>

definition slice :: "string \<Rightarrow> nat \<Rightarrow> nat \<Rightarrow> string" where
  "slice s i j = take (j - i) (drop i s)"

text \<open>\<^verbatim>\<open>n.toString()\<close> for a non-negative integer: its decimal digits.\<close>

fun digit :: "nat \<Rightarrow> char" where
  "digit n = char_of (48 + n)"

function toString :: "nat \<Rightarrow> string" where
  "toString n = (if n < 10 then [digit n] else toString (n div 10) @ [digit (n mod 10)])"
  by pat_completeness auto
termination
  by (relation "measure id") auto

declare toString.simps [simp del]

text \<open>\<^verbatim>\<open>s.toLowerCase()\<close> on ASCII letters (header names are ASCII).\<close>

definition toLowerCase :: "string \<Rightarrow> string" where
  "toLowerCase s =
     map (\<lambda>c. let n = (of_char c :: nat) in if 65 \<le> n \<and> n \<le> 90 then char_of (n + 32) else c) s"

text \<open>\<^verbatim>\<open>s.split(c)\<close> for a one-character separator: always at least one piece.\<close>

fun split :: "char \<Rightarrow> string \<Rightarrow> string list" where
  "split c [] = [[]]"
| "split c (x # xs) =
     (if x = c then [] # split c xs
      else (case split c xs of [] \<Rightarrow> [[x]] | w # ws \<Rightarrow> (x # w) # ws))"

text \<open>\<^verbatim>\<open>parts.join(sep)\<close>\<close>

fun join :: "string \<Rightarrow> string list \<Rightarrow> string" where
  "join sep [] = []"
| "join sep [x] = x"
| "join sep (x # y # ys) = x @ sep @ join sep (y # ys)"

text \<open>
  \<^verbatim>\<open>s.replace(pattern, replacement)\<close> with a string pattern: the first occurrence only
  (the replacements the code passes contain no \<^verbatim>\<open>$\<close>).
\<close>

fun replaceFirst :: "string \<Rightarrow> string \<Rightarrow> string \<Rightarrow> string" where
  "replaceFirst [] pat rep = (if pat = [] then rep else [])"
| "replaceFirst (c # s) pat rep =
     (if startsWith (c # s) pat then rep @ drop (length pat) (c # s)
      else c # replaceFirst s pat rep)"

section \<open>The runtime's path module (POSIX)\<close>

text \<open>
  \<^verbatim>\<open>node:path\<close> belongs to the runtime, not to the repository.  Its POSIX functions are
  modelled by what they compute: \<^verbatim>\<open>normalize\<close> splits a path at \<^verbatim>\<open>/\<close>, drops empty
  and \<^verbatim>\<open>.\<close> segments, lets \<^verbatim>\<open>..\<close> remove the segment before it (or keeps it when
  there is none and the path is relative), and keeps a leading and a trailing slash.
\<close>

fun normalizeSegments :: "bool \<Rightarrow> string list \<Rightarrow> string list \<Rightarrow> string list" where
  "normalizeSegments allowAboveRoot res [] = res"
| "normalizeSegments allowAboveRoot res (seg # segs) =
     (if seg = [] \<or> seg = ''.'' then normalizeSegments allowAboveRoot res segs
      else if seg = ''..'' then
        (if res \<noteq> [] \<and> last res \<noteq> ''..''
           then normalizeSegments allowAboveRoot (butlast res) segs
         else if allowAboveRoot
           then normalizeSegments allowAboveRoot (res @ [''..'']) segs
         else normalizeSegments allowAboveRoot res segs)
      else normalizeSegments allowAboveRoot (res @ [seg]) segs)"

definition normalize :: "string \<Rightarrow> string" where
  "normalize path =
     (if path = [] then ''.''
      else
        let isAbsolute = (hd path = CHR ''/'');
            trailingSeparator = (last path = CHR ''/'');
            p = join ''/'' (normalizeSegments (\<not> isAbsolute) [] (split CHR ''/'' path))
        in if p = [] then (if isAbsolute then ''/'' else if trailingSeparator then ''./'' else ''.'')
           else (if isAbsolute then ''/'' else []) @ p @ (if trailingSeparator then ''/'' else []))"

text \<open>\<^verbatim>\<open>path.join(a, b)\<close>: the non-empty arguments joined by \<^verbatim>\<open>/\<close>, then normalised.\<close>

definition path_join :: "string \<Rightarrow> string \<Rightarrow> string" where
  "path_join a b =
     (let parts = filter (\<lambda>s. s \<noteq> []) [a, b]
      in if parts = [] then ''.'' else normalize (join ''/'' parts))"

text \<open>\<^verbatim>\<open>path.basename(p)\<close>: the last segment, trailing slashes ignored.\<close>

definition basename :: "string \<Rightarrow> string" where
  "basename p =
     rev (takeWhile (\<lambda>c. c \<noteq> CHR ''/'') (dropWhile (\<lambda>c. c = CHR ''/'') (rev p)))"

text \<open>
  \<^verbatim>\<open>path.parse(base).name\<close> for a name without slashes: the name up to its last dot;
  a name with no dot, with its only dot in front, or equal to \<^verbatim>\<open>..\<close>, has no extension.
\<close>

definition parseName :: "string \<Rightarrow> string" where
  "parseName base =
     (let stem = rev (drop 1 (dropWhile (\<lambda>c. c \<noteq> CHR ''.'') (rev base)))
      in if CHR ''.'' \<notin> set base \<or> stem = [] \<or> base = ''..'' then base else stem)"

section \<open>Errors\<close>

text \<open>Every \<^verbatim>\<open>throw\<close> and rejected promise of the modelled code is a value of this type.\<close>

datatype error =
    ENOENT string
  | WorkerFailed string
  | LexerError string
  | WriteFailed string
  | ClientBundleFailed
  | PageForBasenameNotFound string
  | EntrypointPathNotFound string
  | CssPathsNotFound string
  | ManifestNotFound string
  | JsonSyntaxError
  | ZodError
  | SsrExportNotFound string
  | SsrExportNotFunction string

text \<open>Sequencing of computations that may throw: the first error ends the computation.\<close>

definition bindE :: "error + 'a \<Rightarrow> ('a \<Rightarrow> error + 'b) \<Rightarrow> error + 'b" where
  "bindE m f = (case m of Inl e \<Rightarrow> Inl e | Inr x \<Rightarrow> f x)"

text \<open>
  \<^verbatim>\<open>await Promise.all(xs.map(async (x) => ...))\<close> over computations that touch disjoint
  data: all the values in order, or the first rejection.
\<close>

fun promiseAll :: "(error + 'a) list \<Rightarrow> error + 'a list" where
  "promiseAll [] = Inr []"
| "promiseAll (m # ms) =
     (case m of
        Inl e \<Rightarrow> Inl e
      | Inr x \<Rightarrow> (case promiseAll ms of Inl e \<Rightarrow> Inl e | Inr xs \<Rightarrow> Inr (x # xs)))"

section \<open>bunStatic: the static asset server\<close>

subsection \<open>Grouping files by logical name\<close>

datatype compression = Gz | Br | Zst

fun compressionName :: "compression \<Rightarrow> string" where
  "compressionName Gz = ''gz''"
| "compressionName Br = ''br''"
| "compressionName Zst = ''zst''"

text \<open>\<^verbatim>\<open>const compressionExtensions = ['gz', 'br', 'zst']\<close>, in this order.\<close>

definition compressionExtensions :: "compression list" where
  "compressionExtensions = [Gz, Br, Zst]"

text \<open>
  \<^verbatim>\<open>compressionExtensions.find((ext) => file.name.endsWith(`.${ext}`))\<close>
\<close>

definition compressionExtension :: "string \<Rightarrow> compression option" where
  "compressionExtension name =
     find (\<lambda>ext. endsWith name (''.'' @ compressionName ext)) compressionExtensions"

text \<open>
  \<^verbatim>\<open>compressionExtension ? file.name.slice(0, -(compressionExtension.length + 1)) : file.name\<close>:
  the logical name, with one trailing compression extension removed.
\<close>

definition nameWithoutCompression :: "string \<Rightarrow> string" where
  "nameWithoutCompression name =
     (case compressionExtension name of
        None \<Rightarrow> name
      | Some ext \<Rightarrow> take (length name - (length (compressionName ext) + 1)) name)"

subsection \<open>Route computation\<close>

text \<open>
  \<^verbatim>\<open>s.replace(/\/\//g, '/')\<close>: every match of two slashes, found left to right without
  overlap, becomes one slash.
\<close>

fun collapseSlashes :: "string \<Rightarrow> string" where
  "collapseSlashes (a # b # s) =
     (if a = CHR ''/'' \<and> b = CHR ''/'' then CHR ''/'' # collapseSlashes s
      else a # collapseSlashes (b # s))"
| "collapseSlashes s = s"

text \<open>
  \<^verbatim>\<open>
  let route = (routePath + '/' + file.name).replace(/\/\//g, '/');
  if (route === '/index.html') {
    if (spaMode) { route = '/*'; } else { route = '/'; }
  }
  \<close>
  where \<open>file.name\<close> is the logical name of the group.
\<close>

definition bunStaticRoute :: "string \<Rightarrow> bool \<Rightarrow> string \<Rightarrow> string" where
  "bunStaticRoute routePath spaMode name =
     (let route = collapseSlashes (routePath @ ''/'' @ name)
      in if route = ''/index.html'' then (if spaMode then ''/*'' else ''/'') else route)"

subsection \<open>Files, headers, requests and responses\<close>

text \<open>The files on disk: a path has content (its bytes) or does not exist.\<close>

type_synonym fs = "string \<rightharpoonup> string"

text \<open>\<^verbatim>\<open>Bun.file(path).size\<close>: the byte length, 0 for a file that does not exist.\<close>

definition bunFileSize :: "fs \<Rightarrow> string \<Rightarrow> nat" where
  "bunFileSize files path = (case files path of None \<Rightarrow> 0 | Some content \<Rightarrow> length content)"

text \<open>\<^verbatim>\<open>await Bun.file(path).bytes()\<close>: rejects for a file that does not exist.\<close>

definition readBytes :: "fs \<Rightarrow> string \<Rightarrow> error + string" where
  "readBytes files path =
     (case files path of None \<Rightarrow> Inl (ENOENT path) | Some content \<Rightarrow> Inr content)"

text \<open>
  A \<^verbatim>\<open>Headers\<close> object: header names are case-insensitive and kept in lower case;
  \<^verbatim>\<open>set\<close> replaces the value of a name, \<^verbatim>\<open>append\<close> adds a value to those the name
  has, which \<^verbatim>\<open>get\<close> returns joined by a comma and a space.  The same type holds
  the name and value pairs of a \<^verbatim>\<open>HeadersInit\<close>, with the names as the caller wrote them.
\<close>

type_synonym headers = "(string \<times> string) list"

definition headersSet :: "string \<Rightarrow> string \<Rightarrow> headers \<Rightarrow> headers" where
  "headersSet name v h = AList.update (toLowerCase name) v h"

definition headersAppend :: "string \<times> string \<Rightarrow> headers \<Rightarrow> headers" where
  "headersAppend = (\<lambda>(name, v) h.
     case map_of h (toLowerCase name) of
       None \<Rightarrow> h @ [(toLowerCase name, v)]
     | Some old \<Rightarrow> AList.update (toLowerCase name) (old @ '', '' @ v) h)"

definition headersGet :: "headers \<Rightarrow> string \<Rightarrow> string option" where
  "headersGet h name = map_of h (toLowerCase name)"

text \<open>
  The \<^verbatim>\<open>headers\<close> option of \<^verbatim>\<open>bunStatic\<close>: absent, a fixed set of headers, or a function
  of the file path.
  \<^verbatim>\<open>
  const userHeaders = !headersFn ? undefined
    : typeof headersFn === 'function' ? headersFn(file.path) : headersFn;
  \<close>
\<close>

datatype headersOption = NoHeaders | HeadersInit headers | HeadersFn "string \<Rightarrow> headers"

fun userHeadersFor :: "headersOption \<Rightarrow> string \<Rightarrow> headers option" where
  "userHeadersFor NoHeaders path = None"
| "userHeadersFor (HeadersInit h) path = Some h"
| "userHeadersFor (HeadersFn f) path = Some (f path)"

text \<open>
  \<^verbatim>\<open>new Headers(userHeaders)\<close>, also what \<^verbatim>\<open>new Response(body, { headers: userHeaders })\<close>
  makes of its option: empty for \<^verbatim>\<open>undefined\<close>, otherwise every pair of the init is
  appended in turn, so that the names end up in lower case.
\<close>

definition newHeaders :: "headers option \<Rightarrow> headers" where
  "newHeaders userHeaders =
     (case userHeaders of None \<Rightarrow> [] | Some init \<Rightarrow> fold headersAppend init [])"

text \<open>
  A response body is a byte buffer held in memory, or a \<^verbatim>\<open>BunFile\<close> handle whose bytes
  are read from disk when the response is sent.
\<close>

datatype body = BytesBody string | FileBody string

record response =
  headers :: headers
  body :: body

text \<open>The bytes a body sends, given the files on disk at that moment.\<close>

fun bodyBytes :: "fs \<Rightarrow> body \<Rightarrow> string option" where
  "bodyBytes files (BytesBody b) = Some b"
| "bodyBytes files (FileBody path) = files path"

text \<open>A request, as far as the handlers read it: \<^verbatim>\<open>req.headers.get('accept-encoding')\<close>.\<close>

record request =
  acceptEncoding :: "string option"

text \<open>\<^verbatim>\<open>acceptEncoding?.includes(token)\<close>\<close>

definition acceptIncludes :: "request \<Rightarrow> string \<Rightarrow> bool" where
  "acceptIncludes req token =
     (case acceptEncoding req of None \<Rightarrow> False | Some value \<Rightarrow> includes_str value token)"

datatype strategy = Ram | Disk

datatype handler = StaticResponse response | HandlerFn "request \<Rightarrow> response"

subsection \<open>The handler of a group with compressed variants\<close>

text \<open>
  The request handler of the \<^verbatim>\<open>'ram'\<close> strategy.  Each compressed sibling that exists
  comes with its \<^verbatim>\<open>Content-Length\<close> text and its pre-loaded bytes.
  \<^verbatim>\<open>
  return async (req) => {
    const acceptEncoding = req.headers.get('accept-encoding');
    if (hasBrotli && acceptEncoding?.includes('br')) {
      const headers = new Headers(userHeaders);
      headers.set('Content-Encoding', 'br');
      headers.set('Content-Type', contentType);
      headers.set('Content-Length', brotliFileContentLength!);
      return new Response(brotliFileBytes, { headers });
    }
    if (hasZstd && acceptEncoding?.includes('zstd')) { ... 'zstd' ... }
    if (hasGzip && acceptEncoding?.includes('gzip')) { ... 'gzip' ... }
    return new Response(bunFileBytes, { headers: userHeaders });
  };
  \<close>
\<close>

definition ramVariantResponse ::
  "headers option \<Rightarrow> string \<Rightarrow> string \<Rightarrow> string \<Rightarrow> string \<Rightarrow> response" where
  "ramVariantResponse userHeaders contentType encoding contentLength bytes =
     \<lparr> headers =
         headersSet ''Content-Length'' contentLength
           (headersSet ''Content-Type'' contentType
             (headersSet ''Content-Encoding'' encoding (newHeaders userHeaders))),
       body = BytesBody bytes \<rparr>"

definition ramHandler ::
  "headers option \<Rightarrow> string \<Rightarrow> (string \<times> string) option \<Rightarrow> (string \<times> string) option \<Rightarrow>
     (string \<times> string) option \<Rightarrow> string \<Rightarrow> request \<Rightarrow> response" where
  "ramHandler userHeaders contentType brotli zstd gzip bunFileBytes req =
     (case (brotli, acceptIncludes req ''br'') of
        (Some (brotliFileContentLength, brotliFileBytes), True) \<Rightarrow>
          ramVariantResponse userHeaders contentType ''br'' brotliFileContentLength brotliFileBytes
      | _ \<Rightarrow>
     (case (zstd, acceptIncludes req ''zstd'') of
        (Some (zstdFileContentLength, zstdFileBytes), True) \<Rightarrow>
          ramVariantResponse userHeaders contentType ''zstd'' zstdFileContentLength zstdFileBytes
      | _ \<Rightarrow>
     (case (gzip, acceptIncludes req ''gzip'') of
        (Some (gzipFileContentLength, gzipFileBytes), True) \<Rightarrow>
          ramVariantResponse userHeaders contentType ''gzip'' gzipFileContentLength gzipFileBytes
      | _ \<Rightarrow>
          \<lparr> headers = newHeaders userHeaders, body = BytesBody bunFileBytes \<rparr>)))"

text \<open>
  The request handler of the \<^verbatim>\<open>'disk'\<close> strategy.  Each compressed sibling that exists
  comes with its \<^verbatim>\<open>Content-Length\<close> text and its path.
  \<^verbatim>\<open>
  return (req) => {
    const acceptEncoding = req.headers.get('accept-encoding');
    if (hasBrotli && acceptEncoding?.includes('br')) {
      const headers = new Headers(userHeaders);
      headers.set('Content-Type', contentType);
      headers.set('Content-Encoding', 'br');
      headers.set('Content-Length', brotliSize!);
      return new Response(brotliBunFile, { headers });
    }
    if (hasZstd && acceptEncoding?.includes('zstd')) { ... 'zstd' ... }
    if (hasGzip && acceptEncoding?.includes('gzip')) { ... 'gzip' ... }
    const headers = new Headers(userHeaders);
    headers.set('Content-Type', contentType);
    headers.set('Content-Length', bunFileContentLength);
    return new Response(bunFile, { headers });
  };
  \<close>
\<close>

definition diskVariantResponse ::
  "headers option \<Rightarrow> string \<Rightarrow> string \<Rightarrow> string \<Rightarrow> string \<Rightarrow> response" where
  "diskVariantResponse userHeaders contentType encoding fileSize path =
     \<lparr> headers =
         headersSet ''Content-Length'' fileSize
           (headersSet ''Content-Encoding'' encoding
             (headersSet ''Content-Type'' contentType (newHeaders userHeaders))),
       body = FileBody path \<rparr>"

definition plainResponseHeaders :: "headers option \<Rightarrow> string \<Rightarrow> string \<Rightarrow> headers" where
  "plainResponseHeaders userHeaders contentType contentLength =
     headersSet ''Content-Length'' contentLength
       (headersSet ''Content-Type'' contentType (newHeaders userHeaders))"

definition diskHandler ::
  "headers option \<Rightarrow> string \<Rightarrow> (string \<times> string) option \<Rightarrow> (string \<times> string) option \<Rightarrow>
     (string \<times> string) option \<Rightarrow> string \<Rightarrow> string \<Rightarrow> request \<Rightarrow> response" where
  "diskHandler userHeaders contentType brotli zstd gzip bunFileContentLength bunFile req =
     (case (brotli, acceptIncludes req ''br'') of
        (Some (brotliSize, brotliBunFile), True) \<Rightarrow>
          diskVariantResponse userHeaders contentType ''br'' brotliSize brotliBunFile
      | _ \<Rightarrow>
     (case (zstd, acceptIncludes req ''zstd'') of
        (Some (zstdSize, zstdBunFile), True) \<Rightarrow>
          diskVariantResponse userHeaders contentType ''zstd'' zstdSize zstdBunFile
      | _ \<Rightarrow>
     (case (gzip, acceptIncludes req ''gzip'') of
        (Some (gzipSize, gzipBunFile), True) \<Rightarrow>
          diskVariantResponse userHeaders contentType ''gzip'' gzipSize gzipBunFile
      | _ \<Rightarrow>
          \<lparr> headers = plainResponseHeaders userHeaders contentType bunFileContentLength,
            body = FileBody bunFile \<rparr>)))"

subsection \<open>Building the routing table\<close>

text \<open>
  A group: the logical name, its path, and the files of the group, each with its path
  and its compression (none for the original).
\<close>

record groupedFile =
  groupName :: string
  groupPath :: string
  groupFiles :: "(string \<times> compression option) list"

text \<open>
  The grouping loop over the enumerated file names; a \<^verbatim>\<open>Map\<close> keeps its keys in
  insertion order, as the association list does.
\<close>

definition addToGroups ::
  "string \<Rightarrow> string \<Rightarrow> (string \<times> (string \<times> compression option) list) list \<Rightarrow>
     (string \<times> (string \<times> compression option) list) list" where
  "addToGroups dir name groups =
     (let existing = (case map_of groups (nameWithoutCompression name) of
                        None \<Rightarrow> [] | Some fs \<Rightarrow> fs)
      in AList.update (nameWithoutCompression name)
           (existing @ [(path_join dir name, compressionExtension name)]) groups)"

definition groupedFiles :: "string \<Rightarrow> string list \<Rightarrow> groupedFile list" where
  "groupedFiles dir names =
     map (\<lambda>(name, fs). \<lparr> groupName = name, groupPath = path_join dir name, groupFiles = fs \<rparr>)
       (fold (addToGroups dir) names [])"

text \<open>
  The sibling of a group with the given compression, with the text of its size:
  \<^verbatim>\<open>file.files.find((file) => file.compression === 'br')\<close> and
  \<^verbatim>\<open>Bun.file(brotliFile.path).size.toString()\<close>.
\<close>

definition siblingFile :: "groupedFile \<Rightarrow> compression \<Rightarrow> string option" where
  "siblingFile file c = map_option fst (find (\<lambda>f. snd f = Some c) (groupFiles file))"

text \<open>The \<^verbatim>\<open>'ram'\<close> strategy pre-loads the bytes of a sibling: a missing file rejects.\<close>

definition ramSibling :: "fs \<Rightarrow> string option \<Rightarrow> error + (string \<times> string) option" where
  "ramSibling files sibling =
     (case sibling of
        None \<Rightarrow> Inr None
      | Some path \<Rightarrow>
          bindE (readBytes files path)
            (\<lambda>bytes. Inr (Some (toString (bunFileSize files path), bytes))))"

definition diskSibling :: "fs \<Rightarrow> string option \<Rightarrow> (string \<times> string) option" where
  "diskSibling files sibling =
     map_option (\<lambda>path. (toString (bunFileSize files path), path)) sibling"

text \<open>
  The handler of one group.  \<open>mimeType\<close> is \<^verbatim>\<open>Bun.file(path).type\<close>, the runtime's
  table from file names to content types.
\<close>

definition groupHandler ::
  "(string \<Rightarrow> string) \<Rightarrow> fs \<Rightarrow> strategy \<Rightarrow> headersOption \<Rightarrow> groupedFile \<Rightarrow> error + handler" where
  "groupHandler mimeType files strat headersFn file =
     (let brotliFile = siblingFile file Br;
          gzipFile = siblingFile file Gz;
          zstdFile = siblingFile file Zst;
          hasCompressedVariants = list_ex (\<lambda>f. snd f \<noteq> None) (groupFiles file);
          bunFileContentLength = toString (bunFileSize files (groupPath file));
          userHeaders = userHeadersFor headersFn (groupPath file);
          contentType = mimeType (groupPath file)
      in if hasCompressedVariants then
           (case strat of
              Ram \<Rightarrow>
                bindE (ramSibling files brotliFile) (\<lambda>brotli.
                bindE (ramSibling files zstdFile) (\<lambda>zstd.
                bindE (ramSibling files gzipFile) (\<lambda>gzip.
                bindE (readBytes files (groupPath file)) (\<lambda>bytes.
                  Inr (HandlerFn (ramHandler userHeaders contentType brotli zstd gzip bytes))))))
            | Disk \<Rightarrow>
                Inr (HandlerFn
                  (diskHandler userHeaders contentType (diskSibling files brotliFile)
                     (diskSibling files zstdFile) (diskSibling files gzipFile)
                     bunFileContentLength (groupPath file))))
         else
           (case strat of
              Ram \<Rightarrow>
                bindE (readBytes files (groupPath file)) (\<lambda>bytes.
                  Inr (StaticResponse
                    \<lparr> headers = plainResponseHeaders userHeaders contentType bunFileContentLength,
                      body = BytesBody bytes \<rparr>))
            | Disk \<Rightarrow>
                Inr (StaticResponse
                  \<lparr> headers = plainResponseHeaders userHeaders contentType bunFileContentLength,
                    body = FileBody (groupPath file) \<rparr>)))"

text \<open>\<^verbatim>\<open>Object.fromEntries(entries)\<close>: a later entry replaces an earlier one of the same key.\<close>

definition fromEntries :: "(string \<times> 'a) list \<Rightarrow> (string \<times> 'a) list" where
  "fromEntries entries = fold (\<lambda>(k, v). AList.update k v) entries []"

text \<open>
  \<^verbatim>\<open>bunStatic(routePath, dir, { headers, strategy, spaMode })\<close>, given the names
  \<^verbatim>\<open>recursiveFilesInDir(dir)\<close> enumerates and the files on disk.
\<close>

definition bunStatic ::
  "(string \<Rightarrow> string) \<Rightarrow> fs \<Rightarrow> string list \<Rightarrow> string \<Rightarrow> string \<Rightarrow> headersOption \<Rightarrow> strategy \<Rightarrow>
     bool \<Rightarrow> error + (string \<times> handler) list" where
  "bunStatic mimeType files names routePath dir headersFn strat spaMode =
     bindE
       (promiseAll
          (map (\<lambda>file.
                 bindE (groupHandler mimeType files strat headersFn file)
                   (\<lambda>h. Inr (bunStaticRoute routePath spaMode (groupName file), h)))
             (groupedFiles dir names)))
       (\<lambda>entries. Inr (fromEntries entries))"

text \<open>Looking a route up in the table and answering a request with its handler.\<close>

definition respond :: "handler \<Rightarrow> request \<Rightarrow> response" where
  "respond h req = (case h of StaticResponse r \<Rightarrow> r | HandlerFn f \<Rightarrow> f req)"

section \<open>compressFilesInDir: the compression pipeline\<close>

text \<open>
  The output directory: its regular files, by name relative to the directory, with their
  bytes, in the order \<^verbatim>\<open>readdirSync(distDir, { recursive: true })\<close> lists them
  (\<^verbatim>\<open>resolve(distDir, file)\<close> is one-to-one on these names).  The listing's entries for
  the sub-directories themselves are left out: they matter only for a directory whose own
  name ends in one of the extensions below.  The model starts after the check that
  \<^verbatim>\<open>distDir\<close> is a directory.
\<close>

type_synonym directory = "(string \<times> string) list"

definition readdirSync :: "directory \<Rightarrow> string list" where
  "readdirSync dir = map fst dir"

text \<open>\<^verbatim>\<open>writeFileSync(path, bytes)\<close>: creates the file or replaces its content.\<close>

definition writeFileSync :: "string \<Rightarrow> string \<Rightarrow> directory \<Rightarrow> directory" where
  "writeFileSync path bytes dir = AList.update path bytes dir"

datatype algorithm = Gzip | Zstd | Brotli

fun siblingExtension :: "algorithm \<Rightarrow> string" where
  "siblingExtension Gzip = ''.gz''"
| "siblingExtension Zstd = ''.zst''"
| "siblingExtension Brotli = ''.br''"

text \<open>\<^verbatim>\<open>/\.(js|css|html|json|svg|ico)$/.test(file)\<close>\<close>

definition compressible :: "string \<Rightarrow> bool" where
  "compressible file =
     list_ex (\<lambda>ext. endsWith file (''.'' @ ext))
       [''js'', ''css'', ''html'', ''json'', ''svg'', ''ico'']"

text \<open>
  One of the three tasks of a file.  \<open>compress alg content\<close> is
  \<^verbatim>\<open>compressWithWorker(workerPath, filePath)\<close> for the worker of \<open>alg\<close> and a file with
  that content: the compressed bytes, or a rejection (the worker fails or times out).
  \<^verbatim>\<open>
  const gzipCompressed = await compressWithWorker(gzipWorkerPath, filePath);
  if (gzipCompressed.length < originalSize) {
    writeFileSync(filePath + '.gz', gzipCompressed);
  } else { /* logged as skipped */ }
  \<close>
\<close>

definition compressTask ::
  "(algorithm \<Rightarrow> string \<Rightarrow> error + string) \<Rightarrow> string \<Rightarrow> string \<Rightarrow> algorithm \<Rightarrow> directory \<Rightarrow>
     error + directory" where
  "compressTask compress file content alg dir =
     bindE (compress alg content) (\<lambda>compressed.
       Inr (if length compressed < length content
            then writeFileSync (file @ siblingExtension alg) compressed dir
            else dir))"

text \<open>
  The work on one listed file: nothing unless its name matches; otherwise the original
  size is read and the three tasks run (\<^verbatim>\<open>Promise.all\<close> over gzip, zstd, brotli).  The
  tasks write three different paths and read only the original, so their interleaving
  does not show in the result; a rejection of one rejects the whole.
\<close>

definition compressFile ::
  "(algorithm \<Rightarrow> string \<Rightarrow> error + string) \<Rightarrow> directory \<Rightarrow> string \<Rightarrow> error + directory" where
  "compressFile compress dir file =
     (if compressible file then
        (case map_of dir file of
           None \<Rightarrow> Inl (ENOENT file)
         | Some content \<Rightarrow>
             bindE (compressTask compress file content Gzip dir) (\<lambda>dir1.
             bindE (compressTask compress file content Zstd dir1) (\<lambda>dir2.
             compressTask compress file content Brotli dir2)))
      else Inr dir)"

fun compressFiles ::
  "(algorithm \<Rightarrow> string \<Rightarrow> error + string) \<Rightarrow> string list \<Rightarrow> directory \<Rightarrow> error + directory" where
  "compressFiles compress [] dir = Inr dir"
| "compressFiles compress (file # files) dir =
     bindE (compressFile compress dir file) (compressFiles compress files)"

text \<open>
  \<^verbatim>\<open>compressFilesInDir(distDir)\<close>: the directory is listed once, then every listed file
  is worked on.
\<close>

definition compressFilesInDir ::
  "(algorithm \<Rightarrow> string \<Rightarrow> error + string) \<Rightarrow> directory \<Rightarrow> error + directory" where
  "compressFilesInDir compress dir = compressFiles compress (readdirSync dir) dir"

section \<open>resolveJsDependencies: the dependency resolver\<close>

datatype jsKind = Entrypoint | Chunk

record jsAsset =
  urlPath :: string
  filePath :: string
  kind :: jsKind

text \<open>
  \<^verbatim>\<open>BundleJsByPagePathMap\<close>: a \<^verbatim>\<open>Map\<close> from page path to the page's JavaScript assets; the
  association list keeps the insertion order the \<^verbatim>\<open>Map\<close> iterates in.
\<close>

type_synonym jsByPagePathMap = "(string \<times> jsAsset list) list"

text \<open>
  \<^verbatim>\<open>new Bun.Glob('**/*.js').scan({ cwd: clientDistDir })\<close>: the files of the directory, at
  any depth, whose name ends in \<^verbatim>\<open>.js\<close>; a name with a segment that starts with a dot is
  not matched (the scan's \<^verbatim>\<open>dot\<close> option is off).  Each comes with its text.
\<close>

definition matchesJsGlob :: "string \<Rightarrow> bool" where
  "matchesJsGlob name =
     (endsWith name ''.js'' \<and> list_all (\<lambda>seg. \<not> startsWith seg ''.'') (split CHR ''/'' name))"

definition scanJs :: "directory \<Rightarrow> (string \<times> string) list" where
  "scanJs dir = filter (\<lambda>(name, content). matchesJsGlob name) dir"

text \<open>
  \<^verbatim>\<open>
  for (const file of clientJsDistFiles) {
    jsFilesByBasename.set(path.basename(file), path.join(clientDistDir, file));
  }
  \<close>
\<close>

definition jsFilesByBasename :: "string \<Rightarrow> directory \<Rightarrow> (string \<times> string) list" where
  "jsFilesByBasename clientDistDir dir =
     fold (\<lambda>(name, content). AList.update (basename name) (path_join clientDistDir name))
       (scanJs dir) []"

text \<open>
  \<^verbatim>\<open>fileContentByBasename\<close>: the same keys, each with the text of the file it stands for.
\<close>

definition fileContentByBasename :: "directory \<Rightarrow> (string \<times> string) list" where
  "fileContentByBasename dir =
     fold (\<lambda>(name, content). AList.update (basename name) content) (scanJs dir) []"

text \<open>
  Whether a file's text references another file statically.
  \<^verbatim>\<open>
  const searchPattern = path.join(publicAssetPath, otherBasename);
  const referencesFile = content.includes(searchPattern);
  const dynamicallyImportsFile =
    content.includes(`import('${searchPattern}')`) ||
    content.includes(`import("${searchPattern}")`);
  if (referencesFile && !dynamicallyImportsFile) { references.add(otherBasename); }
  \<close>
\<close>

definition searchPattern :: "string \<Rightarrow> string \<Rightarrow> string" where
  "searchPattern publicAssetPath otherBasename = path_join publicAssetPath otherBasename"

definition referencesFile :: "string \<Rightarrow> string \<Rightarrow> bool" where
  "referencesFile content pattern = includes_str content pattern"

definition dynamicallyImportsFile :: "string \<Rightarrow> string \<Rightarrow> bool" where
  "dynamicallyImportsFile content pattern =
     (includes_str content (''import('' @ [CHR 0x27] @ pattern @ [CHR 0x27] @ '')'') \<or>
      includes_str content (''import('' @ [CHR 0x22] @ pattern @ [CHR 0x22] @ '')''))"

definition staticallyReferences :: "string \<Rightarrow> string \<Rightarrow> string \<Rightarrow> bool" where
  "staticallyReferences publicAssetPath content otherBasename =
     (referencesFile content (searchPattern publicAssetPath otherBasename) \<and>
      \<not> dynamicallyImportsFile content (searchPattern publicAssetPath otherBasename))"

text \<open>
  The reference map: for every basename, the other basenames its text references
  statically, in the order of \<^verbatim>\<open>jsFilesByBasename\<close>.
\<close>

definition referenceMap :: "string \<Rightarrow> string \<Rightarrow> directory \<Rightarrow> (string \<times> string list) list" where
  "referenceMap clientDistDir publicAssetPath dir =
     map (\<lambda>(name, content).
            (name,
             filter (\<lambda>otherBasename.
                       otherBasename \<noteq> name \<and>
                       staticallyReferences publicAssetPath content otherBasename)
               (map fst (jsFilesByBasename clientDistDir dir))))
       (fileContentByBasename dir)"

text \<open>
  \<^verbatim>\<open>
  function collectDeps(basename: string) {
    const refs = referenceMap.get(basename);
    if (!refs) { return; }
    for (const ref of refs) {
      if (!allDeps.has(ref)) {
        allDeps.add(ref);
        collectDeps(ref); // Recurse to find transitive dependencies
      }
    }
  }
  \<close>
  The recursion is depth first.  The model keeps the references still to be looked at (the
  rest of the running \<^verbatim>\<open>for\<close> loop and of the loops that called it) as one list: the
  references of a newly added file are looked at before the rest, as the recursive call
  does.  \<open>allDeps\<close> is the set in insertion order.
\<close>

definition refsOf :: "(string \<times> string list) list \<Rightarrow> string \<Rightarrow> string list" where
  "refsOf refMap name = (case map_of refMap name of None \<Rightarrow> [] | Some refs \<Rightarrow> refs)"

function collectDeps :: "(string \<times> string list) list \<Rightarrow> string list \<Rightarrow> string list \<Rightarrow> string list" where
  "collectDeps refMap [] allDeps = allDeps"
| "collectDeps refMap (ref # pending) allDeps =
     (if ref \<in> set allDeps then collectDeps refMap pending allDeps
      else collectDeps refMap (refsOf refMap ref @ pending) (allDeps @ [ref]))"
  by pat_completeness auto
termination
proof (relation "measures [\<lambda>(refMap, pending, allDeps). card (fst ` set refMap - set allDeps),
                           \<lambda>(refMap, pending, allDeps). length pending]")
  show "wf (measures [\<lambda>(refMap, pending, allDeps). card (fst ` set refMap - set allDeps),
                       \<lambda>(refMap, pending, allDeps). length pending])"
    by simp
next
  fix refMap :: "(string \<times> string list) list" and ref :: string
    and pending allDeps :: "string list"
  assume "ref \<in> set allDeps"
  then show "((refMap, pending, allDeps), (refMap, ref # pending, allDeps))
             \<in> measures [\<lambda>(refMap, pending, allDeps). card (fst ` set refMap - set allDeps),
                          \<lambda>(refMap, pending, allDeps). length pending]"
    by simp
next
  fix refMap :: "(string \<times> string list) list" and ref :: string
    and pending allDeps :: "string list"
  assume new: "ref \<notin> set allDeps"
  show "((refMap, refsOf refMap ref @ pending, allDeps @ [ref]), (refMap, ref # pending, allDeps))
        \<in> measures [\<lambda>(refMap, pending, allDeps). card (fst ` set refMap - set allDeps),
                     \<lambda>(refMap, pending, allDeps). length pending]"
  proof (cases "ref \<in> fst ` set refMap")
    case True
    have "fst ` set refMap - set (allDeps @ [ref]) \<subset> fst ` set refMap - set allDeps"
      using True new by auto
    then have "card (fst ` set refMap - set (allDeps @ [ref])) < card (fst ` set refMap - set allDeps)"
      by (intro psubset_card_mono) simp_all
    then show ?thesis by simp
  next
    case False
    then have "map_of refMap ref = None"
      by (simp add: map_of_eq_None_iff)
    moreover from False have "fst ` set refMap - set (allDeps @ [ref]) = fst ` set refMap - set allDeps"
      by auto
    ultimately show ?thesis by (simp add: refsOf_def)
  qed
qed

text \<open>
  \<^verbatim>\<open>
  for (const depBasename of allDeps) {
    const depUrlPath = publicAssetPath + depBasename;
    const depFilePath = jsFilesByBasename.get(depBasename);
    if (depFilePath) {
      if (!jsFiles.some((f) => f.urlPath === depUrlPath)) {
        jsFiles.push({ urlPath: depUrlPath, filePath: depFilePath, kind: 'chunk' });
      }
    }
  }
  \<close>
\<close>

definition addDep :: "string \<Rightarrow> (string \<times> string) list \<Rightarrow> string \<Rightarrow> jsAsset list \<Rightarrow> jsAsset list" where
  "addDep publicAssetPath byBasename depBasename jsFiles =
     (case map_of byBasename depBasename of
        None \<Rightarrow> jsFiles
      | Some depFilePath \<Rightarrow>
          if depFilePath \<noteq> [] \<and> \<not> list_ex (\<lambda>f. urlPath f = publicAssetPath @ depBasename) jsFiles
          then jsFiles @ [\<lparr> urlPath = publicAssetPath @ depBasename, filePath = depFilePath,
                           kind = Chunk \<rparr>]
          else jsFiles)"

text \<open>
  The work on one page: without an entrypoint the page is left alone; otherwise the
  dependencies are collected from the entrypoint's basename and added.
\<close>

definition resolvePage ::
  "string \<Rightarrow> (string \<times> string) list \<Rightarrow> (string \<times> string list) list \<Rightarrow> jsAsset list \<Rightarrow> jsAsset list" where
  "resolvePage publicAssetPath byBasename refMap jsFiles =
     (case find (\<lambda>f. kind f = Entrypoint) jsFiles of
        None \<Rightarrow> jsFiles
      | Some entrypoint \<Rightarrow>
          fold (addDep publicAssetPath byBasename)
            (collectDeps refMap (refsOf refMap (basename (urlPath entrypoint))) [])
            jsFiles)"

text \<open>
  \<^verbatim>\<open>resolveJsDependencies({ clientDistDir, publicAssetPath, jsByPagePath })\<close>, given the
  files of \<^verbatim>\<open>clientDistDir\<close>.
\<close>

definition resolveJsDependencies ::
  "string \<Rightarrow> directory \<Rightarrow> string \<Rightarrow> jsByPagePathMap \<Rightarrow> jsByPagePathMap" where
  "resolveJsDependencies clientDistDir dir publicAssetPath jsByPagePath =
     map (\<lambda>(pagePath, jsFiles).
            (pagePath,
             resolvePage publicAssetPath (jsFilesByBasename clientDistDir dir)
               (referenceMap clientDistDir publicAssetPath dir) jsFiles))
       jsByPagePath"

section \<open>fixDuplicateExports: the export deduplicator\<close>

subsection \<open>Export statements of a file\<close>

text \<open>
  \<^verbatim>\<open>const [imports, exports] = parse(originalCode)\<close> is the lexer of the
  \<^verbatim>\<open>es-module-lexer\<close> package, which is not part of the repository: the models below take
  it as a parameter.  Of each export the code reads the name \<^verbatim>\<open>exp.n\<close> (possibly
  undefined) and the position \<^verbatim>\<open>exp.s\<close> where the name starts.
\<close>

record exportSpecifier =
  exportName :: "string option"
  exportStart :: nat

text \<open>
  \<^verbatim>\<open>type ExportStatement = { start: number; end: number; names: string[] }\<close>
\<close>

record exportStatement =
  stmtStart :: nat
  stmtEnd :: nat
  stmtNames :: "string list"

text \<open>
  The characters \<^verbatim>\<open>/\s/\<close> matches and \<^verbatim>\<open>trim()\<close> removes, among the 8-bit characters: tab,
  line feed, vertical tab, form feed, carriage return, space, no-break space.
\<close>

definition isWhitespace :: "char \<Rightarrow> bool" where
  "isWhitespace c = ((of_char c :: nat) \<in> set [9, 10, 11, 12, 13, 32, 160])"

text \<open>
  \<^verbatim>\<open>
  for (let i = searchStart + 6; i < exportNameStart; i++) {
    if (originalCode[i] === '{') { openBracePos = i; break; }
  }
  \<close>
\<close>

definition findOpenBrace :: "string \<Rightarrow> nat \<Rightarrow> nat \<Rightarrow> nat option" where
  "findOpenBrace originalCode first limit =
     find (\<lambda>i. i < length originalCode \<and> originalCode ! i = CHR ''{'') [first..<limit]"

text \<open>
  The search backwards for the \<^verbatim>\<open>export\<close> keyword; the third argument is
  \<^verbatim>\<open>searchStart\<close> before the decrement.
  \<^verbatim>\<open>
  while (searchStart > 0) {
    searchStart--;
    if (originalCode.slice(searchStart, searchStart + 6) === 'export' &&
        (searchStart === 0 || /\s/.test(originalCode[searchStart - 1]))) {
      exportKeywordPos = searchStart;
      ... the loop above ...
      if (openBracePos !== -1) break;
    }
  }
  if (exportKeywordPos === -1 || openBracePos === -1) continue;
  \<close>
\<close>

fun findExportKeyword :: "string \<Rightarrow> nat \<Rightarrow> nat \<Rightarrow> (nat \<times> nat) option" where
  "findExportKeyword originalCode exportNameStart 0 = None"
| "findExportKeyword originalCode exportNameStart (Suc searchStart) =
     (if slice originalCode searchStart (searchStart + 6) = ''export'' \<and>
         (searchStart = 0 \<or> isWhitespace (originalCode ! (searchStart - 1)))
      then (case findOpenBrace originalCode (searchStart + 6) exportNameStart of
              Some openBracePos \<Rightarrow> Some (searchStart, openBracePos)
            | None \<Rightarrow> findExportKeyword originalCode exportNameStart searchStart)
      else findExportKeyword originalCode exportNameStart searchStart)"

text \<open>
  The search forwards for the closing brace, over the text from the opening brace on;
  \<open>i\<close> is the position of the first character of that text.
  \<^verbatim>\<open>
  for (let i = openBracePos; i < originalCode.length; i++) {
    if (originalCode[i] === '{') braceDepth++;
    else if (originalCode[i] === '}') {
      braceDepth--;
      if (braceDepth === 0) { closeBracePos = i; break; }
    }
  }
  if (closeBracePos === -1) continue;
  \<close>
\<close>

fun findCloseBrace :: "string \<Rightarrow> nat \<Rightarrow> int \<Rightarrow> nat option" where
  "findCloseBrace [] i braceDepth = None"
| "findCloseBrace (c # cs) i braceDepth =
     (if c = CHR ''{'' then findCloseBrace cs (i + 1) (braceDepth + 1)
      else if c = CHR ''}'' then
        (if braceDepth - 1 = 0 then Some i else findCloseBrace cs (i + 1) (braceDepth - 1))
      else findCloseBrace cs (i + 1) braceDepth)"

text \<open>
  \<^verbatim>\<open>
  const existing = exportStatements.find(
    (stmt) => stmt.start === exportKeywordPos && stmt.end === statementEnd);
  if (existing) {
    if (!existing.names.includes(exp.n)) { existing.names.push(exp.n); }
  } else {
    exportStatements.push({ start: exportKeywordPos, end: statementEnd, names: [exp.n] });
  }
  \<close>
  \<open>addToExisting\<close> is the first branch: nothing when no statement has these bounds.
\<close>

fun addToExisting :: "nat \<Rightarrow> nat \<Rightarrow> string \<Rightarrow> exportStatement list \<Rightarrow> exportStatement list option" where
  "addToExisting exportKeywordPos statementEnd name [] = None"
| "addToExisting exportKeywordPos statementEnd name (stmt # stmts) =
     (if stmtStart stmt = exportKeywordPos \<and> stmtEnd stmt = statementEnd
      then Some ((if name \<in> set (stmtNames stmt) then stmt
                  else stmt \<lparr> stmtNames := stmtNames stmt @ [name] \<rparr>) # stmts)
      else map_option ((#) stmt) (addToExisting exportKeywordPos statementEnd name stmts))"

text \<open>One round of the loop over \<^verbatim>\<open>exports\<close>.\<close>

definition addExport :: "string \<Rightarrow> exportSpecifier \<Rightarrow> exportStatement list \<Rightarrow> exportStatement list" where
  "addExport originalCode export stmts =
     (case exportName export of
        None \<Rightarrow> stmts
      | Some name \<Rightarrow>
          if name = [] then stmts
          else
            (case findExportKeyword originalCode (exportStart export) (exportStart export) of
               None \<Rightarrow> stmts
             | Some (exportKeywordPos, openBracePos) \<Rightarrow>
                 (case findCloseBrace (drop openBracePos originalCode) openBracePos 0 of
                    None \<Rightarrow> stmts
                  | Some closeBracePos \<Rightarrow>
                      (case addToExisting exportKeywordPos (closeBracePos + 1) name stmts of
                         Some stmts' \<Rightarrow> stmts'
                       | None \<Rightarrow>
                           stmts @ [\<lparr> stmtStart = exportKeywordPos, stmtEnd = closeBracePos + 1,
                                     stmtNames = [name] \<rparr>]))))"

text \<open>
  The statements of a file, sorted by position:
  \<^verbatim>\<open>exportStatements.sort((a, b) => a.start - b.start)\<close> (a stable sort).
\<close>

definition exportStatements :: "string \<Rightarrow> exportSpecifier list \<Rightarrow> exportStatement list" where
  "exportStatements originalCode exports =
     sort_key stmtStart (fold (addExport originalCode) exports [])"

subsection \<open>What to fix\<close>

text \<open>
  How far \<^verbatim>\<open>removalEnd\<close> moves over the text that follows a statement: semicolons,
  spaces and tabs, and one line break.
  \<^verbatim>\<open>
  while (removalEnd < originalCode.length) {
    const char = originalCode[removalEnd];
    if (char === ';') { removalEnd++; }
    else if (char === '\n' || char === '\r') {
      removalEnd++;
      if (char === '\r' && removalEnd < originalCode.length &&
          originalCode[removalEnd] === '\n') { removalEnd++; }
      break;
    } else if (char === ' ' || char === '\t') { removalEnd++; }
    else { break; }
  }
  \<close>
\<close>

fun trailingLength :: "string \<Rightarrow> nat" where
  "trailingLength [] = 0"
| "trailingLength (c # cs) =
     (if c = CHR '';'' then 1 + trailingLength cs
      else if c = CHR 0x0A \<or> c = CHR 0x0D then
        (if c = CHR 0x0D \<and> cs \<noteq> [] \<and> hd cs = CHR 0x0A then 2 else 1)
      else if c = CHR '' '' \<or> c = CHR 0x09 then 1 + trailingLength cs
      else 0)"

definition removalEnd :: "string \<Rightarrow> exportStatement \<Rightarrow> nat" where
  "removalEnd originalCode stmt =
     stmtEnd stmt + trailingLength (drop (stmtEnd stmt) originalCode)"

text \<open>
  One round of the walk over the sorted statements.  The state is the set \<^verbatim>\<open>seen\<close>, the
  list \<^verbatim>\<open>statementsToRemove\<close> and the map \<^verbatim>\<open>namesToRemoveFromStatements\<close> (in insertion
  order).
  \<^verbatim>\<open>
  const duplicateNames = stmt.names.filter((name) => seen.has(name));
  const newNames = stmt.names.filter((name) => !seen.has(name));
  if (duplicateNames.length > 0) {
    if (newNames.length === 0) {
      ... statementsToRemove.push({ start: stmt.start, end: removalEnd });
    } else {
      namesToRemoveFromStatements.set(stmt, new Set(duplicateNames));
      newNames.forEach((name) => seen.add(name));
    }
  } else {
    stmt.names.forEach((name) => seen.add(name));
  }
  \<close>
\<close>

type_synonym fixPlan =
  "string list \<times> (nat \<times> nat) list \<times> (exportStatement \<times> string list) list"

definition planStatement :: "string \<Rightarrow> exportStatement \<Rightarrow> fixPlan \<Rightarrow> fixPlan" where
  "planStatement originalCode stmt =
     (\<lambda>(seen, statementsToRemove, namesToRemoveFromStatements).
        let duplicateNames = filter (\<lambda>name. name \<in> set seen) (stmtNames stmt);
            newNames = filter (\<lambda>name. name \<notin> set seen) (stmtNames stmt)
        in if duplicateNames \<noteq> [] then
             (if newNames = [] then
                (seen,
                 statementsToRemove @ [(stmtStart stmt, removalEnd originalCode stmt)],
                 namesToRemoveFromStatements)
              else
                (seen @ newNames, statementsToRemove,
                 namesToRemoveFromStatements @ [(stmt, duplicateNames)]))
           else (seen @ stmtNames stmt, statementsToRemove, namesToRemoveFromStatements))"

subsection \<open>Rewriting the text\<close>

text \<open>\<^verbatim>\<open>s.trim()\<close>, \<^verbatim>\<open>s.indexOf(c)\<close> and \<^verbatim>\<open>s.lastIndexOf(c)\<close> for a character \<open>c\<close>.\<close>

definition trim :: "string \<Rightarrow> string" where
  "trim s = rev (dropWhile isWhitespace (rev (dropWhile isWhitespace s)))"

definition indexOf :: "string \<Rightarrow> char \<Rightarrow> nat option" where
  "indexOf s c = (if c \<in> set s then Some (length (takeWhile (\<lambda>x. x \<noteq> c) s)) else None)"

definition lastIndexOf :: "string \<Rightarrow> char \<Rightarrow> nat option" where
  "lastIndexOf s c =
     (if c \<in> set s then Some (length s - 1 - length (takeWhile (\<lambda>x. x \<noteq> c) (rev s))) else None)"

text \<open>
  The edit of a statement that keeps some of its names: the text between the braces is
  split at commas, the pieces are trimmed, the empty ones dropped, and those not in
  \<^verbatim>\<open>namesToRemove\<close> are kept.  With nothing to keep there is no edit.
  \<^verbatim>\<open>
  const newNames = namesToKeep.map((p) => p.name).join(', ');
  const newContent = `export { ${newNames} }`;
  edits.push({ start: stmt.start, end: stmt.end, replacement: newContent });
  \<close>
\<close>

definition editFor :: "string \<Rightarrow> exportStatement \<times> string list \<Rightarrow> (nat \<times> nat \<times> string) option" where
  "editFor originalCode =
     (\<lambda>(stmt, namesToRemove).
        let stmtText = slice originalCode (stmtStart stmt) (stmtEnd stmt)
        in case (indexOf stmtText CHR ''{'', lastIndexOf stmtText CHR ''}'') of
             (Some openBracePos, Some closeBracePos) \<Rightarrow>
               (let contentStart = stmtStart stmt + openBracePos + 1;
                    contentEnd = stmtStart stmt + closeBracePos;
                    content = slice originalCode contentStart contentEnd;
                    parts = filter (\<lambda>name. name \<noteq> []) (map trim (split CHR '','' content));
                    namesToKeep = filter (\<lambda>name. name \<notin> set namesToRemove) parts
                in if namesToKeep \<noteq> []
                   then Some (stmtStart stmt, stmtEnd stmt,
                              ''export { '' @ join '', '' namesToKeep @ '' }'')
                   else None)
           | _ \<Rightarrow> None)"

text \<open>
  \<^verbatim>\<open>result = result.slice(0, edit.start) + edit.replacement + result.slice(edit.end)\<close> and
  \<^verbatim>\<open>result = result.slice(0, start) + result.slice(end)\<close>
\<close>

definition applyEdit :: "nat \<times> nat \<times> string \<Rightarrow> string \<Rightarrow> string" where
  "applyEdit = (\<lambda>(startPos, endPos, replacement) result.
     slice result 0 startPos @ replacement @ drop endPos result)"

definition applyRemoval :: "nat \<times> nat \<Rightarrow> string \<Rightarrow> string" where
  "applyRemoval = (\<lambda>(startPos, endPos) result. slice result 0 startPos @ drop endPos result)"

text \<open>
  The text part of \<^verbatim>\<open>fixDuplicateExportsInFile\<close>: nothing when there is nothing to fix
  (the function returns \<^verbatim>\<open>false\<close> and writes nothing), otherwise the new text.  The
  name-level edits are applied first, last edit first, then the removals, last removal
  first, both at the positions computed on the original text.
\<close>

definition fixDuplicateExports :: "string \<Rightarrow> exportSpecifier list \<Rightarrow> string option" where
  "fixDuplicateExports originalCode exports =
     (case fold (planStatement originalCode) (exportStatements originalCode exports) ([], [], []) of
        (seen, statementsToRemove, namesToRemoveFromStatements) \<Rightarrow>
          if statementsToRemove = [] \<and> namesToRemoveFromStatements = [] then None
          else
            Some (fold applyRemoval (rev statementsToRemove)
                    (fold applyEdit
                       (rev (List.map_filter (editFor originalCode) namesToRemoveFromStatements))
                       originalCode)))"

subsection \<open>Files and the directory\<close>

text \<open>
  \<^verbatim>\<open>fixDuplicateExportsInFile(filePath)\<close> for the file \<open>file\<close> of the directory at
  \<open>dirPath\<close>: reading the text, the lexer and the write can each throw.  \<open>canWrite\<close> tells
  whether \<^verbatim>\<open>Bun.write\<close> to a path succeeds.
\<close>

definition fixDuplicateExportsInFile ::
  "(string \<Rightarrow> error + exportSpecifier list) \<Rightarrow> (string \<Rightarrow> bool) \<Rightarrow> string \<Rightarrow> directory \<Rightarrow> string \<Rightarrow>
     error + bool \<times> directory" where
  "fixDuplicateExportsInFile parse canWrite dirPath dir file =
     (case map_of dir file of
        None \<Rightarrow> Inl (ENOENT (path_join dirPath file))
      | Some originalCode \<Rightarrow>
          bindE (parse originalCode) (\<lambda>exports.
            case fixDuplicateExports originalCode exports of
              None \<Rightarrow> Inr (False, dir)
            | Some result \<Rightarrow>
                if canWrite (path_join dirPath file)
                then Inr (True, writeFileSync file result dir)
                else Inl (WriteFailed (path_join dirPath file))))"

record fileResult =
  resultFilePath :: string
  wasFixed :: bool
  resultError :: "error option"

text \<open>
  The callback of the batch, which catches what fixing the file throws:
  \<^verbatim>\<open>
  async (filePath) => {
    try {
      const wasFixed = await fixDuplicateExportsInFile(filePath);
      return { filePath, wasFixed, error: null };
    } catch (error) {
      return { filePath, wasFixed: false, error };
    }
  }
  \<close>
\<close>

definition fixFileCatching ::
  "(string \<Rightarrow> error + exportSpecifier list) \<Rightarrow> (string \<Rightarrow> bool) \<Rightarrow> string \<Rightarrow> directory \<Rightarrow> string \<Rightarrow>
     (error + fileResult) \<times> directory" where
  "fixFileCatching parse canWrite dirPath dir file =
     (case fixDuplicateExportsInFile parse canWrite dirPath dir file of
        Inr (fixed, dir') \<Rightarrow>
          (Inr \<lparr> resultFilePath = path_join dirPath file, wasFixed = fixed, resultError = None \<rparr>,
           dir')
      | Inl e \<Rightarrow>
          (Inr \<lparr> resultFilePath = path_join dirPath file, wasFixed = False,
                 resultError = Some e \<rparr>,
           dir))"

text \<open>
  The callbacks of all the files.  Each reads and writes its own file only, so running
  them one after the other gives what their interleaving gives.
\<close>

fun fixFiles ::
  "(string \<Rightarrow> error + exportSpecifier list) \<Rightarrow> (string \<Rightarrow> bool) \<Rightarrow> string \<Rightarrow> string list \<Rightarrow>
     directory \<Rightarrow> (error + fileResult) list \<times> directory" where
  "fixFiles parse canWrite dirPath [] dir = ([], dir)"
| "fixFiles parse canWrite dirPath (file # files) dir =
     (case fixFileCatching parse canWrite dirPath dir file of
        (outcome, dir1) \<Rightarrow>
          (case fixFiles parse canWrite dirPath files dir1 of
             (outcomes, dir2) \<Rightarrow> (outcome # outcomes, dir2)))"

text \<open>
  What the function reports: nothing but \<^verbatim>\<open>No .js files found\<close> for an empty scan,
  otherwise the results, from which the counts of files fixed and of errors are printed.
\<close>

datatype report = NoJsFiles | Report "fileResult list"

fun filesFixed :: "report \<Rightarrow> nat" where
  "filesFixed NoJsFiles = 0"
| "filesFixed (Report results) = length (filter wasFixed results)"

fun errorCount :: "report \<Rightarrow> nat" where
  "errorCount NoJsFiles = 0"
| "errorCount (Report results) = length (filter (\<lambda>r. resultError r \<noteq> None) results)"

text \<open>
  \<^verbatim>\<open>fixDuplicateExportsInDirectory(dir)\<close>, given the files of the directory:
  \<^verbatim>\<open>getAllJsFiles\<close> scans for \<^verbatim>\<open>**/*.js\<close>, the batch awaits
  \<^verbatim>\<open>Promise.all(jsFiles.map(...))\<close>.
\<close>

definition fixDuplicateExportsInDirectory ::
  "(string \<Rightarrow> error + exportSpecifier list) \<Rightarrow> (string \<Rightarrow> bool) \<Rightarrow> string \<Rightarrow> directory \<Rightarrow>
     error + report \<times> directory" where
  "fixDuplicateExportsInDirectory parse canWrite dirPath dir =
     (let jsFiles = map fst (scanJs dir)
      in if jsFiles = [] then Inr (NoJsFiles, dir)
         else
           (case fixFiles parse canWrite dirPath jsFiles dir of
              (outcomes, dir') \<Rightarrow>
                bindE (promiseAll outcomes) (\<lambda>results. Inr (Report results, dir'))))"

text \<open>
  The entry the batch records for a file, computed from fixing that file on its own.
\<close>

definition fileEntry ::
  "(string \<Rightarrow> error + exportSpecifier list) \<Rightarrow> (string \<Rightarrow> bool) \<Rightarrow> string \<Rightarrow> directory \<Rightarrow> string \<Rightarrow> fileResult" where
  "fileEntry parse canWrite dirPath dir file =
     (case fixDuplicateExportsInFile parse canWrite dirPath dir file of
        Inr (fixed, dir') \<Rightarrow>
          \<lparr> resultFilePath = path_join dirPath file, wasFixed = fixed, resultError = None \<rparr>
      | Inl e \<Rightarrow>
          \<lparr> resultFilePath = path_join dirPath file, wasFixed = False, resultError = Some e \<rparr>)"

text \<open>
  The text a scanned file holds after the batch, computed from its text before: what
  \<^verbatim>\<open>Bun.write(filePath, result)\<close> wrote when the lexer accepted the file, there was
  something to fix and the write succeeded, and the old text otherwise.
\<close>

definition fileText ::
  "(string \<Rightarrow> error + exportSpecifier list) \<Rightarrow> (string \<Rightarrow> bool) \<Rightarrow> string \<Rightarrow> string \<Rightarrow> string \<Rightarrow> string" where
  "fileText parse canWrite dirPath file originalCode =
     (case parse originalCode of
        Inl e \<Rightarrow> originalCode
      | Inr exports \<Rightarrow>
          (case fixDuplicateExports originalCode exports of
             None \<Rightarrow> originalCode
           | Some result \<Rightarrow> if canWrite (path_join dirPath file) then result else originalCode))"

section \<open>ssrBundle: the bundle orchestrator\<close>

text \<open>
  \<^verbatim>\<open>type BunSsrRouteConfig = { path; SsrComponent; hydrateModulePath }\<close>.  Of the component
  the code asks whether it is there and whether it is a function; a function component
  renders the page from the CSS and JavaScript URL lists, or throws.
\<close>

datatype ssrComponent =
    ComponentUndefined
  | ComponentNotFunction
  | ComponentFunction "string list \<Rightarrow> string list \<Rightarrow> error + string"

record bunSsrRouteConfig =
  configPath :: string
  ssrComponent :: ssrComponent
  hydrateModulePath :: string

text \<open>
  What \<^verbatim>\<open>Bun.build\<close> returns, as far as the code reads it: whether the build succeeded
  and, of every output, its path, kind, hash (possibly \<^verbatim>\<open>null\<close>) and content.  The bundler
  is not part of the repository; its result is an input of the model.
\<close>

datatype outputKind = EntryPointOutput | ChunkOutput | AssetOutput | SourcemapOutput | BytecodeOutput

record buildArtifact =
  outputPath :: string
  outputKind :: outputKind
  outputHash :: "string option"
  outputContent :: string

record buildResult =
  buildSuccess :: bool
  buildOutputs :: "buildArtifact list"

text \<open>The hash inside a template literal: \<^verbatim>\<open>`${output.hash}`\<close>.\<close>

definition hashText :: "string option \<Rightarrow> string" where
  "hashText h = (case h of None \<Rightarrow> ''null'' | Some t \<Rightarrow> t)"

record cssAsset =
  cssUrlPath :: string
  cssFilePath :: string

type_synonym cssByPagePathMap = "(string \<times> cssAsset list) list"

definition PUBLIC_ASSET_PATH :: string where
  "PUBLIC_ASSET_PATH = ''/dist/client/''"

definition SSR_MANIFEST_FILENAME :: string where
  "SSR_MANIFEST_FILENAME = ''manifest.bun-ssr.json''"

definition SSR_MANIFEST_VERSION :: nat where
  "SSR_MANIFEST_VERSION = 1"

text \<open>
  \<^verbatim>\<open>
  const expectedName = path.parse(path.basename(output.path)).name;
  const basenameWithoutHash = expectedName.replace(`-${output.hash}`, '');
  const pageForBasename = routes.find((page) =>
    path.parse(path.basename(page.hydrateModulePath)).name === basenameWithoutHash);
  \<close>
\<close>

definition basenameWithoutHash :: "buildArtifact \<Rightarrow> string" where
  "basenameWithoutHash output =
     replaceFirst (parseName (basename (outputPath output)))
       (''-'' @ hashText (outputHash output)) []"

definition pageForBasename :: "bunSsrRouteConfig list \<Rightarrow> buildArtifact \<Rightarrow> bunSsrRouteConfig option" where
  "pageForBasename routes output =
     find (\<lambda>page. parseName (basename (hydrateModulePath page)) = basenameWithoutHash output) routes"

text \<open>
  One round of the loop over the outputs; the state is the two maps and the files of the
  client directory.  An entry point without a page throws.  A CSS output is copied to
  \<^verbatim>\<open><hash>.css\<close> and, when a page matches, appended to the page's CSS list.
\<close>

definition processOutput ::
  "bunSsrRouteConfig list \<Rightarrow> buildArtifact \<Rightarrow> jsByPagePathMap \<times> cssByPagePathMap \<times> directory \<Rightarrow>
     error + jsByPagePathMap \<times> cssByPagePathMap \<times> directory" where
  "processOutput routes output =
     (\<lambda>(jsByPagePath, cssByPagePath, dir).
        bindE
          (if outputKind output = EntryPointOutput then
             (case pageForBasename routes output of
                None \<Rightarrow> Inl (PageForBasenameNotFound (basenameWithoutHash output))
              | Some page \<Rightarrow>
                  Inr (AList.update (configPath page)
                         [\<lparr> urlPath = PUBLIC_ASSET_PATH @ basename (outputPath output),
                            filePath = outputPath output, kind = Entrypoint \<rparr>]
                         jsByPagePath))
           else Inr jsByPagePath)
          (\<lambda>jsByPagePath'.
             Inr (if endsWith (outputPath output) ''.css'' then
                    (let newFilename = hashText (outputHash output) @ ''.css'';
                         dir' = writeFileSync newFilename (outputContent output) dir
                     in case pageForBasename routes output of
                          None \<Rightarrow> (jsByPagePath', cssByPagePath, dir')
                        | Some page \<Rightarrow>
                            (jsByPagePath',
                             AList.update (configPath page)
                               ((case map_of cssByPagePath (configPath page) of
                                   None \<Rightarrow> [] | Some arr \<Rightarrow> arr)
                                @ [\<lparr> cssUrlPath = PUBLIC_ASSET_PATH @ newFilename,
                                      cssFilePath = outputPath output \<rparr>])
                               cssByPagePath,
                             dir'))
                  else (jsByPagePath', cssByPagePath, dir))))"

fun processOutputs ::
  "bunSsrRouteConfig list \<Rightarrow> buildArtifact list \<Rightarrow> jsByPagePathMap \<times> cssByPagePathMap \<times> directory \<Rightarrow>
     error + jsByPagePathMap \<times> cssByPagePathMap \<times> directory" where
  "processOutputs routes [] state = Inr state"
| "processOutputs routes (output # outputs) state =
     bindE (processOutput routes output state) (processOutputs routes outputs)"

text \<open>
  The common-styles fallback: with exactly one CSS output, every page without CSS files
  gets it.
  \<^verbatim>\<open>
  if (availableCssFiles.length === 1) {
    const cssFile = availableCssFiles[0]!;
    routes.forEach((page) => {
      const cssFilesForPage = bundleOutputs.cssByPagePath.get(page.path);
      if (cssFilesForPage && cssFilesForPage.length > 0) return;
      bundleOutputs.cssByPagePath.set(page.path, [{ urlPath, filePath }]);
    });
  }
  \<close>
\<close>

definition cssFallback ::
  "bunSsrRouteConfig list \<Rightarrow> buildArtifact list \<Rightarrow> cssByPagePathMap \<Rightarrow> cssByPagePathMap" where
  "cssFallback routes outputs cssByPagePath =
     (case filter (\<lambda>it. endsWith (outputPath it) ''.css'') outputs of
        [cssFile] \<Rightarrow>
          fold (\<lambda>page css.
                  case map_of css (configPath page) of
                    Some (c # cs) \<Rightarrow> css
                  | _ \<Rightarrow>
                      AList.update (configPath page)
                        [\<lparr> cssUrlPath = PUBLIC_ASSET_PATH @ hashText (outputHash cssFile) @ ''.css'',
                           cssFilePath = outputPath cssFile \<rparr>]
                        css)
            routes cssByPagePath
      | _ \<Rightarrow> cssByPagePath)"

text \<open>
  \<^verbatim>\<open>bundleClient()\<close>: the build must have succeeded; duplicate exports are fixed in the
  client directory; the outputs are processed into the two maps, which start empty; the
  JavaScript dependencies are resolved; the CSS fallback is applied.  \<open>dir\<close> holds the files
  of the client directory as the bundler left them.
\<close>

definition bundleClient ::
  "(string \<Rightarrow> error + exportSpecifier list) \<Rightarrow> (string \<Rightarrow> bool) \<Rightarrow> string \<Rightarrow>
     bunSsrRouteConfig list \<Rightarrow> buildResult \<Rightarrow> directory \<Rightarrow>
     error + jsByPagePathMap \<times> cssByPagePathMap \<times> directory" where
  "bundleClient parse canWrite clientDistDir routes result dir =
     (if \<not> buildSuccess result then Inl ClientBundleFailed
      else
        bindE (fixDuplicateExportsInDirectory parse canWrite clientDistDir dir) (\<lambda>(report, dir1).
        bindE (processOutputs routes (buildOutputs result) ([], [], dir1))
          (\<lambda>(jsByPagePath, cssByPagePath, dir2).
             Inr (resolveJsDependencies clientDistDir dir2 PUBLIC_ASSET_PATH jsByPagePath,
                  cssFallback routes (buildOutputs result) cssByPagePath,
                  dir2))))"

text \<open>
  The manifest.
  \<^verbatim>\<open>
  { version: SSR_MANIFEST_VERSION, publicAssetPath: PUBLIC_ASSET_PATH,
    routes: routes.map((page) => { ... }) }
  \<close>
\<close>

record ssrBundleManifestRoute =
  routeEntryPath :: string
  routeJs :: "string list"
  routeCss :: "string list"

record ssrBundleManifest =
  manifestVersion :: nat
  manifestPublicAssetPath :: string
  manifestRoutes :: "ssrBundleManifestRoute list"

text \<open>\<^verbatim>\<open>xs.map(f)\<close> for a callback that may throw: the first throw ends the map.\<close>

definition mapThrowing :: "('a \<Rightarrow> error + 'b) \<Rightarrow> 'a list \<Rightarrow> error + 'b list" where
  "mapThrowing f xs = promiseAll (map f xs)"

text \<open>
  \<^verbatim>\<open>
  const pageJsPaths = bundleOutputs.jsByPagePath.get(page.path);
  if (!pageJsPaths) { throw new Error(`Entrypoint path for path ${page.path} not found`); }
  const pageCssPaths = bundleOutputs.cssByPagePath.get(page.path);
  if (!pageCssPaths) { throw new Error(`CSS paths for path ${page.path} not found`); }
  return { path: page.path,
           assets: { js: pageJsPaths.map((jsPath) => jsPath.urlPath),
                     css: pageCssPaths.map((cssPath) => cssPath.urlPath) } };
  \<close>
\<close>

definition manifestRouteFor ::
  "jsByPagePathMap \<Rightarrow> cssByPagePathMap \<Rightarrow> bunSsrRouteConfig \<Rightarrow> error + ssrBundleManifestRoute" where
  "manifestRouteFor jsByPagePath cssByPagePath page =
     (case map_of jsByPagePath (configPath page) of
        None \<Rightarrow> Inl (EntrypointPathNotFound (configPath page))
      | Some pageJsPaths \<Rightarrow>
          (case map_of cssByPagePath (configPath page) of
             None \<Rightarrow> Inl (CssPathsNotFound (configPath page))
           | Some pageCssPaths \<Rightarrow>
               Inr \<lparr> routeEntryPath = configPath page,
                     routeJs = map urlPath pageJsPaths,
                     routeCss = map cssUrlPath pageCssPaths \<rparr>))"

definition buildManifest ::
  "bunSsrRouteConfig list \<Rightarrow> jsByPagePathMap \<Rightarrow> cssByPagePathMap \<Rightarrow> error + ssrBundleManifest" where
  "buildManifest routes jsByPagePath cssByPagePath =
     bindE (mapThrowing (manifestRouteFor jsByPagePath cssByPagePath) routes) (\<lambda>manifestRoutes.
       Inr \<lparr> manifestVersion = SSR_MANIFEST_VERSION,
             manifestPublicAssetPath = PUBLIC_ASSET_PATH,
             manifestRoutes = manifestRoutes \<rparr>)"

text \<open>
  \<^verbatim>\<open>ssrBundle({ routes, compress, ... })\<close>: without routes it returns the empty string and
  does nothing; otherwise it returns the bundle directory, having written the manifest
  there.  \<open>bundleDistDir\<close> is the directory chosen by \<^verbatim>\<open>bundleDistContainerDir\<close>; the
  client directory is \<^verbatim>\<open>join(bundleDistDir, 'client')\<close>.
\<close>

datatype bundleOutcome = NothingToBundle | Bundled string ssrBundleManifest directory

definition ssrBundle ::
  "(string \<Rightarrow> error + exportSpecifier list) \<Rightarrow> (string \<Rightarrow> bool) \<Rightarrow>
     (algorithm \<Rightarrow> string \<Rightarrow> error + string) \<Rightarrow> string \<Rightarrow> bunSsrRouteConfig list \<Rightarrow> bool \<Rightarrow>
     buildResult \<Rightarrow> directory \<Rightarrow> error + bundleOutcome" where
  "ssrBundle parse canWrite compressor bundleDistDir routes compress result dir =
     (if routes = [] then Inr NothingToBundle
      else
        bindE (bundleClient parse canWrite (path_join bundleDistDir ''client'') routes result dir)
          (\<lambda>(jsByPagePath, cssByPagePath, dir1).
        bindE (if compress then compressFilesInDir compressor dir1 else Inr dir1) (\<lambda>dir2.
        bindE (buildManifest routes jsByPagePath cssByPagePath) (\<lambda>manifest.
          Inr (Bundled bundleDistDir manifest dir2)))))"

section \<open>generateSsrBundleHandlers: the manifest loader and handler factory\<close>

text \<open>A parsed JSON value; a number is the value \<^verbatim>\<open>JSON.parse\<close> produced.\<close>

datatype json =
    JNull
  | JBool bool
  | JNumber rat
  | JString string
  | JArray "json list"
  | JObject "(string \<times> json) list"

text \<open>A property of a parsed object: of a key written twice the last value counts.\<close>

definition property :: "(string \<times> json) list \<Rightarrow> string \<Rightarrow> json option" where
  "property props name = map_of (rev props) name"

text \<open>
  The schema, read by \<^verbatim>\<open>zod\<close>: \<^verbatim>\<open>z.string()\<close>, \<^verbatim>\<open>z.array(z.string())\<close>, \<^verbatim>\<open>z.literal(1)\<close> and
  \<^verbatim>\<open>z.object\<close>, which demands each listed key and ignores the others.  A value that does
  not fit makes \<^verbatim>\<open>parse\<close> throw a \<^verbatim>\<open>ZodError\<close>.
  \<^verbatim>\<open>
  const ssrBundleManifestRouteSchema = z.object({
    path: z.string(),
    assets: z.object({ js: z.array(z.string()), css: z.array(z.string()) }),
  });
  const ssrBundleManifestSchema = z.object({
    version: z.literal(SSR_MANIFEST_VERSION),
    publicAssetPath: z.string(),
    routes: z.array(ssrBundleManifestRouteSchema),
  });
  \<close>
\<close>

definition zString :: "json option \<Rightarrow> error + string" where
  "zString v = (case v of Some (JString t) \<Rightarrow> Inr t | _ \<Rightarrow> Inl ZodError)"

definition zStringArray :: "json option \<Rightarrow> error + string list" where
  "zStringArray v =
     (case v of Some (JArray xs) \<Rightarrow> mapThrowing (\<lambda>x. zString (Some x)) xs | _ \<Rightarrow> Inl ZodError)"

definition ssrBundleManifestRouteSchema :: "json \<Rightarrow> error + ssrBundleManifestRoute" where
  "ssrBundleManifestRouteSchema v =
     (case v of
        JObject props \<Rightarrow>
          bindE (zString (property props ''path'')) (\<lambda>p.
            case property props ''assets'' of
              Some (JObject assets) \<Rightarrow>
                bindE (zStringArray (property assets ''js'')) (\<lambda>js.
                bindE (zStringArray (property assets ''css'')) (\<lambda>css.
                  Inr \<lparr> routeEntryPath = p, routeJs = js, routeCss = css \<rparr>))
            | _ \<Rightarrow> Inl ZodError)
      | _ \<Rightarrow> Inl ZodError)"

definition ssrBundleManifestSchema :: "json \<Rightarrow> error + ssrBundleManifest" where
  "ssrBundleManifestSchema v =
     (case v of
        JObject props \<Rightarrow>
          if property props ''version'' = Some (JNumber (of_nat SSR_MANIFEST_VERSION)) then
            bindE (zString (property props ''publicAssetPath'')) (\<lambda>p.
              case property props ''routes'' of
                Some (JArray rs) \<Rightarrow>
                  bindE (mapThrowing ssrBundleManifestRouteSchema rs) (\<lambda>routes.
                    Inr \<lparr> manifestVersion = SSR_MANIFEST_VERSION,
                          manifestPublicAssetPath = p,
                          manifestRoutes = routes \<rparr>)
              | _ \<Rightarrow> Inl ZodError)
          else Inl ZodError
      | _ \<Rightarrow> Inl ZodError)"

text \<open>
  The manifest file on disk: missing, present but not JSON (\<^verbatim>\<open>manifestFile.json()\<close>
  rejects), or present with a JSON value.
\<close>

datatype manifestFile = ManifestMissing | ManifestNotJson | ManifestJson json

text \<open>
  A route handler: the handler of a server-rendered route holds the manifest route, the
  component's render function and whether the response is compressed; the others are the
  static asset handlers.
\<close>

datatype routeHandler =
    SsrHandler ssrBundleManifestRoute "string list \<Rightarrow> string list \<Rightarrow> error + string" bool
  | AssetHandler handler

text \<open>
  \<^verbatim>\<open>
  const SsrComponent = routes.find((it) => it.path === route.path)?.SsrComponent;
  if (!SsrComponent) { throw new Error(`SSR export in module for path ... was not found`); }
  if (typeof SsrComponent !== 'function') { throw new Error(`... was not a function`); }
  ...
  return async function (req: Request): Promise<Response> { ... };
  \<close>
\<close>

definition getRouteHandler ::
  "bunSsrRouteConfig list \<Rightarrow> bool \<Rightarrow> ssrBundleManifestRoute \<Rightarrow> error + string \<times> routeHandler" where
  "getRouteHandler routes compressSsrResponse route =
     (case find (\<lambda>it. configPath it = routeEntryPath route) routes of
        None \<Rightarrow> Inl (SsrExportNotFound (routeEntryPath route))
      | Some it \<Rightarrow>
          (case ssrComponent it of
             ComponentUndefined \<Rightarrow> Inl (SsrExportNotFound (routeEntryPath route))
           | ComponentNotFunction \<Rightarrow> Inl (SsrExportNotFunction (routeEntryPath route))
           | ComponentFunction render \<Rightarrow>
               Inr (routeEntryPath route, SsrHandler route render compressSsrResponse)))"

text \<open>
  What a call of \<^verbatim>\<open>generateSsrBundleHandlers\<close> does: the paths of the routes whose
  handler it constructed, in order, and the table it returns or the error it throws.
\<close>

record handlersRun =
  handlersConstructed :: "string list"
  handlersOutcome :: "error + (string \<times> routeHandler) list"

text \<open>\<^verbatim>\<open>{ ...ssrRouteHandlers, ...staticAssetHandlers }\<close>\<close>

definition spread :: "(string \<times> 'a) list \<Rightarrow> (string \<times> 'a) list \<Rightarrow> (string \<times> 'a) list" where
  "spread first second = fold (\<lambda>(k, v). AList.update k v) second first"

text \<open>
  \<^verbatim>\<open>generateSsrBundleHandlers({ bundleDirPath, compressSsrResponse, routes })\<close>, given the
  manifest file and, for the static assets, the runtime's content types, the files on
  disk and the names enumerated under the client directory.  All the route handlers are
  started by \<^verbatim>\<open>manifest.routes.map\<close> before \<^verbatim>\<open>Promise.all\<close> is awaited, so a route that
  throws does not keep the handlers of the other routes from being constructed.
\<close>

definition generateSsrBundleHandlers ::
  "(string \<Rightarrow> string) \<Rightarrow> fs \<Rightarrow> string list \<Rightarrow> string \<Rightarrow> bool \<Rightarrow> bunSsrRouteConfig list \<Rightarrow>
     manifestFile \<Rightarrow> handlersRun" where
  "generateSsrBundleHandlers mimeType files names bundleDirPath compressSsrResponse routes file =
     (if routes = [] then \<lparr> handlersConstructed = [], handlersOutcome = Inr [] \<rparr>
      else
        (case file of
           ManifestMissing \<Rightarrow>
             \<lparr> handlersConstructed = [],
               handlersOutcome =
                 Inl (ManifestNotFound (path_join bundleDirPath SSR_MANIFEST_FILENAME)) \<rparr>
         | ManifestNotJson \<Rightarrow>
             \<lparr> handlersConstructed = [], handlersOutcome = Inl JsonSyntaxError \<rparr>
         | ManifestJson manifestJson \<Rightarrow>
             (case ssrBundleManifestSchema manifestJson of
                Inl e \<Rightarrow> \<lparr> handlersConstructed = [], handlersOutcome = Inl e \<rparr>
              | Inr manifest \<Rightarrow>
                  (let attempts =
                         map (getRouteHandler routes compressSsrResponse) (manifestRoutes manifest)
                   in \<lparr> handlersConstructed =
                          concat (map (\<lambda>a. case a of Inl e \<Rightarrow> [] | Inr (p, h) \<Rightarrow> [p]) attempts),
                        handlersOutcome =
                          bindE (promiseAll attempts) (\<lambda>ssrRouteHandlers.
                          bindE (bunStatic mimeType files names (manifestPublicAssetPath manifest)
                                   (path_join bundleDirPath ''client'') NoHeaders Ram False)
                            (\<lambda>staticAssetHandlers.
                               Inr (spread (fromEntries ssrRouteHandlers)
                                      (map (\<lambda>(route, h). (route, AssetHandler h))
                                         staticAssetHandlers)))) \<rparr>))))"

text \<open>Every page of the map has at least one JavaScript asset.\<close>

definition nonEmptyLists :: "jsByPagePathMap \<Rightarrow> bool" where
  "nonEmptyLists m = (\<forall>p js. map_of m p = Some js \<longrightarrow> js \<noteq> [])"

text \<open>The number of bytes a response sends, given the files on disk.\<close>

definition sentLength :: "fs \<Rightarrow> response \<Rightarrow> nat" where
  "sentLength files r = (case bodyBytes files (body r) of None \<Rightarrow> 0 | Some bytes \<Rightarrow> length bytes)"

section \<open>Properties of bunStatic\<close>

lemma collapseSlashes_keeps_slash:
  "CHR ''/'' \<in> set s \<Longrightarrow> CHR ''/'' \<in> set (collapseSlashes s)"
  by (induction s rule: collapseSlashes.induct) (auto split: if_splits)

lemma collapseSlashes_index_iff:
  "collapseSlashes (p @ ''/index.html'') = ''/index.html'' \<longleftrightarrow> p = [] \<or> p = ''/''"
proof (cases p)
  case Nil
  then show ?thesis by simp
next
  case (Cons a q)
  note p = Cons
  show ?thesis
  proof (cases q)
    case Nil
    with p show ?thesis by auto
  next
    case (Cons b r)
    have slash: "CHR ''/'' \<in> set (collapseSlashes (r @ ''/index.html''))"
      "CHR ''/'' \<in> set (collapseSlashes (b # r @ ''/index.html''))"
      by (rule collapseSlashes_keeps_slash, simp)+
    have ne: "collapseSlashes (r @ ''/index.html'') \<noteq> ''index.html''"
      "collapseSlashes (b # r @ ''/index.html'') \<noteq> ''index.html''"
      using slash by auto
    from p Cons ne show ?thesis by auto
  qed
qed

text \<open>
  C5, as stated: for every file whose logical name is \<^verbatim>\<open>index.html\<close> the route is
  \<^verbatim>\<open>/*\<close> with \<open>spaMode\<close> and \<^verbatim>\<open>/\<close> without, whatever the route prefix.  The code compares the
  whole route, prefix included, with \<^verbatim>\<open>/index.html\<close>: under the prefix \<^verbatim>\<open>/static\<close> the
  file keeps the route \<^verbatim>\<open>/static/index.html\<close> in both modes.
\<close>

theorem bunStatic_index_route_prefix_counterexample:
  "nameWithoutCompression ''index.html'' = ''index.html'' \<and>
   bunStaticRoute ''/static'' True (nameWithoutCompression ''index.html'') = ''/static/index.html'' \<and>
   bunStaticRoute ''/static'' False (nameWithoutCompression ''index.html'') = ''/static/index.html''"
  by (simp add: nameWithoutCompression_def compressionExtension_def compressionExtensions_def
      endsWith_def bunStaticRoute_def)

text \<open>
  C5, amended: for every enumerated file whose logical name is \<^verbatim>\<open>index.html\<close>, the route
  is \<^verbatim>\<open>/*\<close> (with \<open>spaMode\<close>) or \<^verbatim>\<open>/\<close> (without) exactly when the route prefix is empty or
  \<^verbatim>\<open>/\<close>; under any other prefix it is the prefix followed by \<^verbatim>\<open>/index.html\<close>, with double
  slashes collapsed.
\<close>

theorem bunStatic_index_route:
  assumes "nameWithoutCompression name = ''index.html''"
  shows "bunStaticRoute routePath spaMode (nameWithoutCompression name) =
           (if routePath = [] \<or> routePath = ''/'' then (if spaMode then ''/*'' else ''/'')
            else collapseSlashes (routePath @ ''/index.html''))"
proof -
  have "collapseSlashes (routePath @ ''/'' @ ''index.html'') = ''/index.html''
          \<longleftrightarrow> routePath = [] \<or> routePath = ''/''"
    using collapseSlashes_index_iff [of routePath] by simp
  then show ?thesis
    unfolding assms bunStaticRoute_def Let_def by simp
qed

theorem bunStatic_index_route_witness:
  "nameWithoutCompression ''index.html.br'' = ''index.html'' \<and>
   bunStaticRoute ''/'' True (nameWithoutCompression ''index.html.br'') = ''/*'' \<and>
   bunStaticRoute [] False (nameWithoutCompression ''index.html.br'') = ''/''"
proof -
  have n: "nameWithoutCompression ''index.html.br'' = ''index.html''"
    by (simp add: nameWithoutCompression_def compressionExtension_def compressionExtensions_def
        endsWith_def)
  show ?thesis
    using n bunStatic_index_route [OF n, of "''/''" True] bunStatic_index_route [OF n, of "[]" False]
    by simp
qed

text \<open>
  The \<^verbatim>\<open>Content-Length\<close> header of the responses.  Under \<^verbatim>\<open>'disk'\<close> every response of
  every group carries the length of the body it sends.  Under \<^verbatim>\<open>'ram'\<close> every response does
  too, but for the uncompressed fallback of a group with compressed siblings, whose headers
  are the caller's and nothing else.
\<close>

lemma headersGet_headersSet:
  "headersGet (headersSet name v h) name' =
     (if toLowerCase name' = toLowerCase name then Some v else headersGet h name')"
  by (simp add: headersGet_def headersSet_def update_conv')

lemma content_length_name:
  "toLowerCase ''Content-Length'' \<noteq> toLowerCase ''Content-Type''"
  "toLowerCase ''Content-Length'' \<noteq> toLowerCase ''Content-Encoding''"
  by code_simp+

lemma diskVariantResponse_length:
  "headersGet (headers (diskVariantResponse userHeaders contentType encoding fileSize path))
     ''Content-Length'' = Some fileSize"
  "body (diskVariantResponse userHeaders contentType encoding fileSize path) = FileBody path"
  by (simp_all add: diskVariantResponse_def headersGet_headersSet)

lemma ramVariantResponse_length:
  "headersGet (headers (ramVariantResponse userHeaders contentType encoding contentLength bytes))
     ''Content-Length'' = Some contentLength"
  "body (ramVariantResponse userHeaders contentType encoding contentLength bytes) = BytesBody bytes"
  by (simp_all add: ramVariantResponse_def headersGet_headersSet)

lemma plainResponseHeaders_length:
  "headersGet (plainResponseHeaders userHeaders contentType contentLength) ''Content-Length''
     = Some contentLength"
  by (simp add: plainResponseHeaders_def headersGet_headersSet)

lemma diskSibling_length:
  "diskSibling files sibling = Some (fileSize, path) \<Longrightarrow> fileSize = toString (bunFileSize files path)"
  by (auto simp: diskSibling_def)

lemma diskHandler_content_length:
  assumes "\<And>fileSize path. brotli = Some (fileSize, path) \<Longrightarrow> fileSize = toString (bunFileSize files path)"
    and "\<And>fileSize path. zstd = Some (fileSize, path) \<Longrightarrow> fileSize = toString (bunFileSize files path)"
    and "\<And>fileSize path. gzip = Some (fileSize, path) \<Longrightarrow> fileSize = toString (bunFileSize files path)"
  shows "headersGet (headers (diskHandler userHeaders contentType brotli zstd gzip
            (toString (bunFileSize files bunFile)) bunFile req)) ''Content-Length''
         = Some (toString (sentLength files (diskHandler userHeaders contentType brotli zstd gzip
            (toString (bunFileSize files bunFile)) bunFile req)))"
  using assms
  by (auto simp: diskHandler_def diskVariantResponse_length plainResponseHeaders_length
      sentLength_def bunFileSize_def split: option.splits prod.splits bool.splits)

lemma groupHandler_disk_content_length:
  assumes "groupHandler mimeType files Disk headersFn file = Inr h"
  shows "headersGet (headers (respond h req)) ''Content-Length''
           = Some (toString (sentLength files (respond h req)))"
proof (cases "list_ex (\<lambda>f. snd f \<noteq> None) (groupFiles file)")
  case True
  with assms have h: "h = HandlerFn
                  (diskHandler (userHeadersFor headersFn (groupPath file)) (mimeType (groupPath file))
                     (diskSibling files (siblingFile file Br))
                     (diskSibling files (siblingFile file Zst)) (diskSibling files (siblingFile file Gz))
                     (toString (bunFileSize files (groupPath file))) (groupPath file))"
    by (simp add: groupHandler_def Let_def)
  show ?thesis
    unfolding h respond_def handler.case
    by (rule diskHandler_content_length) (auto dest: diskSibling_length)
next
  case False
  with assms have "h = StaticResponse
                  \<lparr> headers = plainResponseHeaders (userHeadersFor headersFn (groupPath file))
                       (mimeType (groupPath file)) (toString (bunFileSize files (groupPath file))),
                    body = FileBody (groupPath file) \<rparr>"
    by (simp add: groupHandler_def Let_def)
  then show ?thesis
    by (simp add: respond_def plainResponseHeaders_length sentLength_def bunFileSize_def)
qed

lemma ramSibling_length:
  "ramSibling files sibling = Inr (Some (contentLength, bytes)) \<Longrightarrow>
     contentLength = toString (length bytes)"
  by (auto simp: ramSibling_def readBytes_def bindE_def bunFileSize_def
      split: option.splits sum.splits)

lemma ramHandler_content_length:
  assumes "\<And>contentLength bytes. brotli = Some (contentLength, bytes) \<Longrightarrow> contentLength = toString (length bytes)"
    and "\<And>contentLength bytes. zstd = Some (contentLength, bytes) \<Longrightarrow> contentLength = toString (length bytes)"
    and "\<And>contentLength bytes. gzip = Some (contentLength, bytes) \<Longrightarrow> contentLength = toString (length bytes)"
  shows "headersGet (headers (ramHandler userHeaders contentType brotli zstd gzip bunFileBytes req))
           ''Content-Length''
         = Some (toString (sentLength files
                   (ramHandler userHeaders contentType brotli zstd gzip bunFileBytes req))) \<or>
         ramHandler userHeaders contentType brotli zstd gzip bunFileBytes req
         = \<lparr> headers = newHeaders userHeaders, body = BytesBody bunFileBytes \<rparr>"
  using assms
  by (auto simp: ramHandler_def ramVariantResponse_length sentLength_def
      split: option.splits prod.splits bool.splits)

lemma groupHandler_ram_content_length:
  assumes "groupHandler mimeType files Ram headersFn file = Inr h"
  shows "headersGet (headers (respond h req)) ''Content-Length''
           = Some (toString (sentLength files (respond h req))) \<or>
         (list_ex (\<lambda>f. snd f \<noteq> None) (groupFiles file) \<and>
          headers (respond h req) = newHeaders (userHeadersFor headersFn (groupPath file)))"
proof (cases "list_ex (\<lambda>f. snd f \<noteq> None) (groupFiles file)")
  case True
  with assms obtain brotli zstd gzip bytes where
    b: "ramSibling files (siblingFile file Br) = Inr brotli"
    and z: "ramSibling files (siblingFile file Zst) = Inr zstd"
    and g: "ramSibling files (siblingFile file Gz) = Inr gzip"
    and h: "h = HandlerFn (ramHandler (userHeadersFor headersFn (groupPath file))
                  (mimeType (groupPath file)) brotli zstd gzip bytes)"
    by (auto simp: groupHandler_def Let_def bindE_def split: sum.splits)
  have "headersGet (headers (ramHandler (userHeadersFor headersFn (groupPath file))
                  (mimeType (groupPath file)) brotli zstd gzip bytes req)) ''Content-Length''
         = Some (toString (sentLength files
                   (ramHandler (userHeadersFor headersFn (groupPath file))
                  (mimeType (groupPath file)) brotli zstd gzip bytes req))) \<or>
         ramHandler (userHeadersFor headersFn (groupPath file))
                  (mimeType (groupPath file)) brotli zstd gzip bytes req
         = \<lparr> headers = newHeaders (userHeadersFor headersFn (groupPath file)), body = BytesBody bytes \<rparr>"
    using b z g by (intro ramHandler_content_length) (auto dest: ramSibling_length)
  with True show ?thesis
    unfolding h respond_def handler.case by auto
next
  case False
  with assms obtain bytes where "files (groupPath file) = Some bytes"
    and "h = StaticResponse
                  \<lparr> headers = plainResponseHeaders (userHeadersFor headersFn (groupPath file))
                       (mimeType (groupPath file)) (toString (bunFileSize files (groupPath file))),
                    body = BytesBody bytes \<rparr>"
    by (auto simp: groupHandler_def Let_def bindE_def readBytes_def split: sum.splits option.splits)
  then show ?thesis
    by (simp add: respond_def plainResponseHeaders_length sentLength_def bunFileSize_def)
qed


text \<open>
  C1 says that the response of a group with compressed siblings carries a
  \<^verbatim>\<open>Content-Length\<close> equal to the byte length of its body in every case, the uncompressed
  fallback under \<^verbatim>\<open>'ram'\<close> included.  The directory \<^verbatim>\<open>public\<close> holds \<^verbatim>\<open>app.js\<close> (six
  bytes) and \<^verbatim>\<open>app.js.gz\<close>; the request accepts no compressed encoding.  Each line below
  gives the route, the \<^verbatim>\<open>Content-Length\<close> header of the response and the byte length of
  its body.  Under \<^verbatim>\<open>'ram'\<close> the fallback response has no \<^verbatim>\<open>Content-Length\<close> header, and a
  \<^verbatim>\<open>Content-Length\<close> among the caller's headers is passed on as it is; under \<^verbatim>\<open>'disk'\<close> the
  same requests get the length of the body.
\<close>

theorem bunStatic_ram_fallback_content_length:
  "map_sum id
     (map (\<lambda>(route, h).
        (route,
         headersGet (headers (respond h \<lparr> acceptEncoding = Some ''identity'' \<rparr>)) ''Content-Length'',
         map_option length
           (bodyBytes (map_of [(''public/app.js'', ''abcdef''), (''public/app.js.gz'', ''xyz'')])
              (body (respond h \<lparr> acceptEncoding = Some ''identity'' \<rparr>))))))
     (bunStatic (\<lambda>path. ''text/javascript'')
        (map_of [(''public/app.js'', ''abcdef''), (''public/app.js.gz'', ''xyz'')])
        [''app.js'', ''app.js.gz''] ''/'' ''public'' NoHeaders Ram False)
   = Inr [(''/app.js'', None, Some 6)] \<and>
   map_sum id
     (map (\<lambda>(route, h).
        (route,
         headersGet (headers (respond h \<lparr> acceptEncoding = Some ''identity'' \<rparr>)) ''Content-Length'',
         map_option length
           (bodyBytes (map_of [(''public/app.js'', ''abcdef''), (''public/app.js.gz'', ''xyz'')])
              (body (respond h \<lparr> acceptEncoding = Some ''identity'' \<rparr>))))))
     (bunStatic (\<lambda>path. ''text/javascript'')
        (map_of [(''public/app.js'', ''abcdef''), (''public/app.js.gz'', ''xyz'')])
        [''app.js'', ''app.js.gz''] ''/'' ''public''
        (HeadersInit [(''content-length'', ''3'')]) Ram False)
   = Inr [(''/app.js'', Some ''3'', Some 6)] \<and>
   map_sum id
     (map (\<lambda>(route, h).
        (route,
         headersGet (headers (respond h \<lparr> acceptEncoding = Some ''identity'' \<rparr>)) ''Content-Length'',
         map_option length
           (bodyBytes (map_of [(''public/app.js'', ''abcdef''), (''public/app.js.gz'', ''xyz'')])
              (body (respond h \<lparr> acceptEncoding = Some ''identity'' \<rparr>))))))
     (bunStatic (\<lambda>path. ''text/javascript'')
        (map_of [(''public/app.js'', ''abcdef''), (''public/app.js.gz'', ''xyz'')])
        [''app.js'', ''app.js.gz''] ''/'' ''public''
        (HeadersInit [(''content-length'', ''3'')]) Disk False)
   = Inr [(''/app.js'', Some ''6'', Some 6)]"
  by code_simp

section \<open>Properties of compressFilesInDir\<close>

lemma endsWith_last: "endsWith s t \<Longrightarrow> t \<noteq> [] \<Longrightarrow> last s = last t"
  unfolding endsWith_def
  by (metis append_take_drop_id last_appendR)

lemma last_siblingExtension:
  "last (file @ siblingExtension alg) = (case alg of Gzip \<Rightarrow> CHR ''z'' | Zstd \<Rightarrow> CHR ''t'' | Brotli \<Rightarrow> CHR ''r'')"
  by (cases alg) simp_all

lemma sibling_not_compressible: "\<not> compressible (file @ siblingExtension alg)"
proof
  assume "compressible (file @ siblingExtension alg)"
  then obtain ext where e: "ext \<in> set [''js'', ''css'', ''html'', ''json'', ''svg'', ''ico'']"
    and w: "endsWith (file @ siblingExtension alg) (''.'' @ ext)"
    unfolding compressible_def list_ex_iff by blast
  define c where "c = last (''.'' @ ext)"
  from endsWith_last [OF w] have l: "last (file @ siblingExtension alg) = c"
    unfolding c_def by simp
  from e have "c \<in> {CHR ''s'', CHR ''l'', CHR ''n'', CHR ''g'', CHR ''o''}"
    unfolding c_def by auto
  with l show False
    unfolding last_siblingExtension by (cases alg) auto
qed

lemma sibling_inject:
  "file @ siblingExtension alg = file' @ siblingExtension alg' \<longleftrightarrow> file = file' \<and> alg = alg'"
proof
  assume eq: "file @ siblingExtension alg = file' @ siblingExtension alg'"
  then have "last (file @ siblingExtension alg) = last (file' @ siblingExtension alg')" by simp
  then have a: "alg = alg'"
    unfolding last_siblingExtension by (cases alg; cases alg') simp_all
  with eq show "file = file' \<and> alg = alg'" by simp
qed simp

lemma compressTask_map_of:
  assumes "compressTask compress file content alg dir = Inr dir'"
  shows "\<exists>compressed. compress alg content = Inr compressed \<and>
           map_of dir' = (if length compressed < length content
                          then (map_of dir)(file @ siblingExtension alg \<mapsto> compressed)
                          else map_of dir)"
  using assms
  by (auto simp: compressTask_def bindE_def writeFileSync_def update_conv' split: sum.splits if_splits)

lemma compressFile_map_of:
  assumes "compressFile compress dir file = Inr dir'" "compressible file"
  shows "\<exists>content. map_of dir file = Some content \<and>
          (\<forall>alg. \<exists>compressed. compress alg content = Inr compressed \<and>
             map_of dir' (file @ siblingExtension alg) =
               (if length compressed < length content then Some compressed
                else map_of dir (file @ siblingExtension alg))) \<and>
          (\<forall>p. (\<forall>alg. p \<noteq> file @ siblingExtension alg) \<longrightarrow> map_of dir' p = map_of dir p)"
proof -
  from assms obtain content where c: "map_of dir file = Some content"
    by (auto simp: compressFile_def split: option.splits)
  with assms obtain d1 d2 where
    t1: "compressTask compress file content Gzip dir = Inr d1" and
    t2: "compressTask compress file content Zstd d1 = Inr d2" and
    t3: "compressTask compress file content Brotli d2 = Inr dir'"
    by (auto simp: compressFile_def bindE_def split: sum.splits)
  from compressTask_map_of [OF t1] obtain c1 where
    c1: "compress Gzip content = Inr c1"
     "map_of d1 = (if length c1 < length content then (map_of dir)(file @ siblingExtension Gzip \<mapsto> c1) else map_of dir)"
    by blast
  from compressTask_map_of [OF t2] obtain c2 where
    c2: "compress Zstd content = Inr c2"
     "map_of d2 = (if length c2 < length content then (map_of d1)(file @ siblingExtension Zstd \<mapsto> c2) else map_of d1)"
    by blast
  from compressTask_map_of [OF t3] obtain c3 where
    c3: "compress Brotli content = Inr c3"
     "map_of dir' = (if length c3 < length content then (map_of d2)(file @ siblingExtension Brotli \<mapsto> c3) else map_of d2)"
    by blast
  have "\<exists>compressed. compress alg content = Inr compressed \<and>
             map_of dir' (file @ siblingExtension alg) =
               (if length compressed < length content then Some compressed
                else map_of dir (file @ siblingExtension alg))" for alg
    using c1 c2 c3 by (cases alg) (simp_all)
  moreover have "map_of dir' p = map_of dir p" if "\<forall>alg. p \<noteq> file @ siblingExtension alg" for p
  proof -
    from that have "p \<noteq> file @ siblingExtension Gzip" "p \<noteq> file @ siblingExtension Zstd" "p \<noteq> file @ siblingExtension Brotli"
      by blast+
    then show ?thesis using c1(2) c2(2) c3(2) by simp
  qed
  ultimately show ?thesis using c by blast
qed


lemma compressFile_skip: "\<not> compressible file \<Longrightarrow> compressFile compress dir file = Inr dir"
  by (simp add: compressFile_def)

lemma compressFiles_frame:
  assumes "compressFiles compress files dir = Inr dir'"
    and "\<forall>file alg. file \<in> set files \<and> compressible file \<longrightarrow> p \<noteq> file @ siblingExtension alg"
  shows "map_of dir' p = map_of dir p"
  using assms
proof (induction files arbitrary: dir)
  case Nil
  then show ?case by simp
next
  case (Cons f files)
  from Cons.prems(1) obtain d1 where
    s: "compressFile compress dir f = Inr d1" and r: "compressFiles compress files d1 = Inr dir'"
    by (auto simp: bindE_def split: sum.splits)
  have "map_of d1 p = map_of dir p"
  proof (cases "compressible f")
    case True
    with Cons.prems(2) have "\<forall>alg. p \<noteq> f @ siblingExtension alg" by simp
    with compressFile_map_of [OF s True] show ?thesis by blast
  next
    case False
    with s show ?thesis by (simp add: compressFile_skip)
  qed
  moreover have "map_of dir' p = map_of d1 p"
    using Cons.IH [OF r] Cons.prems(2) by simp
  ultimately show ?case by simp
qed

lemma compressFiles_keeps_compressible:
  assumes "compressFiles compress files dir = Inr dir'" "compressible p"
  shows "map_of dir' p = map_of dir p"
  using assms(1)
proof (rule compressFiles_frame)
  show "\<forall>file alg. file \<in> set files \<and> compressible file \<longrightarrow> p \<noteq> file @ siblingExtension alg"
    using assms(2) sibling_not_compressible by metis
qed

lemma compressFiles_sibling:
  assumes "compressFiles compress files dir = Inr dir'"
    and "file \<in> set files" "compressible file" "map_of dir file = Some content"
  shows "\<exists>compressed. compress alg content = Inr compressed \<and>
           map_of dir' (file @ siblingExtension alg) =
             (if length compressed < length content then Some compressed
              else map_of dir (file @ siblingExtension alg))"
  using assms
proof (induction files arbitrary: dir)
  case Nil
  then show ?case by simp
next
  case (Cons f files)
  from Cons.prems(1) obtain d1 where
    s: "compressFile compress dir f = Inr d1" and r: "compressFiles compress files d1 = Inr dir'"
    by (auto simp: bindE_def split: sum.splits)
  have keep: "map_of d1 file = Some content"
    using compressFiles_keeps_compressible [of compress "[f]" dir d1 "file"] s Cons.prems(3,4)
    by (simp add: bindE_def)
  have step: "\<exists>compressed. compress alg content = Inr compressed \<and>
           map_of d1 (file @ siblingExtension alg) =
             (if f = file \<and> length compressed < length content then Some compressed
              else map_of dir (file @ siblingExtension alg))"
  proof (cases "f = file")
    case True
    with compressFile_map_of [OF s] Cons.prems(3,4) show ?thesis by fastforce
  next
    case False
    have "map_of d1 (file @ siblingExtension alg) = map_of dir (file @ siblingExtension alg)"
    proof (cases "compressible f")
      case True
      from False have "\<forall>a. file @ siblingExtension alg \<noteq> f @ siblingExtension a"
        by (simp add: sibling_inject)
      with compressFile_map_of [OF s True] show ?thesis by blast
    next
      case False
      with s show ?thesis by (simp add: compressFile_skip)
    qed
    moreover have "\<exists>compressed. compress alg content = Inr compressed"
    proof (cases "file \<in> set files")
      case True
      from Cons.IH [OF r True Cons.prems(3) keep] show ?thesis by blast
    next
      case False
      with Cons.prems(2) \<open>f \<noteq> file\<close> show ?thesis by simp
    qed
    ultimately show ?thesis using False by auto
  qed
  show ?case
  proof (cases "file \<in> set files")
    case True
    from Cons.IH [OF r True Cons.prems(3) keep] obtain compressed where
      c: "compress alg content = Inr compressed"
      "map_of dir' (file @ siblingExtension alg) =
             (if length compressed < length content then Some compressed
              else map_of d1 (file @ siblingExtension alg))" by blast
    with step show ?thesis by auto
  next
    case False
    have "map_of dir' (file @ siblingExtension alg) = map_of d1 (file @ siblingExtension alg)"
      using r
    proof (rule compressFiles_frame)
      show "\<forall>g a. g \<in> set files \<and> compressible g \<longrightarrow> file @ siblingExtension alg \<noteq> g @ siblingExtension a"
        using False by (auto simp: sibling_inject)
    qed
    moreover from False Cons.prems(2) have "f = file" by simp
    ultimately show ?thesis using step by auto
  qed
qed

lemma compressTask_stable:
  assumes "compress alg content = Inr compressed"
    and "length compressed < length content \<longrightarrow> map_of dir (file @ siblingExtension alg) = Some compressed"
  shows "compressTask compress file content alg dir = Inr dir"
  using assms by (simp add: compressTask_def bindE_def writeFileSync_def update_triv)

lemma compressFile_stable:
  assumes "compressible file \<longrightarrow>
     (\<exists>content. map_of dir file = Some content \<and>
        (\<forall>alg. \<exists>compressed. compress alg content = Inr compressed \<and>
           (length compressed < length content \<longrightarrow>
              map_of dir (file @ siblingExtension alg) = Some compressed)))"
  shows "compressFile compress dir file = Inr dir"
proof (cases "compressible file")
  case True
  with assms obtain content where c: "map_of dir file = Some content"
    and a: "\<And>alg. \<exists>compressed. compress alg content = Inr compressed \<and>
           (length compressed < length content \<longrightarrow>
              map_of dir (file @ siblingExtension alg) = Some compressed)" by blast
  have "compressTask compress file content alg dir = Inr dir" for alg
    using a [of alg] compressTask_stable by blast
  with True c show ?thesis by (simp add: compressFile_def bindE_def)
next
  case False
  then show ?thesis by (simp add: compressFile_skip)
qed

lemma compressFiles_stable:
  assumes "\<forall>file \<in> set files. compressible file \<longrightarrow>
     (\<exists>content. map_of dir file = Some content \<and>
        (\<forall>alg. \<exists>compressed. compress alg content = Inr compressed \<and>
           (length compressed < length content \<longrightarrow>
              map_of dir (file @ siblingExtension alg) = Some compressed)))"
  shows "compressFiles compress files dir = Inr dir"
  using assms
proof (induction files)
  case Nil
  then show ?case by simp
next
  case (Cons f files)
  then have "compressFile compress dir f = Inr dir"
    by (intro compressFile_stable) simp
  with Cons show ?case by (simp add: bindE_def)
qed

lemma readdirSync_writeFileSync:
  "set (readdirSync (writeFileSync path bytes dir)) = insert path (set (readdirSync dir))"
  by (simp add: readdirSync_def writeFileSync_def dom_update)

lemma compressTask_names:
  "compressTask compress file content alg dir = Inr dir' \<Longrightarrow>
     set (readdirSync dir') \<subseteq> insert (file @ siblingExtension alg) (set (readdirSync dir))"
  by (auto simp: compressTask_def bindE_def readdirSync_writeFileSync
      split: sum.splits if_splits)

lemma compressTask_names_mono:
  "compressTask compress file content alg dir = Inr dir' \<Longrightarrow>
     set (readdirSync dir) \<subseteq> set (readdirSync dir')"
  by (auto simp: compressTask_def bindE_def readdirSync_writeFileSync
      split: sum.splits if_splits)

lemma compressFile_names:
  assumes "compressFile compress dir file = Inr dir'"
  shows "set (readdirSync dir) \<subseteq> set (readdirSync dir') \<and>
         set (readdirSync dir') \<subseteq> set (readdirSync dir) \<union>
           {f @ siblingExtension alg | f alg. f = file \<and> compressible f}"
proof (cases "compressible file")
  case True
  with assms obtain content d1 d2 where
    t1: "compressTask compress file content Gzip dir = Inr d1" and
    t2: "compressTask compress file content Zstd d1 = Inr d2" and
    t3: "compressTask compress file content Brotli d2 = Inr dir'"
    by (auto simp: compressFile_def bindE_def split: sum.splits option.splits)
  show ?thesis
    using compressTask_names [OF t1] compressTask_names [OF t2] compressTask_names [OF t3]
      compressTask_names_mono [OF t1] compressTask_names_mono [OF t2] compressTask_names_mono [OF t3]
      True by blast
next
  case False
  with assms show ?thesis by (auto simp: compressFile_skip)
qed

lemma compressFiles_names:
  assumes "compressFiles compress files dir = Inr dir'"
  shows "set (readdirSync dir) \<subseteq> set (readdirSync dir') \<and>
         set (readdirSync dir') \<subseteq> set (readdirSync dir) \<union>
           {f @ siblingExtension alg | f alg. f \<in> set files \<and> compressible f}"
  using assms
proof (induction files arbitrary: dir)
  case Nil
  then show ?case by simp
next
  case (Cons f files)
  from Cons.prems(1) obtain d1 where
    s: "compressFile compress dir f = Inr d1" and r: "compressFiles compress files d1 = Inr dir'"
    by (auto simp: bindE_def split: sum.splits)
  have a: "set (readdirSync dir) \<subseteq> set (readdirSync d1)"
    and b: "set (readdirSync d1) \<subseteq> set (readdirSync dir) \<union>
           {g @ siblingExtension alg | g alg. g = f \<and> compressible g}"
    using compressFile_names [OF s] by blast+
  have c: "set (readdirSync d1) \<subseteq> set (readdirSync dir')"
    and d: "set (readdirSync dir') \<subseteq> set (readdirSync d1) \<union>
           {g @ siblingExtension alg | g alg. g \<in> set files \<and> compressible g}"
    using Cons.IH [OF r] by blast+
  have "{g @ siblingExtension alg | g alg. g = f \<and> compressible g} \<union>
        {g @ siblingExtension alg | g alg. g \<in> set files \<and> compressible g}
        \<subseteq> {g @ siblingExtension alg | g alg. g \<in> set (f # files) \<and> compressible g}"
    by auto
  with a b c d show ?case by blast
qed


lemma readdirSync_iff: "name \<in> set (readdirSync dir) \<longleftrightarrow> map_of dir name \<noteq> None"
  by (simp add: readdirSync_def map_of_eq_None_iff)

text \<open>
  C6: for every file of the directory whose name matches the allow-list, and each of the
  three algorithms, a run that completes has called the compressor on the file's content,
  and the sibling path holds the compressed bytes exactly when they are strictly shorter
  than the original; otherwise the sibling path is as it was before the run, so a sibling
  that did not exist is there afterwards if and only if the compressed length is strictly
  smaller.
\<close>

theorem compressFilesInDir_sibling_iff_smaller:
  assumes "compressFilesInDir compress dir = Inr dir'"
    and "map_of dir file = Some content"
    and "compressible file"
  shows "\<exists>compressed. compress alg content = Inr compressed \<and>
           map_of dir' (file @ siblingExtension alg) =
             (if length compressed < length content then Some compressed
              else map_of dir (file @ siblingExtension alg)) \<and>
           (map_of dir (file @ siblingExtension alg) = None \<longrightarrow>
              (file @ siblingExtension alg \<in> set (readdirSync dir')
                 \<longleftrightarrow> length compressed < length content))"
proof -
  from assms(2) have "file \<in> set (readdirSync dir)"
    by (simp add: readdirSync_iff)
  with assms obtain compressed where
    c: "compress alg content = Inr compressed"
       "map_of dir' (file @ siblingExtension alg) =
             (if length compressed < length content then Some compressed
              else map_of dir (file @ siblingExtension alg))"
    using compressFiles_sibling [of compress "readdirSync dir" dir dir' "file" content alg]
    unfolding compressFilesInDir_def by blast
  then show ?thesis by (auto simp: readdirSync_iff)
qed

theorem compressFilesInDir_sibling_iff_smaller_witness:
  "compressFilesInDir
     (\<lambda>alg content. Inr (case alg of Gzip \<Rightarrow> take 3 content | Zstd \<Rightarrow> content | Brotli \<Rightarrow> content @ ''!''))
     [(''app.js'', ''aaaaaaaa''), (''logo.png'', ''xy'')]
   = Inr [(''app.js'', ''aaaaaaaa''), (''logo.png'', ''xy''), (''app.js.gz'', ''aaa'')] \<and>
   map_of [(''app.js'', ''aaaaaaaa''), (''logo.png'', ''xy'')] ''app.js'' = Some ''aaaaaaaa'' \<and>
   compressible ''app.js'' \<and>
   map_of [(''app.js'', ''aaaaaaaa''), (''logo.png'', ''xy''), (''app.js.gz'', ''aaa'')]
     (''app.js'' @ siblingExtension Gzip) = Some ''aaa'' \<and>
   map_of [(''app.js'', ''aaaaaaaa''), (''logo.png'', ''xy''), (''app.js.gz'', ''aaa'')]
     (''app.js'' @ siblingExtension Zstd) = None"
proof -
  let ?c = "\<lambda>alg content. Inr (case alg of Gzip \<Rightarrow> take 3 content | Zstd \<Rightarrow> content | Brotli \<Rightarrow> content @ ''!'')"
  let ?d = "[(''app.js'', ''aaaaaaaa''), (''logo.png'', ''xy'')]"
  let ?d' = "[(''app.js'', ''aaaaaaaa''), (''logo.png'', ''xy''), (''app.js.gz'', ''aaa'')]"
  have h1: "compressFilesInDir ?c ?d = Inr ?d'" by code_simp
  have h2: "map_of ?d ''app.js'' = Some ''aaaaaaaa''" by simp
  have h3: "compressible ''app.js''" by code_simp
  from compressFilesInDir_sibling_iff_smaller [OF h1 h2 h3, of Gzip]
  have g: "map_of ?d' (''app.js'' @ siblingExtension Gzip) = Some ''aaa''" by simp
  from compressFilesInDir_sibling_iff_smaller [OF h1 h2 h3, of Zstd]
  have z: "map_of ?d' (''app.js'' @ siblingExtension Zstd) = None" by simp
  from h1 h2 h3 g z show ?thesis by blast
qed

text \<open>
  C10: a name ending in \<^verbatim>\<open>.gz\<close>, \<^verbatim>\<open>.zst\<close> or \<^verbatim>\<open>.br\<close> never matches the allow-list; a file
  whose name does not match is left alone (the compressor is not called for it); every
  name a completed run adds is a listed, matching file's name followed by one of the three
  extensions; and a second run over the resulting directory completes and leaves the set of
  file names as it was after the first.
\<close>

theorem compressFilesInDir_allow_list_rerun:
  assumes "compressFilesInDir compress dir = Inr dir1"
  shows "(\<forall>name. endsWith name ''.gz'' \<or> endsWith name ''.zst'' \<or> endsWith name ''.br''
            \<longrightarrow> \<not> compressible name) \<and>
         (\<forall>name d. \<not> compressible name \<longrightarrow> compressFile compress d name = Inr d) \<and>
         (\<forall>name \<in> set (readdirSync dir1) - set (readdirSync dir).
            \<exists>file alg. file \<in> set (readdirSync dir) \<and> compressible file \<and>
              name = file @ siblingExtension alg) \<and>
         (\<exists>dir2. compressFilesInDir compress dir1 = Inr dir2 \<and>
            set (readdirSync dir2) = set (readdirSync dir1))"
proof (intro conjI)
  show "\<forall>name. endsWith name ''.gz'' \<or> endsWith name ''.zst'' \<or> endsWith name ''.br''
            \<longrightarrow> \<not> compressible name"
  proof (intro allI impI)
    fix name
    assume "endsWith name ''.gz'' \<or> endsWith name ''.zst'' \<or> endsWith name ''.br''"
    then obtain alg where "endsWith name (siblingExtension alg)"
      by (metis siblingExtension.simps)
    then have "name = take (length name - length (siblingExtension alg)) name @ siblingExtension alg"
      unfolding endsWith_def by (metis append_take_drop_id)
    then show "\<not> compressible name"
      using sibling_not_compressible by metis
  qed
next
  show "\<forall>name d. \<not> compressible name \<longrightarrow> compressFile compress d name = Inr d"
    by (simp add: compressFile_skip)
next
  from assms have run: "compressFiles compress (readdirSync dir) dir = Inr dir1"
    by (simp add: compressFilesInDir_def)
  from compressFiles_names [OF run]
  have names: "set (readdirSync dir1) \<subseteq> set (readdirSync dir) \<union>
           {f @ siblingExtension alg | f alg. f \<in> set (readdirSync dir) \<and> compressible f}"
    by blast
  then show "\<forall>name \<in> set (readdirSync dir1) - set (readdirSync dir).
            \<exists>file alg. file \<in> set (readdirSync dir) \<and> compressible file \<and>
              name = file @ siblingExtension alg"
    by blast
  have "compressFiles compress (readdirSync dir1) dir1 = Inr dir1"
  proof (rule compressFiles_stable, intro ballI impI)
    fix f
    assume f: "f \<in> set (readdirSync dir1)" "compressible f"
    with names have "f \<in> set (readdirSync dir)"
      using sibling_not_compressible by blast
    then obtain content where c: "map_of dir f = Some content"
      by (auto simp: readdirSync_iff)
    have c1: "map_of dir1 f = Some content"
      using compressFiles_keeps_compressible [OF run f(2)] c by simp
    have "\<exists>compressed. compress alg content = Inr compressed \<and>
           (length compressed < length content \<longrightarrow>
              map_of dir1 (f @ siblingExtension alg) = Some compressed)" for alg
      using compressFiles_sibling [OF run \<open>f \<in> set (readdirSync dir)\<close> f(2) c, of alg] by auto
    with c1 show "\<exists>content. map_of dir1 f = Some content \<and>
        (\<forall>alg. \<exists>compressed. compress alg content = Inr compressed \<and>
           (length compressed < length content \<longrightarrow>
              map_of dir1 (f @ siblingExtension alg) = Some compressed))"
      by blast
  qed
  then show "\<exists>dir2. compressFilesInDir compress dir1 = Inr dir2 \<and>
            set (readdirSync dir2) = set (readdirSync dir1)"
    by (simp add: compressFilesInDir_def)
qed

theorem compressFilesInDir_allow_list_rerun_witness:
  "compressFilesInDir
     (\<lambda>alg content. Inr (case alg of Gzip \<Rightarrow> take 3 content | Zstd \<Rightarrow> content | Brotli \<Rightarrow> take 2 content))
     [(''app.js'', ''aaaaaaaa''), (''logo.png'', ''xy'')]
   = Inr [(''app.js'', ''aaaaaaaa''), (''logo.png'', ''xy''), (''app.js.gz'', ''aaa''),
          (''app.js.br'', ''aa'')] \<and>
   endsWith ''app.js.gz'' ''.gz'' \<and> \<not> compressible ''app.js.gz'' \<and>
   (\<exists>dir2. compressFilesInDir
     (\<lambda>alg content. Inr (case alg of Gzip \<Rightarrow> take 3 content | Zstd \<Rightarrow> content | Brotli \<Rightarrow> take 2 content))
     [(''app.js'', ''aaaaaaaa''), (''logo.png'', ''xy''), (''app.js.gz'', ''aaa''),
          (''app.js.br'', ''aa'')] = Inr dir2 \<and>
     set (readdirSync dir2) = {''app.js'', ''logo.png'', ''app.js.gz'', ''app.js.br''})"
proof -
  let ?c = "\<lambda>alg content. Inr (case alg of Gzip \<Rightarrow> take 3 content | Zstd \<Rightarrow> content | Brotli \<Rightarrow> take 2 content)"
  let ?d = "[(''app.js'', ''aaaaaaaa''), (''logo.png'', ''xy'')]"
  let ?d1 = "[(''app.js'', ''aaaaaaaa''), (''logo.png'', ''xy''), (''app.js.gz'', ''aaa''),
          (''app.js.br'', ''aa'')]"
  have h: "compressFilesInDir ?c ?d = Inr ?d1" by code_simp
  have e: "endsWith ''app.js.gz'' ''.gz''" by code_simp
  note t = compressFilesInDir_allow_list_rerun [OF h]
  from t e have n: "\<not> compressible ''app.js.gz''" by blast
  from t have "\<exists>dir2. compressFilesInDir ?c ?d1 = Inr dir2 \<and>
            set (readdirSync dir2) = set (readdirSync ?d1)" by blast
  then have r: "\<exists>dir2. compressFilesInDir ?c ?d1 = Inr dir2 \<and>
     set (readdirSync dir2) = {''app.js'', ''logo.png'', ''app.js.gz'', ''app.js.br''}"
    by (simp add: readdirSync_def)
  from h e n r show ?thesis by blast
qed

section \<open>Properties of resolveJsDependencies\<close>

lemma list_ex_urlPath: "list_ex (\<lambda>f. urlPath f = u) jsFiles \<longleftrightarrow> u \<in> urlPath ` set jsFiles"
  by (auto simp: list_ex_iff)

lemma addDep_cases:
  "addDep publicAssetPath byBasename dep jsFiles = jsFiles \<or>
   (\<exists>depFilePath. map_of byBasename dep = Some depFilePath \<and> depFilePath \<noteq> [] \<and>
      publicAssetPath @ dep \<notin> urlPath ` set jsFiles \<and>
      addDep publicAssetPath byBasename dep jsFiles =
        jsFiles @ [\<lparr> urlPath = publicAssetPath @ dep, filePath = depFilePath, kind = Chunk \<rparr>])"
  by (auto simp: addDep_def list_ex_urlPath split: option.splits)

lemma addDep_present:
  "map_of byBasename dep = Some depFilePath \<Longrightarrow> depFilePath \<noteq> [] \<Longrightarrow>
     publicAssetPath @ dep \<in> urlPath ` set (addDep publicAssetPath byBasename dep jsFiles)"
  by (auto simp: addDep_def list_ex_urlPath)

lemma fold_addDep_appends:
  "\<exists>chunks. fold (addDep publicAssetPath byBasename) deps jsFiles = jsFiles @ chunks \<and>
      distinct (map urlPath chunks) \<and>
      (\<forall>c \<in> set chunks. kind c = Chunk \<and> urlPath c \<notin> urlPath ` set jsFiles)"
proof (induction deps arbitrary: jsFiles)
  case Nil
  then show ?case by simp
next
  case (Cons dep deps)
  let ?js1 = "addDep publicAssetPath byBasename dep jsFiles"
  from Cons.IH [of ?js1] obtain chunks where
    c: "fold (addDep publicAssetPath byBasename) deps ?js1 = ?js1 @ chunks"
       "distinct (map urlPath chunks)"
       "\<forall>c \<in> set chunks. kind c = Chunk \<and> urlPath c \<notin> urlPath ` set ?js1"
    by blast
  from addDep_cases [of publicAssetPath byBasename dep jsFiles] show ?case
  proof (elim disjE exE conjE)
    assume "?js1 = jsFiles"
    with c show ?thesis by auto
  next
    fix depFilePath
    assume n: "publicAssetPath @ dep \<notin> urlPath ` set jsFiles"
      and e: "?js1 = jsFiles @ [\<lparr> urlPath = publicAssetPath @ dep, filePath = depFilePath, kind = Chunk \<rparr>]"
    let ?new = "\<lparr> urlPath = publicAssetPath @ dep, filePath = depFilePath, kind = Chunk \<rparr>"
    have "fold (addDep publicAssetPath byBasename) (dep # deps) jsFiles = jsFiles @ (?new # chunks)"
      using c(1) e by simp
    moreover have "distinct (map urlPath (?new # chunks))"
      using c(2,3) e by auto
    moreover have "\<forall>c \<in> set (?new # chunks). kind c = Chunk \<and> urlPath c \<notin> urlPath ` set jsFiles"
      using c(3) e n by auto
    ultimately show ?thesis by blast
  qed
qed

lemma fold_addDep_mono:
  "urlPath ` set jsFiles \<subseteq> urlPath ` set (fold (addDep publicAssetPath byBasename) deps jsFiles)"
  using fold_addDep_appends [of publicAssetPath byBasename deps jsFiles] by auto

lemma fold_addDep_present:
  assumes "dep \<in> set deps" "map_of byBasename dep = Some depFilePath" "depFilePath \<noteq> []"
  shows "publicAssetPath @ dep \<in> urlPath ` set (fold (addDep publicAssetPath byBasename) deps jsFiles)"
  using assms
proof (induction deps arbitrary: jsFiles)
  case Nil
  then show ?case by simp
next
  case (Cons d deps)
  show ?case
  proof (cases "d = dep")
    case True
    have "publicAssetPath @ dep \<in> urlPath ` set (addDep publicAssetPath byBasename dep jsFiles)"
      using addDep_present [OF Cons.prems(2,3)] .
    with True show ?thesis
      using fold_addDep_mono [of "addDep publicAssetPath byBasename dep jsFiles" publicAssetPath byBasename deps]
      by auto
  next
    case False
    with Cons show ?thesis by simp
  qed
qed

lemma fold_addDep_stable:
  assumes "\<forall>dep \<in> set deps. \<forall>depFilePath. map_of byBasename dep = Some depFilePath \<and> depFilePath \<noteq> []
             \<longrightarrow> publicAssetPath @ dep \<in> urlPath ` set jsFiles"
  shows "fold (addDep publicAssetPath byBasename) deps jsFiles = jsFiles"
  using assms
proof (induction deps)
  case Nil
  then show ?case by simp
next
  case (Cons dep deps)
  then have "addDep publicAssetPath byBasename dep jsFiles = jsFiles"
    by (auto simp: addDep_def list_ex_urlPath split: option.splits)
  with Cons show ?case by simp
qed

lemma find_append_Some: "find P xs = Some x \<Longrightarrow> find P (xs @ ys) = Some x"
  by (induction xs) (auto split: if_splits)

lemma resolvePage_appends:
  "\<exists>chunks. resolvePage publicAssetPath byBasename refMap jsFiles = jsFiles @ chunks \<and>
      distinct (map urlPath chunks) \<and>
      (\<forall>c \<in> set chunks. kind c = Chunk \<and> urlPath c \<notin> urlPath ` set jsFiles)"
proof (cases "find (\<lambda>f. kind f = Entrypoint) jsFiles")
  case None
  then show ?thesis by (simp add: resolvePage_def)
next
  case (Some entrypoint)
  then show ?thesis
    using fold_addDep_appends by (simp add: resolvePage_def)
qed

lemma resolvePage_idem:
  "resolvePage publicAssetPath byBasename refMap (resolvePage publicAssetPath byBasename refMap jsFiles)
     = resolvePage publicAssetPath byBasename refMap jsFiles"
proof (cases "find (\<lambda>f. kind f = Entrypoint) jsFiles")
  case None
  then show ?thesis by (simp add: resolvePage_def)
next
  case (Some entrypoint)
  let ?deps = "collectDeps refMap (refsOf refMap (basename (urlPath entrypoint))) []"
  let ?r = "fold (addDep publicAssetPath byBasename) ?deps jsFiles"
  have r: "resolvePage publicAssetPath byBasename refMap jsFiles = ?r"
    using Some by (simp add: resolvePage_def)
  obtain chunks where c: "?r = jsFiles @ chunks"
    using fold_addDep_appends [of publicAssetPath byBasename ?deps jsFiles] by blast
  have f: "find (\<lambda>f. kind f = Entrypoint) ?r = Some entrypoint"
    unfolding c using Some by (rule find_append_Some)
  have "fold (addDep publicAssetPath byBasename) ?deps ?r = ?r"
    by (rule fold_addDep_stable) (auto intro: fold_addDep_present)
  with f show ?thesis
    unfolding r by (simp add: resolvePage_def)
qed

text \<open>
  C7: for every page, the resolved list is the page's list followed by chunks whose URL
  paths are pairwise different and none of which was in the list already, so a list without
  repeated URL paths stays so; and resolving the result once more changes no page's list.
\<close>

theorem resolveJsDependencies_dedup_idempotent:
  "list_all2
     (\<lambda>(pagePath, jsFiles) (pagePath', jsFiles').
        pagePath' = pagePath \<and>
        (\<exists>chunks. jsFiles' = jsFiles @ chunks \<and> distinct (map urlPath chunks) \<and>
           (\<forall>c \<in> set chunks. kind c = Chunk \<and> urlPath c \<notin> urlPath ` set jsFiles)) \<and>
        (distinct (map urlPath jsFiles) \<longrightarrow> distinct (map urlPath jsFiles')))
     jsByPagePath
     (resolveJsDependencies clientDistDir dir publicAssetPath jsByPagePath) \<and>
   resolveJsDependencies clientDistDir dir publicAssetPath
     (resolveJsDependencies clientDistDir dir publicAssetPath jsByPagePath)
   = resolveJsDependencies clientDistDir dir publicAssetPath jsByPagePath"
proof
  let ?B = "jsFilesByBasename clientDistDir dir"
  let ?R = "referenceMap clientDistDir publicAssetPath dir"
  have page: "(\<exists>chunks. resolvePage publicAssetPath ?B ?R jsFiles = jsFiles @ chunks \<and>
           distinct (map urlPath chunks) \<and>
           (\<forall>c \<in> set chunks. kind c = Chunk \<and> urlPath c \<notin> urlPath ` set jsFiles)) \<and>
        (distinct (map urlPath jsFiles) \<longrightarrow>
           distinct (map urlPath (resolvePage publicAssetPath ?B ?R jsFiles)))" for jsFiles
  proof -
    from resolvePage_appends [of publicAssetPath ?B ?R jsFiles] obtain chunks where
      c: "resolvePage publicAssetPath ?B ?R jsFiles = jsFiles @ chunks"
        "distinct (map urlPath chunks)"
        "\<forall>c \<in> set chunks. kind c = Chunk \<and> urlPath c \<notin> urlPath ` set jsFiles" by blast
    have "urlPath ` set jsFiles \<inter> urlPath ` set chunks = {}"
    proof (rule ccontr)
      assume "urlPath ` set jsFiles \<inter> urlPath ` set chunks \<noteq> {}"
      then obtain u where u: "u \<in> urlPath ` set jsFiles" "u \<in> urlPath ` set chunks" by blast
      from u(2) obtain c where "c \<in> set chunks" "u = urlPath c" by (rule imageE)
      with u(1) c(3) show False by simp
    qed
    with c(1,2) have "distinct (map urlPath jsFiles) \<longrightarrow>
           distinct (map urlPath (resolvePage publicAssetPath ?B ?R jsFiles))"
      by simp
    with c show ?thesis by blast
  qed
  show "list_all2
     (\<lambda>(pagePath, jsFiles) (pagePath', jsFiles').
        pagePath' = pagePath \<and>
        (\<exists>chunks. jsFiles' = jsFiles @ chunks \<and> distinct (map urlPath chunks) \<and>
           (\<forall>c \<in> set chunks. kind c = Chunk \<and> urlPath c \<notin> urlPath ` set jsFiles)) \<and>
        (distinct (map urlPath jsFiles) \<longrightarrow> distinct (map urlPath jsFiles')))
     jsByPagePath
     (resolveJsDependencies clientDistDir dir publicAssetPath jsByPagePath)"
    unfolding resolveJsDependencies_def list_all2_map2
    by (rule list_all2_refl) (use page in \<open>auto split: prod.splits\<close>)
  show "resolveJsDependencies clientDistDir dir publicAssetPath
     (resolveJsDependencies clientDistDir dir publicAssetPath jsByPagePath)
   = resolveJsDependencies clientDistDir dir publicAssetPath jsByPagePath"
    by (simp add: resolveJsDependencies_def resolvePage_idem split_def)
qed


theorem resolveJsDependencies_dedup_idempotent_witness:
  "resolveJsDependencies ''/app/dist-ssr/client''
     [(''entry-a1.js'', ''import '' @ [CHR 0x22] @ ''/dist/client/chunk-b2.js'' @ [CHR 0x22] @ '';''),
      (''chunk-b2.js'', ''import '' @ [CHR 0x22] @ ''/dist/client/chunk-c3.js'' @ [CHR 0x22] @ '';''),
      (''chunk-c3.js'', ''import '' @ [CHR 0x22] @ ''/dist/client/chunk-b2.js'' @ [CHR 0x22] @ '';'')]
     ''/dist/client/''
     [(''/ssr'', [\<lparr> urlPath = ''/dist/client/entry-a1.js'',
                    filePath = ''/app/dist-ssr/client/entry-a1.js'', kind = Entrypoint \<rparr>])]
   = [(''/ssr'', [\<lparr> urlPath = ''/dist/client/entry-a1.js'',
                    filePath = ''/app/dist-ssr/client/entry-a1.js'', kind = Entrypoint \<rparr>,
                  \<lparr> urlPath = ''/dist/client/chunk-b2.js'',
                    filePath = ''/app/dist-ssr/client/chunk-b2.js'', kind = Chunk \<rparr>,
                  \<lparr> urlPath = ''/dist/client/chunk-c3.js'',
                    filePath = ''/app/dist-ssr/client/chunk-c3.js'', kind = Chunk \<rparr>])] \<and>
   resolveJsDependencies ''/app/dist-ssr/client''
     [(''entry-a1.js'', ''import '' @ [CHR 0x22] @ ''/dist/client/chunk-b2.js'' @ [CHR 0x22] @ '';''),
      (''chunk-b2.js'', ''import '' @ [CHR 0x22] @ ''/dist/client/chunk-c3.js'' @ [CHR 0x22] @ '';''),
      (''chunk-c3.js'', ''import '' @ [CHR 0x22] @ ''/dist/client/chunk-b2.js'' @ [CHR 0x22] @ '';'')]
     ''/dist/client/''
     [(''/ssr'', [\<lparr> urlPath = ''/dist/client/entry-a1.js'',
                    filePath = ''/app/dist-ssr/client/entry-a1.js'', kind = Entrypoint \<rparr>,
                  \<lparr> urlPath = ''/dist/client/chunk-b2.js'',
                    filePath = ''/app/dist-ssr/client/chunk-b2.js'', kind = Chunk \<rparr>,
                  \<lparr> urlPath = ''/dist/client/chunk-c3.js'',
                    filePath = ''/app/dist-ssr/client/chunk-c3.js'', kind = Chunk \<rparr>])]
   = [(''/ssr'', [\<lparr> urlPath = ''/dist/client/entry-a1.js'',
                    filePath = ''/app/dist-ssr/client/entry-a1.js'', kind = Entrypoint \<rparr>,
                  \<lparr> urlPath = ''/dist/client/chunk-b2.js'',
                    filePath = ''/app/dist-ssr/client/chunk-b2.js'', kind = Chunk \<rparr>,
                  \<lparr> urlPath = ''/dist/client/chunk-c3.js'',
                    filePath = ''/app/dist-ssr/client/chunk-c3.js'', kind = Chunk \<rparr>])]"
proof -
  let ?dir = "[(''entry-a1.js'', ''import '' @ [CHR 0x22] @ ''/dist/client/chunk-b2.js'' @ [CHR 0x22] @ '';''),
      (''chunk-b2.js'', ''import '' @ [CHR 0x22] @ ''/dist/client/chunk-c3.js'' @ [CHR 0x22] @ '';''),
      (''chunk-c3.js'', ''import '' @ [CHR 0x22] @ ''/dist/client/chunk-b2.js'' @ [CHR 0x22] @ '';'')]"
  let ?js = "[(''/ssr'', [\<lparr> urlPath = ''/dist/client/entry-a1.js'',
                    filePath = ''/app/dist-ssr/client/entry-a1.js'', kind = Entrypoint \<rparr>])]"
  let ?js' = "[(''/ssr'', [\<lparr> urlPath = ''/dist/client/entry-a1.js'',
                    filePath = ''/app/dist-ssr/client/entry-a1.js'', kind = Entrypoint \<rparr>,
                  \<lparr> urlPath = ''/dist/client/chunk-b2.js'',
                    filePath = ''/app/dist-ssr/client/chunk-b2.js'', kind = Chunk \<rparr>,
                  \<lparr> urlPath = ''/dist/client/chunk-c3.js'',
                    filePath = ''/app/dist-ssr/client/chunk-c3.js'', kind = Chunk \<rparr>])]"
  have h: "resolveJsDependencies ''/app/dist-ssr/client'' ?dir ''/dist/client/'' ?js = ?js'"
    by code_simp
  have "resolveJsDependencies ''/app/dist-ssr/client'' ?dir ''/dist/client/''
          (resolveJsDependencies ''/app/dist-ssr/client'' ?dir ''/dist/client/'' ?js)
        = resolveJsDependencies ''/app/dist-ssr/client'' ?dir ''/dist/client/'' ?js"
    using resolveJsDependencies_dedup_idempotent [of ?js "''/app/dist-ssr/client''" ?dir "''/dist/client/''"]
    by (rule conjunct2)
  then have "resolveJsDependencies ''/app/dist-ssr/client'' ?dir ''/dist/client/'' ?js' = ?js'"
    unfolding h .
  with h show ?thesis by (rule conjI)
qed

text \<open>
  Under the public path of \<^verbatim>\<open>ssrBundle\<close>, \<^verbatim>\<open>/dist/client/\<close>, joining and concatenating
  give the same pattern for every file name (a name without a slash, other than the
  empty name, \<^verbatim>\<open>.\<close> and \<^verbatim>\<open>..\<close>).
\<close>

lemma split_no_separator: "c \<notin> set s \<Longrightarrow> split c s = [s]"
  by (induction s) auto

lemma path_join_PUBLIC_ASSET_PATH:
  assumes "CHR ''/'' \<notin> set name" "name \<noteq> []" "name \<noteq> ''.''" "name \<noteq> ''..''"
  shows "path_join PUBLIC_ASSET_PATH name = PUBLIC_ASSET_PATH @ name"
proof -
  define joined where "joined = ''/dist/client//'' @ name"
  have l: "last name \<noteq> CHR ''/''"
    using assms(1,2) last_in_set by metis
  have s: "split CHR ''/'' joined = [[], ''dist'', ''client'', [], name]"
    unfolding joined_def using split_no_separator [OF assms(1)] by simp
  have n: "normalizeSegments False [] (split CHR ''/'' joined) = [''dist'', ''client'', name]"
    unfolding s using assms(2,3,4) by simp
  have j: "join ''/'' [''dist'', ''client'', name] = ''dist/client/'' @ name"
    by simp
  have f: "joined \<noteq> []" "hd joined = CHR ''/''" "last joined \<noteq> CHR ''/''"
    unfolding joined_def using assms(2) l by simp_all
  have "normalize joined = ''/'' @ (''dist/client/'' @ name) @ []"
    unfolding normalize_def Let_def
    by (simp only: f n j if_False if_True not_True_eq_False simp_thms) simp
  then have "normalize joined = ''/dist/client/'' @ name" by simp
  moreover have "path_join PUBLIC_ASSET_PATH name = normalize joined"
    using assms(2) by (simp add: path_join_def PUBLIC_ASSET_PATH_def joined_def)
  ultimately show ?thesis by (simp add: PUBLIC_ASSET_PATH_def)
qed

lemma staticallyReferences_PUBLIC_ASSET_PATH:
  assumes "CHR ''/'' \<notin> set name" "name \<noteq> []" "name \<noteq> ''.''" "name \<noteq> ''..''"
  shows "staticallyReferences PUBLIC_ASSET_PATH content name \<longleftrightarrow>
           includes_str content (PUBLIC_ASSET_PATH @ name) \<and>
           \<not> dynamicallyImportsFile content (PUBLIC_ASSET_PATH @ name)"
  by (simp add: staticallyReferences_def searchPattern_def referencesFile_def
      path_join_PUBLIC_ASSET_PATH [OF assms])

text \<open>
  C3 takes the searched substring to be \<^verbatim>\<open>publicAssetPath + basename(B)\<close>.  The code searches
  for \<^verbatim>\<open>path.join(publicAssetPath, otherBasename)\<close>, a normalised file-system path, and
  builds the URL of an added chunk as \<^verbatim>\<open>publicAssetPath + depBasename\<close>.  The two differ as
  soon as the public path is a URL or lacks its final slash.  With the public path
  \<^verbatim>\<open>https://cdn.io/\<close> the text of \<^verbatim>\<open>a.js\<close> contains \<^verbatim>\<open>https://cdn.io/b.js\<close>, not wrapped in a
  dynamic import, and no reference is recorded (the pattern searched is
  \<^verbatim>\<open>https:/cdn.io/b.js\<close>), so \<^verbatim>\<open>b.js\<close> is missing from the page.  With the public path
  \<^verbatim>\<open>/assets\<close> the text contains \<^verbatim>\<open>/assets/b.js\<close> but not \<^verbatim>\<open>/assetsb.js\<close>, and a reference is
  recorded.
\<close>

theorem referenceMap_path_join_divergence:
  "includes_str (''import '' @ [CHR 0x22] @ ''https://cdn.io/b.js'' @ [CHR 0x22] @ '';'')
     (''https://cdn.io/'' @ basename ''b.js'') \<and>
   \<not> dynamicallyImportsFile (''import '' @ [CHR 0x22] @ ''https://cdn.io/b.js'' @ [CHR 0x22] @ '';'')
     (''https://cdn.io/'' @ basename ''b.js'') \<and>
   referenceMap ''dist'' ''https://cdn.io/''
     [(''a.js'', ''import '' @ [CHR 0x22] @ ''https://cdn.io/b.js'' @ [CHR 0x22] @ '';''),
      (''b.js'', ''export {};'')]
   = [(''a.js'', []), (''b.js'', [])] \<and>
   resolveJsDependencies ''dist''
     [(''a.js'', ''import '' @ [CHR 0x22] @ ''https://cdn.io/b.js'' @ [CHR 0x22] @ '';''),
      (''b.js'', ''export {};'')]
     ''https://cdn.io/''
     [(''a.js'', [\<lparr> urlPath = ''https://cdn.io/a.js'', filePath = ''dist/a.js'', kind = Entrypoint \<rparr>])]
   = [(''a.js'', [\<lparr> urlPath = ''https://cdn.io/a.js'', filePath = ''dist/a.js'', kind = Entrypoint \<rparr>])] \<and>
   \<not> includes_str (''import '' @ [CHR 0x22] @ ''/assets/b.js'' @ [CHR 0x22] @ '';'')
     (''/assets'' @ basename ''b.js'') \<and>
   referenceMap ''dist'' ''/assets''
     [(''a.js'', ''import '' @ [CHR 0x22] @ ''/assets/b.js'' @ [CHR 0x22] @ '';''),
      (''b.js'', ''export {};'')]
   = [(''a.js'', [''b.js'']), (''b.js'', [])]"
  by code_simp

section \<open>Properties of the export deduplicator\<close>

lemma promiseAll_map_Inr: "promiseAll (map Inr xs) = Inr xs"
  by (induction xs) simp_all

lemma fixFileCatching_fst:
  "fst (fixFileCatching parse canWrite dirPath dir file) = Inr (fileEntry parse canWrite dirPath dir file)"
  by (simp add: fixFileCatching_def fileEntry_def split: sum.splits prod.splits)

lemma fileEntry_cong:
  "map_of dir file = map_of dir' file \<Longrightarrow>
     fileEntry parse canWrite dirPath dir file = fileEntry parse canWrite dirPath dir' file"
  by (auto simp: fileEntry_def fixDuplicateExportsInFile_def bindE_def
      split: option.splits sum.splits)

lemma fixFileCatching_frame:
  "g \<noteq> file \<Longrightarrow> map_of (snd (fixFileCatching parse canWrite dirPath dir file)) g = map_of dir g"
  by (auto simp: fixFileCatching_def fixDuplicateExportsInFile_def bindE_def writeFileSync_def
      update_conv' split: option.splits sum.splits if_splits)

lemma fixFiles_Cons_fst:
  "fst (fixFiles parse canWrite dirPath (f # files) dir) =
     fst (fixFileCatching parse canWrite dirPath dir f) #
     fst (fixFiles parse canWrite dirPath files (snd (fixFileCatching parse canWrite dirPath dir f)))"
  by (simp split: prod.splits)

lemma fixFiles_Cons_snd:
  "snd (fixFiles parse canWrite dirPath (f # files) dir) =
     snd (fixFiles parse canWrite dirPath files (snd (fixFileCatching parse canWrite dirPath dir f)))"
  by (simp split: prod.splits)

lemma fixFiles_outcomes:
  "distinct files \<Longrightarrow>
     fst (fixFiles parse canWrite dirPath files dir)
       = map (\<lambda>file. Inr (fileEntry parse canWrite dirPath dir file)) files"
proof (induction files arbitrary: dir)
  case Nil
  then show ?case by simp
next
  case (Cons f files)
  let ?d1 = "snd (fixFileCatching parse canWrite dirPath dir f)"
  have "fileEntry parse canWrite dirPath ?d1 g = fileEntry parse canWrite dirPath dir g"
    if "g \<in> set files" for g
  proof (rule fileEntry_cong)
    from that Cons.prems have "g \<noteq> f" by auto
    then show "map_of ?d1 g = map_of dir g" by (rule fixFileCatching_frame)
  qed
  then have "map (\<lambda>file. Inr (fileEntry parse canWrite dirPath ?d1 file)) files
           = map (\<lambda>file. Inr (fileEntry parse canWrite dirPath dir file)) files"
    by simp
  moreover have "fst (fixFiles parse canWrite dirPath files ?d1)
       = map (\<lambda>file. Inr (fileEntry parse canWrite dirPath ?d1 file)) files"
    using Cons by simp
  ultimately show ?case
    unfolding fixFiles_Cons_fst fixFileCatching_fst by simp
qed

lemma fixFiles_all_Inr:
  "\<exists>results. fst (fixFiles parse canWrite dirPath files dir) = map Inr results \<and>
      map resultFilePath results = map (path_join dirPath) files \<and>
      (\<forall>r \<in> set results. resultError r \<noteq> None \<longrightarrow> \<not> wasFixed r)"
proof (induction files arbitrary: dir)
  case Nil
  then show ?case by simp
next
  case (Cons f files)
  let ?d1 = "snd (fixFileCatching parse canWrite dirPath dir f)"
  from Cons [of ?d1] obtain results where
    r: "fst (fixFiles parse canWrite dirPath files ?d1) = map Inr results"
       "map resultFilePath results = map (path_join dirPath) files"
       "\<forall>r \<in> set results. resultError r \<noteq> None \<longrightarrow> \<not> wasFixed r"
    by blast
  let ?e = "fileEntry parse canWrite dirPath dir f"
  have e: "resultFilePath ?e = path_join dirPath f" "resultError ?e \<noteq> None \<longrightarrow> \<not> wasFixed ?e"
    by (auto simp: fileEntry_def split: sum.splits)
  have "fst (fixFiles parse canWrite dirPath (f # files) dir) = map Inr (?e # results)"
    unfolding fixFiles_Cons_fst fixFileCatching_fst r(1) by simp
  moreover have "map resultFilePath (?e # results) = map (path_join dirPath) (f # files)"
    using r(2) e(1) by simp
  moreover have "\<forall>r \<in> set (?e # results). resultError r \<noteq> None \<longrightarrow> \<not> wasFixed r"
    using r(3) e(2) by simp
  ultimately show ?case by blast
qed

lemma distinct_scanJs: "distinct (map fst dir) \<Longrightarrow> distinct (map fst (scanJs dir))"
  unfolding scanJs_def by (rule distinct_map_filter)

lemma fixFileCatching_self:
  "map_of dir file = Some code \<Longrightarrow>
     map_of (snd (fixFileCatching parse canWrite dirPath dir file)) file
       = Some (fileText parse canWrite dirPath file code)"
  by (auto simp: fixFileCatching_def fixDuplicateExportsInFile_def bindE_def writeFileSync_def
      fileText_def update_conv' split: option.splits sum.splits if_splits)

lemma fixFileCatching_keys:
  "map fst (snd (fixFileCatching parse canWrite dirPath dir file)) = map fst dir"
proof (cases "map_of dir file")
  case None
  then show ?thesis
    by (simp add: fixFileCatching_def fixDuplicateExportsInFile_def)
next
  case (Some code)
  then have "(file, code) \<in> set dir" by (rule map_of_SomeD)
  then have "file \<in> fst ` set dir" by force
  then have "map fst (AList.update file result dir) = map fst dir" for result
    by (simp add: update_keys)
  with Some show ?thesis
    by (auto simp: fixFileCatching_def fixDuplicateExportsInFile_def bindE_def writeFileSync_def
        split: option.splits sum.splits if_splits)
qed

lemma fixFiles_keys:
  "map fst (snd (fixFiles parse canWrite dirPath files dir)) = map fst dir"
proof (induction files arbitrary: dir)
  case Nil
  then show ?case by simp
next
  case (Cons f files)
  show ?case
    unfolding fixFiles_Cons_snd Cons fixFileCatching_keys ..
qed

lemma fixFiles_content:
  "distinct files \<Longrightarrow> map_of dir g = Some code \<Longrightarrow>
     map_of (snd (fixFiles parse canWrite dirPath files dir)) g
       = Some (if g \<in> set files then fileText parse canWrite dirPath g code else code)"
proof (induction files arbitrary: dir code)
  case Nil
  then show ?case by simp
next
  case (Cons f files)
  let ?d1 = "snd (fixFileCatching parse canWrite dirPath dir f)"
  from Cons.prems have d: "distinct files" and nf: "f \<notin> set files" by simp_all
  show ?case
  proof (cases "g = f")
    case True
    with Cons.prems have "map_of ?d1 g = Some (fileText parse canWrite dirPath g code)"
      by (simp add: fixFileCatching_self)
    from Cons.IH [OF d this] True nf show ?thesis
      unfolding fixFiles_Cons_snd by simp
  next
    case False
    then have "map_of ?d1 g = map_of dir g" by (rule fixFileCatching_frame)
    with Cons.prems have "map_of ?d1 g = Some code" by simp
    from Cons.IH [OF d this] False show ?thesis
      unfolding fixFiles_Cons_snd by simp
  qed
qed

lemma fixDuplicateExportsInDirectory_batch:
  "\<exists>report dir'.
     fixDuplicateExportsInDirectory parse canWrite dirPath dir = Inr (report, dir') \<and>
     (scanJs dir = [] \<longrightarrow> report = NoJsFiles \<and> dir' = dir) \<and>
     (scanJs dir \<noteq> [] \<longrightarrow>
        (\<exists>results. report = Report results \<and>
           map resultFilePath results = map (path_join dirPath) (map fst (scanJs dir)) \<and>
           (\<forall>r \<in> set results. resultError r \<noteq> None \<longrightarrow> \<not> wasFixed r) \<and>
           map fst dir' = map fst dir \<and>
           (distinct (map fst dir) \<longrightarrow>
              results =
                map (fileEntry parse canWrite dirPath dir) (map fst (scanJs dir)) \<and>
              (\<forall>file code. map_of dir file = Some code \<longrightarrow>
                 map_of dir' file =
                   Some (if file \<in> set (map fst (scanJs dir))
                         then fileText parse canWrite dirPath file code else code)))))"
proof (cases "scanJs dir = []")
  case True
  then show ?thesis by (simp add: fixDuplicateExportsInDirectory_def)
next
  case False
  let ?files = "map fst (scanJs dir)"
  obtain outcomes dir' where o: "fixFiles parse canWrite dirPath ?files dir = (outcomes, dir')"
    by (cases "fixFiles parse canWrite dirPath ?files dir")
  from fixFiles_all_Inr [of parse canWrite dirPath ?files dir] o obtain results where
    r: "outcomes = map Inr results"
       "map resultFilePath results = map (path_join dirPath) ?files"
       "\<forall>r \<in> set results. resultError r \<noteq> None \<longrightarrow> \<not> wasFixed r"
    by auto
  have run: "fixDuplicateExportsInDirectory parse canWrite dirPath dir = Inr (Report results, dir')"
    using False o r(1) by (simp add: fixDuplicateExportsInDirectory_def bindE_def promiseAll_map_Inr)
  have keys: "map fst dir' = map fst dir"
    using fixFiles_keys [of parse canWrite dirPath ?files dir] unfolding o by simp
  have entries: "results = map (fileEntry parse canWrite dirPath dir) ?files"
    if "distinct (map fst dir)"
  proof -
    from that have "distinct ?files" by (rule distinct_scanJs)
    have "outcomes = map (\<lambda>file. Inr (fileEntry parse canWrite dirPath dir file)) ?files"
      using fixFiles_outcomes [OF \<open>distinct ?files\<close>, of parse canWrite dirPath dir]
      unfolding o by (simp only: fst_conv)
    also have "\<dots> = map Inr (map (fileEntry parse canWrite dirPath dir) ?files)"
      by (simp only: map_map comp_def)
    finally have "outcomes = map Inr (map (fileEntry parse canWrite dirPath dir) ?files)" .
    with r(1) show ?thesis
      by (simp only: inj_map_eq_map [OF inj_Inr])
  qed
  have texts: "map_of dir' g =
      Some (if g \<in> set ?files then fileText parse canWrite dirPath g code else code)"
    if "distinct (map fst dir)" and "map_of dir g = Some code" for g code
  proof -
    from that(1) have "distinct ?files" by (rule distinct_scanJs)
    from fixFiles_content [OF this that(2), of parse canWrite dirPath] show ?thesis
      unfolding o by (simp only: snd_conv)
  qed
  from run r False keys entries texts show ?thesis
    by blast
qed

text \<open>
  C9: for every directory, lexer and write permission, the batch returns normally.  When
  the scan finds files, the report has one entry per scanned file, in order, no entry
  with an error counts as fixed, and no file is created or removed.  The names of a
  directory being distinct, the entry of a file is what fixing that file alone gives (its
  error when it throws, its \<^verbatim>\<open>wasFixed\<close> otherwise), and every scanned file holds
  afterwards what its own fix writes (the fixed text when the lexer accepts the file,
  there is something to fix and the write succeeds, its old text otherwise), whatever
  happens to the other files; a file that is not scanned keeps its text.
\<close>

theorem fixDuplicateExportsInDirectory_isolates_errors:
  "\<exists>report dir'.
     fixDuplicateExportsInDirectory parse canWrite dirPath dir = Inr (report, dir') \<and>
     (scanJs dir = [] \<longrightarrow> report = NoJsFiles \<and> dir' = dir) \<and>
     (scanJs dir \<noteq> [] \<longrightarrow>
        (\<exists>results. report = Report results \<and>
           map resultFilePath results = map (path_join dirPath) (map fst (scanJs dir)) \<and>
           (\<forall>r \<in> set results. resultError r \<noteq> None \<longrightarrow> \<not> wasFixed r) \<and>
           map fst dir' = map fst dir \<and>
           (distinct (map fst dir) \<longrightarrow>
              results =
                map (\<lambda>file.
                       case fixDuplicateExportsInFile parse canWrite dirPath dir file of
                         Inr (fixed, d) \<Rightarrow>
                           \<lparr> resultFilePath = path_join dirPath file, wasFixed = fixed,
                             resultError = None \<rparr>
                       | Inl e \<Rightarrow>
                           \<lparr> resultFilePath = path_join dirPath file, wasFixed = False,
                             resultError = Some e \<rparr>)
                  (map fst (scanJs dir)) \<and>
              (\<forall>file code. map_of dir file = Some code \<longrightarrow>
                 map_of dir' file =
                   Some (if file \<in> set (map fst (scanJs dir)) then
                           (case parse code of
                              Inl e \<Rightarrow> code
                            | Inr exports \<Rightarrow>
                                (case fixDuplicateExports code exports of
                                   None \<Rightarrow> code
                                 | Some result \<Rightarrow>
                                     if canWrite (path_join dirPath file) then result else code))
                         else code)))))"
  using fixDuplicateExportsInDirectory_batch [of parse canWrite dirPath dir]
  unfolding fileEntry_def fileText_def .

theorem fixDuplicateExportsInDirectory_isolates_errors_witness:
  "\<exists>report dir'.
     fixDuplicateExportsInDirectory
       (\<lambda>code. if code = ''export {'' then Inl (LexerError ''Parse error'')
               else if code = ''export { foo }; export { foo };''
               then Inr [\<lparr> exportName = Some ''foo'', exportStart = 9 \<rparr>,
                         \<lparr> exportName = Some ''foo'', exportStart = 25 \<rparr>]
               else Inr [\<lparr> exportName = Some ''foo'', exportStart = 9 \<rparr>])
       (\<lambda>path. path \<noteq> ''dist/c.js'') ''dist''
       [(''a.js'', ''export {''), (''b.js'', ''export { foo }; export { foo };''),
        (''c.js'', ''export { foo }; export { foo };''), (''d.js'', ''export { foo };''),
        (''notes.txt'', ''export { foo }; export { foo };'')]
     = Inr (report, dir') \<and>
     report = Report
       [\<lparr> resultFilePath = ''dist/a.js'', wasFixed = False,
          resultError = Some (LexerError ''Parse error'') \<rparr>,
        \<lparr> resultFilePath = ''dist/b.js'', wasFixed = True, resultError = None \<rparr>,
        \<lparr> resultFilePath = ''dist/c.js'', wasFixed = False,
          resultError = Some (WriteFailed ''dist/c.js'') \<rparr>,
        \<lparr> resultFilePath = ''dist/d.js'', wasFixed = False, resultError = None \<rparr>] \<and>
     filesFixed report = 1 \<and> errorCount report = 2 \<and>
     map fst dir' = [''a.js'', ''b.js'', ''c.js'', ''d.js'', ''notes.txt''] \<and>
     map_of dir' ''a.js'' = Some ''export {'' \<and>
     map_of dir' ''b.js'' = Some ''export { foo }; '' \<and>
     map_of dir' ''c.js'' = Some ''export { foo }; export { foo };'' \<and>
     map_of dir' ''d.js'' = Some ''export { foo };'' \<and>
     map_of dir' ''notes.txt'' = Some ''export { foo }; export { foo };''"
proof -
  let ?parse = "\<lambda>code. if code = ''export {'' then Inl (LexerError ''Parse error'')
               else if code = ''export { foo }; export { foo };''
               then Inr [\<lparr> exportName = Some ''foo'', exportStart = 9 \<rparr>,
                         \<lparr> exportName = Some ''foo'', exportStart = 25 \<rparr>]
               else Inr [\<lparr> exportName = Some ''foo'', exportStart = 9 \<rparr>]"
  let ?canWrite = "\<lambda>path. path \<noteq> ''dist/c.js''"
  let ?dir = "[(''a.js'', ''export {''), (''b.js'', ''export { foo }; export { foo };''),
        (''c.js'', ''export { foo }; export { foo };''), (''d.js'', ''export { foo };''),
        (''notes.txt'', ''export { foo }; export { foo };'')]"
  let ?entry = "\<lambda>file.
                       case fixDuplicateExportsInFile ?parse ?canWrite ''dist'' ?dir file of
                         Inr (fixed, d) \<Rightarrow>
                           \<lparr> resultFilePath = path_join ''dist'' file, wasFixed = fixed,
                             resultError = None \<rparr>
                       | Inl e \<Rightarrow>
                           \<lparr> resultFilePath = path_join ''dist'' file, wasFixed = False,
                             resultError = Some e \<rparr>"
  let ?text = "\<lambda>file code.
                   (if file \<in> set (map fst (scanJs ?dir)) then
                           (case ?parse code of
                              Inl e \<Rightarrow> code
                            | Inr exports \<Rightarrow>
                                (case fixDuplicateExports code exports of
                                   None \<Rightarrow> code
                                 | Some result \<Rightarrow>
                                     if ?canWrite (path_join ''dist'' file) then result else code))
                         else code)"
  let ?results = "[\<lparr> resultFilePath = ''dist/a.js'', wasFixed = False,
          resultError = Some (LexerError ''Parse error'') \<rparr>,
        \<lparr> resultFilePath = ''dist/b.js'', wasFixed = True, resultError = None \<rparr>,
        \<lparr> resultFilePath = ''dist/c.js'', wasFixed = False,
          resultError = Some (WriteFailed ''dist/c.js'') \<rparr>,
        \<lparr> resultFilePath = ''dist/d.js'', wasFixed = False, resultError = None \<rparr>]"
  have s: "scanJs ?dir \<noteq> []" by code_simp
  have d: "distinct (map fst ?dir)" by simp
  have ev: "map ?entry (map fst (scanJs ?dir)) = ?results"
    by code_simp
  have m: "map_of ?dir ''a.js'' = Some ''export {''"
    "map_of ?dir ''b.js'' = Some ''export { foo }; export { foo };''"
    "map_of ?dir ''c.js'' = Some ''export { foo }; export { foo };''"
    "map_of ?dir ''d.js'' = Some ''export { foo };''"
    "map_of ?dir ''notes.txt'' = Some ''export { foo }; export { foo };''"
    by simp_all
  have t: "?text ''a.js'' ''export {'' = ''export {''"
    "?text ''b.js'' ''export { foo }; export { foo };'' = ''export { foo }; ''"
    "?text ''c.js'' ''export { foo }; export { foo };'' = ''export { foo }; export { foo };''"
    "?text ''d.js'' ''export { foo };'' = ''export { foo };''"
    "?text ''notes.txt'' ''export { foo }; export { foo };'' = ''export { foo }; export { foo };''"
    by code_simp+
  from fixDuplicateExportsInDirectory_isolates_errors [of ?parse ?canWrite "''dist''" ?dir]
  obtain report dir' where
    run: "fixDuplicateExportsInDirectory ?parse ?canWrite ''dist'' ?dir = Inr (report, dir')"
    and rest: "scanJs ?dir \<noteq> [] \<longrightarrow>
        (\<exists>results. report = Report results \<and>
           map resultFilePath results = map (path_join ''dist'') (map fst (scanJs ?dir)) \<and>
           (\<forall>r \<in> set results. resultError r \<noteq> None \<longrightarrow> \<not> wasFixed r) \<and>
           map fst dir' = map fst ?dir \<and>
           (distinct (map fst ?dir) \<longrightarrow>
              results = map ?entry (map fst (scanJs ?dir)) \<and>
              (\<forall>file code. map_of ?dir file = Some code \<longrightarrow>
                 map_of dir' file = Some (?text file code))))"
    by blast
  from rest s d have rep: "report = Report (map ?entry (map fst (scanJs ?dir)))"
    and keys: "map fst dir' = map fst ?dir"
    and texts: "\<And>file code. map_of ?dir file = Some code \<Longrightarrow>
                 map_of dir' file = Some (?text file code)"
    by blast+
  from rep have rep': "report = Report ?results" unfolding ev .
  have c: "filesFixed report = 1" "errorCount report = 2" unfolding rep' by simp_all
  have k: "map fst dir' = [''a.js'', ''b.js'', ''c.js'', ''d.js'', ''notes.txt'']"
    using keys by simp
  note f = texts [OF m(1), unfolded t(1)] texts [OF m(2), unfolded t(2)]
    texts [OF m(3), unfolded t(3)] texts [OF m(4), unfolded t(4)] texts [OF m(5), unfolded t(5)]
  show ?thesis
    by (intro exI conjI)
      (rule run, rule rep', rule c(1), rule c(2), rule k, rule f(1), rule f(2), rule f(3),
       rule f(4), rule f(5))
qed

lemma plan_no_duplicates:
  assumes "distinct (concat (map stmtNames stmts))"
    and "set (concat (map stmtNames stmts)) \<inter> set seen = {}"
  shows "fold (planStatement originalCode) stmts (seen, toRemove, namesToRemove)
           = (seen @ concat (map stmtNames stmts), toRemove, namesToRemove)"
  using assms
proof (induction stmts arbitrary: seen)
  case Nil
  then show ?case by simp
next
  case (Cons stmt stmts)
  from Cons.prems(2) have "filter (\<lambda>name. name \<in> set seen) (stmtNames stmt) = []"
    by (auto simp: filter_empty_conv)
  then have step: "planStatement originalCode stmt (seen, toRemove, namesToRemove)
                     = (seen @ stmtNames stmt, toRemove, namesToRemove)"
    by (simp add: planStatement_def)
  have "distinct (concat (map stmtNames stmts))"
    and "set (concat (map stmtNames stmts)) \<inter> set (seen @ stmtNames stmt) = {}"
    using Cons.prems by auto
  from Cons.IH [OF this] step show ?case by simp
qed

lemma fixDuplicateExports_no_duplicates:
  assumes "distinct (concat (map stmtNames (exportStatements originalCode exports)))"
  shows "fixDuplicateExports originalCode exports = None"
  using plan_no_duplicates [OF assms, of "[]" originalCode "[]" "[]"]
  by (simp add: fixDuplicateExports_def)

lemma fixDuplicateExportsInFile_clean:
  assumes "map_of dir file = Some code"
    and "\<forall>exports. parse code = Inr exports \<longrightarrow>
           distinct (concat (map stmtNames (exportStatements code exports)))"
  shows "fixDuplicateExportsInFile parse canWrite dirPath dir file = Inr (False, dir) \<or>
         (\<exists>e. fixDuplicateExportsInFile parse canWrite dirPath dir file = Inl e)"
proof (cases "parse code")
  case (Inl e)
  with assms(1) show ?thesis by (simp add: fixDuplicateExportsInFile_def bindE_def)
next
  case (Inr exports)
  with assms(2) have "fixDuplicateExports code exports = None"
    by (intro fixDuplicateExports_no_duplicates) simp
  with Inr assms(1) show ?thesis by (simp add: fixDuplicateExportsInFile_def bindE_def)
qed

lemma fixFileCatching_clean:
  assumes "map_of dir file = Some code"
    and "\<forall>exports. parse code = Inr exports \<longrightarrow>
           distinct (concat (map stmtNames (exportStatements code exports)))"
  shows "\<exists>r. fixFileCatching parse canWrite dirPath dir file = (Inr r, dir) \<and> \<not> wasFixed r"
  using assms fixDuplicateExportsInFile_clean [of dir "file" code parse canWrite dirPath]
  by (auto simp: fixFileCatching_def)

lemma fixFiles_clean:
  assumes "\<forall>file \<in> set files. \<exists>code. map_of dir file = Some code \<and>
             (\<forall>exports. parse code = Inr exports \<longrightarrow>
                distinct (concat (map stmtNames (exportStatements code exports))))"
  shows "\<exists>results. fixFiles parse canWrite dirPath files dir = (map Inr results, dir) \<and>
           (\<forall>r \<in> set results. \<not> wasFixed r)"
  using assms
proof (induction files)
  case Nil
  then show ?case by simp
next
  case (Cons f files)
  then obtain code where c: "map_of dir f = Some code"
    "\<forall>exports. parse code = Inr exports \<longrightarrow>
       distinct (concat (map stmtNames (exportStatements code exports)))"
    by auto
  from c fixFileCatching_clean [of dir f code parse canWrite dirPath] obtain r where
    r: "fixFileCatching parse canWrite dirPath dir f = (Inr r, dir)" "\<not> wasFixed r"
    by blast
  from Cons obtain results where
    rs: "fixFiles parse canWrite dirPath files dir = (map Inr results, dir)"
      "\<forall>r \<in> set results. \<not> wasFixed r"
    by auto
  have "fixFiles parse canWrite dirPath (f # files) dir = (map Inr (r # results), dir)"
    using r(1) rs(1) by simp
  moreover have "\<forall>x \<in> set (r # results). \<not> wasFixed x" using r(2) rs(2) by simp
  ultimately show ?case by blast
qed

lemma scanJs_map_of:
  "file \<in> set (map fst (scanJs dir)) \<Longrightarrow>
     \<exists>code. map_of dir file = Some code \<and> (file, code) \<in> set (scanJs dir)"
proof -
  assume "file \<in> set (map fst (scanJs dir))"
  then have m: "matchesJsGlob file" and "file \<in> fst ` set dir"
    by (auto simp: scanJs_def)
  then obtain code where c: "map_of dir file = Some code"
    by (cases "map_of dir file") (auto simp: map_of_eq_None_iff)
  then have "(file, code) \<in> set dir" by (rule map_of_SomeD)
  with m have "(file, code) \<in> set (scanJs dir)" by (simp add: scanJs_def)
  with c show ?thesis by blast
qed

lemma fixDuplicateExportsInDirectory_clean:
  assumes "\<forall>(file, code) \<in> set (scanJs dir). \<forall>exports. parse code = Inr exports \<longrightarrow>
             distinct (concat (map stmtNames (exportStatements code exports)))"
  shows "\<exists>report. fixDuplicateExportsInDirectory parse canWrite dirPath dir = Inr (report, dir) \<and>
           filesFixed report = 0"
proof (cases "scanJs dir = []")
  case True
  then show ?thesis by (simp add: fixDuplicateExportsInDirectory_def)
next
  case False
  let ?files = "map fst (scanJs dir)"
  have "\<exists>code. map_of dir f = Some code \<and>
             (\<forall>exports. parse code = Inr exports \<longrightarrow>
                distinct (concat (map stmtNames (exportStatements code exports))))"
    if "f \<in> set ?files" for f
    using scanJs_map_of [OF that] assms by fastforce
  then have "\<forall>f \<in> set ?files. \<exists>code. map_of dir f = Some code \<and>
             (\<forall>exports. parse code = Inr exports \<longrightarrow>
                distinct (concat (map stmtNames (exportStatements code exports))))"
    by blast
  from fixFiles_clean [OF this, of canWrite dirPath] obtain results where
    rs: "fixFiles parse canWrite dirPath ?files dir = (map Inr results, dir)"
      "\<forall>r \<in> set results. \<not> wasFixed r"
    by blast
  have run: "fixDuplicateExportsInDirectory parse canWrite dirPath dir = Inr (Report results, dir)"
    using False rs(1)
    by (simp only: fixDuplicateExportsInDirectory_def Let_def bindE_def promiseAll_map_Inr
        map_is_Nil_conv if_False prod.case sum.case)
  have "filter wasFixed results = []" using rs(2) by (simp add: filter_empty_conv)
  then have "filesFixed (Report results) = 0" by simp
  with run show ?thesis by blast
qed

text \<open>
  C2, amended.  The names of a directory being distinct, a scanned file that the lexer
  accepts and that names no export twice within its own export statements (as a file that
  contains \<^verbatim>\<open>export { foo };\<close> once) keeps its text and is recorded as not fixed, whatever
  the other files contain: the same export in another file does not count.  When no
  scanned file that the lexer accepts names an export twice within itself, the run changes
  no file and reports zero files fixed, and so does a second run.
\<close>

theorem fixDuplicateExportsInDirectory_per_file:
  "\<exists>report dir'.
     fixDuplicateExportsInDirectory parse canWrite dirPath dir = Inr (report, dir') \<and>
     (distinct (map fst dir) \<longrightarrow>
        (\<forall>file code exports.
           (file, code) \<in> set (scanJs dir) \<and> parse code = Inr exports \<and>
           distinct (concat (map stmtNames (exportStatements code exports))) \<longrightarrow>
           map_of dir' file = Some code \<and>
           (\<exists>results. report = Report results \<and> length results = length (scanJs dir) \<and>
              (\<forall>r. (file, r) \<in> set (zip (map fst (scanJs dir)) results) \<longrightarrow>
                 r = \<lparr> resultFilePath = path_join dirPath file, wasFixed = False,
                       resultError = None \<rparr>)))) \<and>
     ((\<forall>(file, code) \<in> set (scanJs dir). \<forall>exports. parse code = Inr exports \<longrightarrow>
          distinct (concat (map stmtNames (exportStatements code exports)))) \<longrightarrow>
        dir' = dir \<and> filesFixed report = 0 \<and>
        fixDuplicateExportsInDirectory parse canWrite dirPath dir' = Inr (report, dir'))"
proof -
  from fixDuplicateExportsInDirectory_batch [of parse canWrite dirPath dir] obtain report dir' where
    run: "fixDuplicateExportsInDirectory parse canWrite dirPath dir = Inr (report, dir')"
    and rest: "scanJs dir \<noteq> [] \<longrightarrow>
        (\<exists>results. report = Report results \<and>
           (distinct (map fst dir) \<longrightarrow>
              results = map (fileEntry parse canWrite dirPath dir) (map fst (scanJs dir)) \<and>
              (\<forall>file code. map_of dir file = Some code \<longrightarrow>
                 map_of dir' file =
                   Some (if file \<in> set (map fst (scanJs dir))
                         then fileText parse canWrite dirPath file code else code))))"
    by blast
  have one: "map_of dir' f = Some code \<and>
           (\<exists>results. report = Report results \<and> length results = length (scanJs dir) \<and>
              (\<forall>r. (f, r) \<in> set (zip (map fst (scanJs dir)) results) \<longrightarrow>
                 r = \<lparr> resultFilePath = path_join dirPath f, wasFixed = False,
                       resultError = None \<rparr>))"
    if d: "distinct (map fst dir)" and s: "(f, code) \<in> set (scanJs dir)"
      and p: "parse code = Inr exports"
      and c: "distinct (concat (map stmtNames (exportStatements code exports)))"
    for f code exports
  proof -
    from s have ne: "scanJs dir \<noteq> []" by auto
    from s have "(f, code) \<in> set dir" by (simp add: scanJs_def)
    with d have m: "map_of dir f = Some code" by (rule map_of_is_SomeI)
    from s have fin: "f \<in> set (map fst (scanJs dir))" by force
    have nofix: "fixDuplicateExports code exports = None"
      using c by (rule fixDuplicateExports_no_duplicates)
    from rest ne d obtain results where
      r: "report = Report results"
        "results = map (fileEntry parse canWrite dirPath dir) (map fst (scanJs dir))"
      and t: "\<And>g code. map_of dir g = Some code \<Longrightarrow>
                 map_of dir' g =
                   Some (if g \<in> set (map fst (scanJs dir))
                         then fileText parse canWrite dirPath g code else code)"
      by blast
    have "fileText parse canWrite dirPath f code = code"
      using p nofix by (simp add: fileText_def)
    with t [OF m] have 1: "map_of dir' f = Some code" by simp
    have e: "fileEntry parse canWrite dirPath dir f =
               \<lparr> resultFilePath = path_join dirPath f, wasFixed = False, resultError = None \<rparr>"
      using m p nofix by (simp add: fileEntry_def fixDuplicateExportsInFile_def bindE_def)
    have "r = \<lparr> resultFilePath = path_join dirPath f, wasFixed = False, resultError = None \<rparr>"
      if "(f, r) \<in> set (zip (map fst (scanJs dir)) results)" for r
      using that e unfolding r(2) by (auto simp: in_set_zip)
    moreover have "length results = length (scanJs dir)" unfolding r(2) by simp
    ultimately show ?thesis using 1 r(1) by blast
  qed
  have all: "dir' = dir \<and> filesFixed report = 0 \<and>
        fixDuplicateExportsInDirectory parse canWrite dirPath dir' = Inr (report, dir')"
    if "\<forall>(file, code) \<in> set (scanJs dir). \<forall>exports. parse code = Inr exports \<longrightarrow>
          distinct (concat (map stmtNames (exportStatements code exports)))"
    using fixDuplicateExportsInDirectory_clean [OF that, of canWrite dirPath] run by auto
  have p1: "distinct (map fst dir) \<longrightarrow>
        (\<forall>f code exports.
           (f, code) \<in> set (scanJs dir) \<and> parse code = Inr exports \<and>
           distinct (concat (map stmtNames (exportStatements code exports))) \<longrightarrow>
           map_of dir' f = Some code \<and>
           (\<exists>results. report = Report results \<and> length results = length (scanJs dir) \<and>
              (\<forall>r. (f, r) \<in> set (zip (map fst (scanJs dir)) results) \<longrightarrow>
                 r = \<lparr> resultFilePath = path_join dirPath f, wasFixed = False,
                       resultError = None \<rparr>)))"
    by (intro impI allI, elim conjE, rule one; assumption)
  have p2: "(\<forall>(file, code) \<in> set (scanJs dir). \<forall>exports. parse code = Inr exports \<longrightarrow>
          distinct (concat (map stmtNames (exportStatements code exports)))) \<longrightarrow>
        dir' = dir \<and> filesFixed report = 0 \<and>
        fixDuplicateExportsInDirectory parse canWrite dirPath dir' = Inr (report, dir')"
    by (rule impI) (rule all)
  show ?thesis
    by (intro exI conjI) (rule run, rule p1, rule p2)
qed

theorem fixDuplicateExportsInDirectory_per_file_witness:
  "(\<exists>report.
      fixDuplicateExportsInDirectory
        (\<lambda>code. if code = ''export {'' then Inl (LexerError ''Parse error'')
                else if code = ''export { foo }; export { foo };''
                then Inr [\<lparr> exportName = Some ''foo'', exportStart = 9 \<rparr>,
                          \<lparr> exportName = Some ''foo'', exportStart = 25 \<rparr>]
                else Inr [\<lparr> exportName = Some ''foo'', exportStart = 9 \<rparr>])
        (\<lambda>path. True) ''dist''
        [(''a.js'', ''export { foo };''), (''b.js'', ''export { foo };''), (''c.js'', ''export {'')]
      = Inr (report,
          [(''a.js'', ''export { foo };''), (''b.js'', ''export { foo };''), (''c.js'', ''export {'')]) \<and>
      filesFixed report = 0) \<and>
   (\<exists>report dir'.
      fixDuplicateExportsInDirectory
        (\<lambda>code. if code = ''export {'' then Inl (LexerError ''Parse error'')
                else if code = ''export { foo }; export { foo };''
                then Inr [\<lparr> exportName = Some ''foo'', exportStart = 9 \<rparr>,
                          \<lparr> exportName = Some ''foo'', exportStart = 25 \<rparr>]
                else Inr [\<lparr> exportName = Some ''foo'', exportStart = 9 \<rparr>])
        (\<lambda>path. True) ''dist''
        [(''a.js'', ''export { foo };''), (''b.js'', ''export { foo };''),
         (''c.js'', ''export { foo }; export { foo };'')]
      = Inr (report, dir') \<and>
      filesFixed report = 1 \<and>
      map_of dir' ''a.js'' = Some ''export { foo };'' \<and>
      map_of dir' ''b.js'' = Some ''export { foo };'' \<and>
      map_of dir' ''c.js'' = Some ''export { foo }; '')"
proof -
  let ?parse = "\<lambda>code. if code = ''export {'' then Inl (LexerError ''Parse error'')
                else if code = ''export { foo }; export { foo };''
                then Inr [\<lparr> exportName = Some ''foo'', exportStart = 9 \<rparr>,
                          \<lparr> exportName = Some ''foo'', exportStart = 25 \<rparr>]
                else Inr [\<lparr> exportName = Some ''foo'', exportStart = 9 \<rparr>]"
  let ?canWrite = "\<lambda>path :: string. True"
  let ?dirA = "[(''a.js'', ''export { foo };''), (''b.js'', ''export { foo };''), (''c.js'', ''export {'')]"
  let ?dirB = "[(''a.js'', ''export { foo };''), (''b.js'', ''export { foo };''),
         (''c.js'', ''export { foo }; export { foo };'')]"
  have sA: "scanJs ?dirA = ?dirA" by code_simp
  have sB: "scanJs ?dirB = ?dirB" by code_simp
  have p: "?parse ''export { foo };'' = Inr [\<lparr> exportName = Some ''foo'', exportStart = 9 \<rparr>]"
    "?parse ''export {'' = Inl (LexerError ''Parse error'')"
    by simp_all
  have e: "distinct (concat (map stmtNames
             (exportStatements ''export { foo };'' [\<lparr> exportName = Some ''foo'', exportStart = 9 \<rparr>])))"
    by code_simp
  have h: "\<forall>(file, code) \<in> set (scanJs ?dirA). \<forall>exports. ?parse code = Inr exports \<longrightarrow>
             distinct (concat (map stmtNames (exportStatements code exports)))"
    unfolding sA using e by (simp add: p)
  from fixDuplicateExportsInDirectory_per_file [of ?parse ?canWrite "''dist''" ?dirA] obtain reportA dirA' where
    runA: "fixDuplicateExportsInDirectory ?parse ?canWrite ''dist'' ?dirA = Inr (reportA, dirA')"
    and allA: "(\<forall>(file, code) \<in> set (scanJs ?dirA). \<forall>exports. ?parse code = Inr exports \<longrightarrow>
          distinct (concat (map stmtNames (exportStatements code exports)))) \<longrightarrow>
        dirA' = ?dirA \<and> filesFixed reportA = 0 \<and>
        fixDuplicateExportsInDirectory ?parse ?canWrite ''dist'' dirA' = Inr (reportA, dirA')"
    by (elim exE conjE) (rule that)
  from allA h have a: "dirA' = ?dirA" "filesFixed reportA = 0" by blast+
  have A: "\<exists>report. fixDuplicateExportsInDirectory ?parse ?canWrite ''dist'' ?dirA = Inr (report, ?dirA) \<and>
      filesFixed report = 0"
    using runA a by blast
  from fixDuplicateExportsInDirectory_per_file [of ?parse ?canWrite "''dist''" ?dirB] obtain reportB dirB' where
    runB: "fixDuplicateExportsInDirectory ?parse ?canWrite ''dist'' ?dirB = Inr (reportB, dirB')"
    and oneB: "distinct (map fst ?dirB) \<longrightarrow>
        (\<forall>f code exports.
           (f, code) \<in> set (scanJs ?dirB) \<and> ?parse code = Inr exports \<and>
           distinct (concat (map stmtNames (exportStatements code exports))) \<longrightarrow>
           map_of dirB' f = Some code \<and>
           (\<exists>results. reportB = Report results \<and> length results = length (scanJs ?dirB) \<and>
              (\<forall>r. (f, r) \<in> set (zip (map fst (scanJs ?dirB)) results) \<longrightarrow>
                 r = \<lparr> resultFilePath = path_join ''dist'' f, wasFixed = False,
                       resultError = None \<rparr>)))"
    by (elim exE conjE) (rule that)
  have d: "distinct (map fst ?dirB)" by simp
  have inB: "(''a.js'', ''export { foo };'') \<in> set (scanJs ?dirB)"
    "(''b.js'', ''export { foo };'') \<in> set (scanJs ?dirB)"
    unfolding sB by simp_all
  from oneB d inB(1) p(1) e have b1: "map_of dirB' ''a.js'' = Some ''export { foo };''"
    by blast
  from oneB d inB(2) p(1) e have b2: "map_of dirB' ''b.js'' = Some ''export { foo };''"
    by blast
  let ?resultsB = "[\<lparr> resultFilePath = ''dist/a.js'', wasFixed = False, resultError = None \<rparr>,
          \<lparr> resultFilePath = ''dist/b.js'', wasFixed = False, resultError = None \<rparr>,
          \<lparr> resultFilePath = ''dist/c.js'', wasFixed = True, resultError = None \<rparr>]"
  let ?dirB' = "[(''a.js'', ''export { foo };''), (''b.js'', ''export { foo };''),
          (''c.js'', ''export { foo }; '')]"
  have evB: "fixDuplicateExportsInDirectory ?parse ?canWrite ''dist'' ?dirB
     = Inr (Report ?resultsB, ?dirB')"
    by code_simp
  from runB have "Inr (reportB, dirB') = (Inr (Report ?resultsB, ?dirB') :: error + report \<times> directory)"
    unfolding evB by (rule sym)
  then have eqB: "reportB = Report ?resultsB" "dirB' = ?dirB'"
    by (simp_all only: sum.inject prod.inject)
  have b3: "filesFixed reportB = 1" and b4: "map_of dirB' ''c.js'' = Some ''export { foo }; ''"
    unfolding eqB by simp_all
  have B: "\<exists>report dir'. fixDuplicateExportsInDirectory ?parse ?canWrite ''dist'' ?dirB = Inr (report, dir') \<and>
      filesFixed report = 1 \<and>
      map_of dir' ''a.js'' = Some ''export { foo };'' \<and>
      map_of dir' ''b.js'' = Some ''export { foo };'' \<and>
      map_of dir' ''c.js'' = Some ''export { foo }; ''"
    using runB b1 b2 b3 b4 by blast
  from A B show ?thesis by (rule conjI)
qed

text \<open>
  C2, as stated: of two files that each contain \<^verbatim>\<open>export { foo };\<close>, one keeps the statement
  and the other loses it.  The set of names seen is local to a file: both files keep the
  statement and no file is fixed.  (The lexer reports the one export \<^verbatim>\<open>foo\<close>, at offset 9.)
\<close>

theorem fixDuplicateExportsInDirectory_cross_file_counterexample:
  "map_sum id (\<lambda>(report, dir'). (filesFixed report, map_of dir' ''a.js'', map_of dir' ''b.js''))
     (fixDuplicateExportsInDirectory
        (\<lambda>code. Inr [\<lparr> exportName = Some ''foo'', exportStart = 9 \<rparr>]) (\<lambda>path. True) ''dist''
        [(''a.js'', ''export { foo };''), (''b.js'', ''export { foo };'')])
   = Inr (0, Some ''export { foo };'', Some ''export { foo };'')"
  by code_simp

section \<open>Properties of the loader and the orchestrator\<close>

lemma promiseAll_Inr:
  "promiseAll ms = Inr xs \<Longrightarrow> ms = map Inr xs"
  by (induction ms arbitrary: xs) (auto split: sum.splits)

lemma promiseAll_Inl:
  "promiseAll ms = Inl e \<Longrightarrow> Inl e \<in> set ms"
  by (induction ms) (auto split: sum.splits)

lemma promiseAll_Inl_ex:
  "Inl e \<in> set ms \<Longrightarrow> \<exists>e'. promiseAll ms = Inl e'"
  by (induction ms) (auto split: sum.splits)

lemma mapThrowing_Inr:
  "mapThrowing f xs = Inr ys \<Longrightarrow> list_all2 (\<lambda>x y. f x = Inr y) xs ys"
proof -
  assume "mapThrowing f xs = Inr ys"
  then have "map f xs = map Inr ys"
    unfolding mapThrowing_def by (rule promiseAll_Inr)
  then show ?thesis
    by (induction xs arbitrary: ys) auto
qed

lemma mapThrowing_Inl:
  "mapThrowing f xs = Inl e \<Longrightarrow> \<exists>x \<in> set xs. f x = Inl e"
  unfolding mapThrowing_def by (drule promiseAll_Inl) auto

lemma mapThrowing_Inl_ex:
  "x \<in> set xs \<Longrightarrow> f x = Inl e \<Longrightarrow> \<exists>e'. mapThrowing f xs = Inl e'"
  unfolding mapThrowing_def by (rule promiseAll_Inl_ex [of e]) force

subsection \<open>The manifest loader\<close>

lemma zString_error: "zString v = Inl e \<Longrightarrow> e = ZodError"
  by (auto simp: zString_def split: option.splits json.splits)

lemma zStringArray_error: "zStringArray v = Inl e \<Longrightarrow> e = ZodError"
  by (auto simp: zStringArray_def split: option.splits json.splits
      dest!: mapThrowing_Inl dest: zString_error)

lemma ssrBundleManifestRouteSchema_error:
  "ssrBundleManifestRouteSchema v = Inl e \<Longrightarrow> e = ZodError"
  by (auto simp: ssrBundleManifestRouteSchema_def bindE_def
      split: option.splits json.splits sum.splits
      dest: zString_error zStringArray_error)

lemma ssrBundleManifestSchema_error:
  "ssrBundleManifestSchema v = Inl e \<Longrightarrow> e = ZodError"
  by (auto simp: ssrBundleManifestSchema_def bindE_def
      split: option.splits json.splits sum.splits if_splits
      dest!: mapThrowing_Inl dest: zString_error ssrBundleManifestRouteSchema_error)

lemma ssrBundleManifestSchema_version:
  "property props ''version'' \<noteq> Some (JNumber 1) \<Longrightarrow>
     ssrBundleManifestSchema (JObject props) = Inl ZodError"
  by (simp add: ssrBundleManifestSchema_def SSR_MANIFEST_VERSION_def)

text \<open>
  C8, amended: with a non-empty list of routes, \<^verbatim>\<open>generateSsrBundleHandlers\<close> throws when
  the manifest file does not exist at \<^verbatim>\<open>manifest.bun-ssr.json\<close> under the bundle directory,
  and throws when the manifest's JSON does not fit the schema, in particular when its
  \<^verbatim>\<open>version\<close> is not the number 1; in each case no route handler has been constructed.
  With an empty list of routes it returns an empty table and never looks at the manifest.
\<close>

theorem generateSsrBundleHandlers_manifest_checks:
  "(routes \<noteq> [] \<longrightarrow>
      generateSsrBundleHandlers mimeType files names bundleDirPath compressSsrResponse routes
        ManifestMissing
      = \<lparr> handlersConstructed = [],
          handlersOutcome = Inl (ManifestNotFound (path_join bundleDirPath ''manifest.bun-ssr.json'')) \<rparr> \<and>
      (\<forall>manifestJson.
         (\<forall>manifest. ssrBundleManifestSchema manifestJson \<noteq> Inr manifest) \<longrightarrow>
           generateSsrBundleHandlers mimeType files names bundleDirPath compressSsrResponse routes
             (ManifestJson manifestJson)
           = \<lparr> handlersConstructed = [], handlersOutcome = Inl ZodError \<rparr>) \<and>
      (\<forall>props.
         property props ''version'' \<noteq> Some (JNumber 1) \<longrightarrow>
           generateSsrBundleHandlers mimeType files names bundleDirPath compressSsrResponse routes
             (ManifestJson (JObject props))
           = \<lparr> handlersConstructed = [], handlersOutcome = Inl ZodError \<rparr>)) \<and>
   (routes = [] \<longrightarrow>
      generateSsrBundleHandlers mimeType files names bundleDirPath compressSsrResponse routes file
      = \<lparr> handlersConstructed = [], handlersOutcome = Inr [] \<rparr>)"
proof (intro conjI impI allI)
  assume "routes \<noteq> []"
  then show "generateSsrBundleHandlers mimeType files names bundleDirPath compressSsrResponse routes
        ManifestMissing
      = \<lparr> handlersConstructed = [],
          handlersOutcome = Inl (ManifestNotFound (path_join bundleDirPath ''manifest.bun-ssr.json'')) \<rparr>"
    by (simp add: generateSsrBundleHandlers_def SSR_MANIFEST_FILENAME_def)
next
  fix manifestJson
  assume r: "routes \<noteq> []" and n: "\<forall>manifest. ssrBundleManifestSchema manifestJson \<noteq> Inr manifest"
  then obtain e where e: "ssrBundleManifestSchema manifestJson = Inl e"
    by (cases "ssrBundleManifestSchema manifestJson") auto
  then have "e = ZodError" by (rule ssrBundleManifestSchema_error)
  with r e show "generateSsrBundleHandlers mimeType files names bundleDirPath compressSsrResponse routes
             (ManifestJson manifestJson)
           = \<lparr> handlersConstructed = [], handlersOutcome = Inl ZodError \<rparr>"
    by (simp add: generateSsrBundleHandlers_def)
next
  fix props
  assume r: "routes \<noteq> []" and "property props ''version'' \<noteq> Some (JNumber 1)"
  then have "ssrBundleManifestSchema (JObject props) = Inl ZodError"
    by (simp add: ssrBundleManifestSchema_version)
  with r show "generateSsrBundleHandlers mimeType files names bundleDirPath compressSsrResponse routes
             (ManifestJson (JObject props))
           = \<lparr> handlersConstructed = [], handlersOutcome = Inl ZodError \<rparr>"
    by (simp add: generateSsrBundleHandlers_def)
next
  assume "routes = []"
  then show "generateSsrBundleHandlers mimeType files names bundleDirPath compressSsrResponse routes file
      = \<lparr> handlersConstructed = [], handlersOutcome = Inr [] \<rparr>"
    by (simp add: generateSsrBundleHandlers_def)
qed

theorem generateSsrBundleHandlers_manifest_checks_witness:
  "generateSsrBundleHandlers (\<lambda>path. ''text/javascript'') Map.empty [] ''/app/dist-ssr'' True
     [\<lparr> configPath = ''/ssr'', ssrComponent = ComponentFunction (\<lambda>css js. Inr ''<html></html>''),
        hydrateModulePath = ''src/ssr.hydrate.tsx'' \<rparr>]
     ManifestMissing
   = \<lparr> handlersConstructed = [],
       handlersOutcome = Inl (ManifestNotFound ''/app/dist-ssr/manifest.bun-ssr.json'') \<rparr> \<and>
   generateSsrBundleHandlers (\<lambda>path. ''text/javascript'') Map.empty [] ''/app/dist-ssr'' True
     [\<lparr> configPath = ''/ssr'', ssrComponent = ComponentFunction (\<lambda>css js. Inr ''<html></html>''),
        hydrateModulePath = ''src/ssr.hydrate.tsx'' \<rparr>]
     (ManifestJson (JObject [(''version'', JNumber 2), (''publicAssetPath'', JString ''/dist/client/''),
                             (''routes'', JArray [])]))
   = \<lparr> handlersConstructed = [], handlersOutcome = Inl ZodError \<rparr>"
proof -
  let ?routes = "[\<lparr> configPath = ''/ssr'', ssrComponent = ComponentFunction (\<lambda>css js. Inr ''<html></html>''),
        hydrateModulePath = ''src/ssr.hydrate.tsx'' \<rparr>]"
  let ?props = "[(''version'', JNumber 2), (''publicAssetPath'', JString ''/dist/client/''),
                             (''routes'', JArray [])]"
  have r: "?routes \<noteq> []" by simp
  have v: "property ?props ''version'' \<noteq> Some (JNumber 1)" by (simp add: property_def)
  have p: "path_join ''/app/dist-ssr'' ''manifest.bun-ssr.json'' = ''/app/dist-ssr/manifest.bun-ssr.json''"
    by code_simp
  note t = generateSsrBundleHandlers_manifest_checks
    [of ?routes "\<lambda>path. ''text/javascript''" Map.empty "[]" "''/app/dist-ssr''" True]
  from t r v show ?thesis unfolding p by blast
qed

text \<open>
  C8, as stated: the function throws whenever the manifest file does not exist.  Called
  with no routes and no manifest file, it returns the empty table.
\<close>

theorem generateSsrBundleHandlers_no_routes_counterexample:
  "generateSsrBundleHandlers (\<lambda>path. ''text/javascript'') Map.empty [] ''/app/dist-ssr'' True []
     ManifestMissing
   = \<lparr> handlersConstructed = [], handlersOutcome = Inr [] \<rparr>"
  by (simp add: generateSsrBundleHandlers_def)


subsection \<open>The bundle orchestrator\<close>

lemma processOutput_js:
  assumes "processOutput routes out (js, css, dir) = Inr (js', css', dir')"
  shows "js' = js \<or> (\<exists>k a. js' = AList.update k [a] js)"
  using assms
  by (auto simp: processOutput_def bindE_def Let_def
      split: if_splits option.splits sum.splits)

lemma nonEmptyLists_update:
  "nonEmptyLists js \<Longrightarrow> nonEmptyLists (AList.update k [a] js)"
  by (simp add: nonEmptyLists_def update_conv')

lemma processOutput_nonEmpty:
  assumes "processOutput routes out (js, css, dir) = Inr (js', css', dir')" "nonEmptyLists js"
  shows "nonEmptyLists js'"
  using processOutput_js [OF assms(1)] assms(2) nonEmptyLists_update by auto

lemma processOutputs_nonEmpty:
  assumes "processOutputs routes outs (js, css, dir) = Inr (js', css', dir')" "nonEmptyLists js"
  shows "nonEmptyLists js'"
  using assms
proof (induction outs arbitrary: js css dir)
  case Nil
  then show ?case by simp
next
  case (Cons out outs)
  from Cons.prems(1) obtain js1 css1 dir1 where
    s: "processOutput routes out (js, css, dir) = Inr (js1, css1, dir1)"
    and r: "processOutputs routes outs (js1, css1, dir1) = Inr (js', css', dir')"
    by (auto simp: bindE_def split: sum.splits)
  from processOutput_nonEmpty [OF s Cons.prems(2)] Cons.IH [OF r] show ?case by simp
qed

lemma map_of_resolveJsDependencies:
  "map_of (resolveJsDependencies clientDistDir dir publicAssetPath m) p =
     map_option (resolvePage publicAssetPath (jsFilesByBasename clientDistDir dir)
                   (referenceMap clientDistDir publicAssetPath dir)) (map_of m p)"
  unfolding resolveJsDependencies_def by (induction m) auto

lemma resolveJsDependencies_nonEmpty:
  assumes "nonEmptyLists m"
  shows "nonEmptyLists (resolveJsDependencies clientDistDir dir publicAssetPath m)"
  unfolding nonEmptyLists_def
proof (intro allI impI)
  fix p js'
  assume "map_of (resolveJsDependencies clientDistDir dir publicAssetPath m) p = Some js'"
  then obtain js where js: "map_of m p = Some js"
    and r: "js' = resolvePage publicAssetPath (jsFilesByBasename clientDistDir dir)
                   (referenceMap clientDistDir publicAssetPath dir) js"
    by (auto simp: map_of_resolveJsDependencies)
  from js assms have "js \<noteq> []" by (auto simp: nonEmptyLists_def)
  moreover obtain chunks where "js' = js @ chunks"
    using resolvePage_appends [of publicAssetPath "jsFilesByBasename clientDistDir dir"
        "referenceMap clientDistDir publicAssetPath dir" js] r by blast
  ultimately show "js' \<noteq> []" by simp
qed

lemma bundleClient_nonEmpty:
  assumes "bundleClient parse canWrite clientDistDir routes result dir = Inr (js, css, dir')"
  shows "nonEmptyLists js"
proof -
  from assms obtain report dir1 js0 css0 where
    p: "processOutputs routes (buildOutputs result) ([], [], dir1) = Inr (js0, css0, dir')"
    and j: "js = resolveJsDependencies clientDistDir dir' PUBLIC_ASSET_PATH js0"
    by (auto simp: bundleClient_def bindE_def split: if_splits sum.splits prod.splits)
  have "nonEmptyLists []" by (simp add: nonEmptyLists_def)
  from processOutputs_nonEmpty [OF p this] have "nonEmptyLists js0" .
  then show ?thesis unfolding j by (rule resolveJsDependencies_nonEmpty)
qed

lemma buildManifest_routes:
  assumes "buildManifest routes js css = Inr manifest" "nonEmptyLists js"
  shows "map routeEntryPath (manifestRoutes manifest) = map configPath routes \<and>
         (\<forall>r \<in> set (manifestRoutes manifest). routeJs r \<noteq> [])"
proof -
  from assms(1) obtain rs where
    m: "mapThrowing (manifestRouteFor js css) routes = Inr rs" and rs: "manifestRoutes manifest = rs"
    by (auto simp: buildManifest_def bindE_def split: sum.splits)
  from mapThrowing_Inr [OF m]
  have l: "list_all2 (\<lambda>page r. manifestRouteFor js css page = Inr r) routes rs" .
  have each: "routeEntryPath r = configPath page \<and> routeJs r \<noteq> []"
    if "manifestRouteFor js css page = Inr r" for page r
    using that assms(2)
    by (auto simp: manifestRouteFor_def nonEmptyLists_def split: option.splits)
  from l have "list_all2 (\<lambda>page r. routeEntryPath r = configPath page \<and> routeJs r \<noteq> []) routes rs"
    by (rule list_all2_mono) (use each in blast)
  then have "map routeEntryPath rs = map configPath routes \<and> (\<forall>r \<in> set rs. routeJs r \<noteq> [])"
    by (induction routes rs rule: list_all2_induct) auto
  with rs show ?thesis by simp
qed

lemma buildManifest_missing:
  assumes "page \<in> set routes"
    and "map_of js (configPath page) = None \<or> map_of css (configPath page) = None"
  shows "\<exists>p. buildManifest routes js css = Inl (EntrypointPathNotFound p) \<or>
             buildManifest routes js css = Inl (CssPathsNotFound p)"
proof -
  from assms(2) obtain e where "manifestRouteFor js css page = Inl e"
    by (cases "map_of js (configPath page)") (auto simp: manifestRouteFor_def)
  from mapThrowing_Inl_ex [of page routes "manifestRouteFor js css" e, OF assms(1) this] obtain e' where
    e': "mapThrowing (manifestRouteFor js css) routes = Inl e'" by blast
  from mapThrowing_Inl [OF this] obtain q where "manifestRouteFor js css q = Inl e'" by blast
  then have "(\<exists>p. e' = EntrypointPathNotFound p) \<or> (\<exists>p. e' = CssPathsNotFound p)"
    by (auto simp: manifestRouteFor_def split: option.splits)
  with e' show ?thesis by (auto simp: buildManifest_def bindE_def)
qed

text \<open>
  C4: for a non-empty list of routes, when \<^verbatim>\<open>ssrBundle\<close> completes it has written a
  manifest whose routes are the input routes' paths, one entry each and in input order,
  and every entry's JavaScript list is non-empty; and when the maps that
  \<^verbatim>\<open>bundleClient\<close> leaves lack the JavaScript or the CSS entry of some input route,
  \<^verbatim>\<open>ssrBundle\<close> throws, the serialization of the manifest failing with \<^verbatim>\<open>Entrypoint path
  ... not found\<close> or \<^verbatim>\<open>CSS paths ... not found\<close>.
\<close>

theorem ssrBundle_manifest_routes:
  assumes "routes \<noteq> []"
  shows "(\<forall>out. ssrBundle parse canWrite compressor bundleDistDir routes compress result dir = Inr out \<longrightarrow>
            (\<exists>manifest dir'. out = Bundled bundleDistDir manifest dir' \<and>
               map routeEntryPath (manifestRoutes manifest) = map configPath routes \<and>
               (\<forall>r \<in> set (manifestRoutes manifest). routeJs r \<noteq> []))) \<and>
         (\<forall>js css dir1.
            bundleClient parse canWrite (path_join bundleDistDir ''client'') routes result dir
              = Inr (js, css, dir1) \<and>
            (\<exists>page \<in> set routes.
               map_of js (configPath page) = None \<or> map_of css (configPath page) = None) \<longrightarrow>
            (\<exists>e. ssrBundle parse canWrite compressor bundleDistDir routes compress result dir = Inl e) \<and>
            (\<exists>p. buildManifest routes js css = Inl (EntrypointPathNotFound p) \<or>
                 buildManifest routes js css = Inl (CssPathsNotFound p)))"
proof (rule conjI; intro allI impI)
  fix out
  assume "ssrBundle parse canWrite compressor bundleDistDir routes compress result dir = Inr out"
  with assms obtain js css dir1 dir2 manifest where
    b: "bundleClient parse canWrite (path_join bundleDistDir ''client'') routes result dir
          = Inr (js, css, dir1)"
    and m: "buildManifest routes js css = Inr manifest"
    and o: "out = Bundled bundleDistDir manifest dir2"
    by (auto simp: ssrBundle_def bindE_def split: sum.splits prod.splits)
  from buildManifest_routes [OF m bundleClient_nonEmpty [OF b]] o
  show "\<exists>manifest dir'. out = Bundled bundleDistDir manifest dir' \<and>
               map routeEntryPath (manifestRoutes manifest) = map configPath routes \<and>
               (\<forall>r \<in> set (manifestRoutes manifest). routeJs r \<noteq> [])"
    by blast
next
  fix js css dir1
  assume a: "bundleClient parse canWrite (path_join bundleDistDir ''client'') routes result dir
              = Inr (js, css, dir1) \<and>
            (\<exists>page \<in> set routes.
               map_of js (configPath page) = None \<or> map_of css (configPath page) = None)"
  then obtain page where "page \<in> set routes"
    "map_of js (configPath page) = None \<or> map_of css (configPath page) = None" by blast
  from buildManifest_missing [OF this]
  have e: "\<exists>p. buildManifest routes js css = Inl (EntrypointPathNotFound p) \<or>
             buildManifest routes js css = Inl (CssPathsNotFound p)" .
  moreover from e a assms
  have "\<exists>e. ssrBundle parse canWrite compressor bundleDistDir routes compress result dir = Inl e"
    by (auto simp: ssrBundle_def bindE_def split: sum.splits)
  ultimately show "(\<exists>e. ssrBundle parse canWrite compressor bundleDistDir routes compress result dir = Inl e) \<and>
            (\<exists>p. buildManifest routes js css = Inl (EntrypointPathNotFound p) \<or>
                 buildManifest routes js css = Inl (CssPathsNotFound p))"
    by blast
qed


theorem ssrBundle_manifest_routes_witness:
  "ssrBundle (\<lambda>code. Inr []) (\<lambda>path. True) (\<lambda>alg content. Inr content) ''/app/dist-ssr''
     [\<lparr> configPath = ''/ssr'', ssrComponent = ComponentNotFunction,
        hydrateModulePath = ''src/ssr.hydrate.tsx'' \<rparr>]
     True
     \<lparr> buildSuccess = True,
       buildOutputs =
         [\<lparr> outputPath = ''/app/dist-ssr/client/ssr.hydrate-a1b2.js'', outputKind = EntryPointOutput,
            outputHash = Some ''a1b2'', outputContent = ''import /dist/client/chunk-c3d4.js;'' \<rparr>,
          \<lparr> outputPath = ''/app/dist-ssr/client/chunk-c3d4.js'', outputKind = ChunkOutput,
            outputHash = Some ''c3d4'', outputContent = ''export {};'' \<rparr>,
          \<lparr> outputPath = ''/app/dist-ssr/client/ssr.hydrate-e5f6.css'', outputKind = AssetOutput,
            outputHash = Some ''e5f6'', outputContent = ''body{}'' \<rparr>] \<rparr>
     [(''ssr.hydrate-a1b2.js'', ''import /dist/client/chunk-c3d4.js;''),
      (''chunk-c3d4.js'', ''export {};''), (''ssr.hydrate-e5f6.css'', ''body{}'')]
   = Inr (Bundled ''/app/dist-ssr''
       \<lparr> manifestVersion = 1, manifestPublicAssetPath = ''/dist/client/'',
         manifestRoutes =
           [\<lparr> routeEntryPath = ''/ssr'',
              routeJs = [''/dist/client/ssr.hydrate-a1b2.js'', ''/dist/client/chunk-c3d4.js''],
              routeCss = [''/dist/client/e5f6.css''] \<rparr>] \<rparr>
       [(''ssr.hydrate-a1b2.js'', ''import /dist/client/chunk-c3d4.js;''),
        (''chunk-c3d4.js'', ''export {};''), (''ssr.hydrate-e5f6.css'', ''body{}''),
        (''e5f6.css'', ''body{}'')]) \<and>
   map routeEntryPath
     [\<lparr> routeEntryPath = ''/ssr'',
        routeJs = [''/dist/client/ssr.hydrate-a1b2.js'', ''/dist/client/chunk-c3d4.js''],
        routeCss = [''/dist/client/e5f6.css''] \<rparr>]
   = map configPath
       [\<lparr> configPath = ''/ssr'', ssrComponent = ComponentNotFunction,
          hydrateModulePath = ''src/ssr.hydrate.tsx'' \<rparr>] \<and>
   (\<exists>e. ssrBundle (\<lambda>code. Inr []) (\<lambda>path. True) (\<lambda>alg content. Inr content) ''/app/dist-ssr''
         [\<lparr> configPath = ''/ssr'', ssrComponent = ComponentNotFunction,
            hydrateModulePath = ''src/ssr.hydrate.tsx'' \<rparr>]
         True
         \<lparr> buildSuccess = True,
           buildOutputs =
             [\<lparr> outputPath = ''/app/dist-ssr/client/ssr.hydrate-a1b2.js'',
                outputKind = EntryPointOutput, outputHash = Some ''a1b2'',
                outputContent = ''export {};'' \<rparr>] \<rparr>
         [(''ssr.hydrate-a1b2.js'', ''export {};'')]
       = Inl e)"
proof -
  let ?parse = "\<lambda>code :: string. (Inr [] :: error + exportSpecifier list)"
  let ?canWrite = "\<lambda>path :: string. True"
  let ?compressor = "\<lambda>(alg :: algorithm) (content :: string). (Inr content :: error + string)"
  let ?routes = "[\<lparr> configPath = ''/ssr'', ssrComponent = ComponentNotFunction,
        hydrateModulePath = ''src/ssr.hydrate.tsx'' \<rparr>]"
  let ?result = "\<lparr> buildSuccess = True,
       buildOutputs =
         [\<lparr> outputPath = ''/app/dist-ssr/client/ssr.hydrate-a1b2.js'', outputKind = EntryPointOutput,
            outputHash = Some ''a1b2'', outputContent = ''import /dist/client/chunk-c3d4.js;'' \<rparr>,
          \<lparr> outputPath = ''/app/dist-ssr/client/chunk-c3d4.js'', outputKind = ChunkOutput,
            outputHash = Some ''c3d4'', outputContent = ''export {};'' \<rparr>,
          \<lparr> outputPath = ''/app/dist-ssr/client/ssr.hydrate-e5f6.css'', outputKind = AssetOutput,
            outputHash = Some ''e5f6'', outputContent = ''body{}'' \<rparr>] \<rparr>"
  let ?dir = "[(''ssr.hydrate-a1b2.js'', ''import /dist/client/chunk-c3d4.js;''),
      (''chunk-c3d4.js'', ''export {};''), (''ssr.hydrate-e5f6.css'', ''body{}'')]"
  let ?routes' = "[\<lparr> routeEntryPath = ''/ssr'',
              routeJs = [''/dist/client/ssr.hydrate-a1b2.js'', ''/dist/client/chunk-c3d4.js''],
              routeCss = [''/dist/client/e5f6.css''] \<rparr>]"
  let ?manifest = "\<lparr> manifestVersion = 1, manifestPublicAssetPath = ''/dist/client/'',
         manifestRoutes = ?routes' \<rparr>"
  let ?dir' = "[(''ssr.hydrate-a1b2.js'', ''import /dist/client/chunk-c3d4.js;''),
        (''chunk-c3d4.js'', ''export {};''), (''ssr.hydrate-e5f6.css'', ''body{}''),
        (''e5f6.css'', ''body{}'')]"
  let ?resultB = "\<lparr> buildSuccess = True,
           buildOutputs =
             [\<lparr> outputPath = ''/app/dist-ssr/client/ssr.hydrate-a1b2.js'',
                outputKind = EntryPointOutput, outputHash = Some ''a1b2'',
                outputContent = ''export {};'' \<rparr>] \<rparr>"
  let ?dirB = "[(''ssr.hydrate-a1b2.js'', ''export {};'')]"
  let ?jsB = "[(''/ssr'', [\<lparr> urlPath = ''/dist/client/ssr.hydrate-a1b2.js'',
                 filePath = ''/app/dist-ssr/client/ssr.hydrate-a1b2.js'', kind = Entrypoint \<rparr>])]"
  have r: "?routes \<noteq> []" by simp
  have h: "ssrBundle ?parse ?canWrite ?compressor ''/app/dist-ssr'' ?routes True ?result ?dir
             = Inr (Bundled ''/app/dist-ssr'' ?manifest ?dir')"
    by code_simp
  have b: "bundleClient ?parse ?canWrite (path_join ''/app/dist-ssr'' ''client'') ?routes ?resultB ?dirB
             = Inr (?jsB, [], ?dirB)"
    by code_simp
  have c: "\<exists>page \<in> set ?routes. map_of ?jsB (configPath page) = None \<or>
             map_of ([] :: cssByPagePathMap) (configPath page) = None"
    by simp
  note t1 = ssrBundle_manifest_routes [OF r, of ?parse ?canWrite ?compressor "''/app/dist-ssr''" True ?result ?dir]
  note t2 = ssrBundle_manifest_routes [OF r, of ?parse ?canWrite ?compressor "''/app/dist-ssr''" True ?resultB ?dirB]
  from t1 h have "\<exists>manifest dir'. Bundled ''/app/dist-ssr'' ?manifest ?dir' = Bundled ''/app/dist-ssr'' manifest dir' \<and>
               map routeEntryPath (manifestRoutes manifest) = map configPath ?routes"
    by blast
  then have m: "map routeEntryPath ?routes' = map configPath ?routes"
    by auto
  from t2 b c
  have e: "\<exists>e. ssrBundle ?parse ?canWrite ?compressor ''/app/dist-ssr'' ?routes True ?resultB ?dirB = Inl e"
    by blast
  from h m e show ?thesis by blast
qed

end
